theory Spec2Isabelle
  imports Main "HOL-Library.Sublist"
begin

section \<open>Python values\<close>

text \<open>
  A Python \<open>str\<close> is a sequence of Unicode code points, so \<open>len\<close>, slicing and
  \<open>startswith\<close> count code points. The cross mark that opens every error message of
  \<open>ai_logic.py\<close> is the single code point U+274C.
\<close>

type_synonym ustr = "nat list"

definition ascii :: "string \<Rightarrow> ustr" where
  "ascii s = map of_char s"

definition cross_mark :: nat where
  "cross_mark = 0x274C"

text \<open>
  \<open>str.isspace\<close> of one character: the code points that \<open>str.strip()\<close> removes.
\<close>

definition isspace :: "nat \<Rightarrow> bool" where
  "isspace c \<longleftrightarrow>
     (0x09 \<le> c \<and> c \<le> 0x0D) \<or> (0x1C \<le> c \<and> c \<le> 0x20) \<or> c = 0x85 \<or> c = 0xA0 \<or>
     c = 0x1680 \<or> (0x2000 \<le> c \<and> c \<le> 0x200A) \<or> c = 0x2028 \<or> c = 0x2029 \<or>
     c = 0x202F \<or> c = 0x205F \<or> c = 0x3000"

definition strip :: "ustr \<Rightarrow> ustr" where
  "strip s = rev (dropWhile isspace (rev (dropWhile isspace s)))"

text \<open>
  The values that \<open>json.loads\<close> produces for a document of strings, integers, booleans,
  \<open>null\<close>, arrays and objects. \<open>JNull\<close> is Python's \<open>None\<close>; an object is a
  \<open>dict\<close> in insertion order. The response schema of \<open>main.py\<close> has no
  non-integer number, and this development has none.
\<close>

datatype json =
    JNull
  | JBool bool
  | JInt int
  | JStr ustr
  | JArr "json list"
  | JObj "(ustr \<times> json) list"

text \<open>
  Exceptions, every one an instance of Python's \<open>Exception\<close>, with its \<open>str()\<close>.
  A \<open>BlockedPromptException\<close> holds, before its message, what the handlers of
  \<open>ai_logic.py\<close> read from it, \<open>e.response.prompt_feedback.block_reason.name\<close>: that
  name, or \<open>None\<close> when the exception has no attribute \<open>response\<close>. The exception
  that \<open>google.generativeai\<close> raises is made from the prompt feedback alone and has no such
  attribute.
\<close>

datatype py_exception =
    RuntimeError ustr
  | Exception ustr
  | BlockedPromptException "ustr option" ustr
  | JSONDecodeError ustr
  | AttributeError ustr
  | TypeError ustr
  | ValueError ustr
  | KeyError ustr
  | UnicodeEncodeError ustr
  | OtherError ustr

fun exc_str :: "py_exception \<Rightarrow> ustr" where
  "exc_str (RuntimeError m) = m"
| "exc_str (Exception m) = m"
| "exc_str (BlockedPromptException r m) = m"
| "exc_str (JSONDecodeError m) = m"
| "exc_str (AttributeError m) = m"
| "exc_str (TypeError m) = m"
| "exc_str (ValueError m) = m"
| "exc_str (KeyError m) = m"
| "exc_str (UnicodeEncodeError m) = m"
| "exc_str (OtherError m) = m"

text \<open>Truthiness, as \<open>if x:\<close> and \<open>not x\<close> test it.\<close>

fun truthy :: "json \<Rightarrow> bool" where
  "truthy JNull = False"
| "truthy (JBool b) = b"
| "truthy (JInt i) = (i \<noteq> 0)"
| "truthy (JStr s) = (s \<noteq> [])"
| "truthy (JArr xs) = (xs \<noteq> [])"
| "truthy (JObj kvs) = (kvs \<noteq> [])"

text \<open>
  \<open>d.get(k, default)\<close>: only a \<open>dict\<close> has the method; on any other value the
  attribute access raises \<open>AttributeError\<close>.
\<close>

fun type_name :: "json \<Rightarrow> ustr" where
  "type_name JNull = ascii ''NoneType''"
| "type_name (JBool b) = ascii ''bool''"
| "type_name (JInt i) = ascii ''int''"
| "type_name (JStr s) = ascii ''str''"
| "type_name (JArr xs) = ascii ''list''"
| "type_name (JObj kvs) = ascii ''dict''"

definition no_attribute :: "json \<Rightarrow> string \<Rightarrow> py_exception" where
  "no_attribute v a =
     AttributeError ([39] @ type_name v @ [39] @ ascii '' object has no attribute '' @ [39] @ ascii a @ [39])"

fun py_get :: "json \<Rightarrow> ustr \<Rightarrow> json \<Rightarrow> py_exception + json" where
  "py_get (JObj kvs) k d = Inr (case map_of kvs k of Some v \<Rightarrow> v | None \<Rightarrow> d)"
| "py_get v k d = Inl (no_attribute v ''get'')"

text \<open>Decimal digits of an integer, as \<open>str\<close> and \<open>json.dumps\<close> print it.\<close>

fun dec_nat :: "nat \<Rightarrow> ustr" where
  "dec_nat n = (if n < 10 then [48 + n] else dec_nat (n div 10) @ [48 + n mod 10])"

declare dec_nat.simps [simp del]

definition dec_int :: "int \<Rightarrow> ustr" where
  "dec_int i = (if i < 0 then 45 # dec_nat (nat (- i)) else dec_nat (nat i))"

section \<open>\<open>json.dumps\<close>\<close>

text \<open>
  The encoder of Python's \<open>json\<close> module with its defaults (\<open>ensure_ascii=True\<close>).
  A character outside the printable ASCII range, a quote or a backslash is escaped; a code
  point above U+FFFF is written as a surrogate pair.
\<close>

definition hex_digit :: "nat \<Rightarrow> nat" where
  "hex_digit d = (if d < 10 then 48 + d else 87 + d)"

definition u_escape :: "nat \<Rightarrow> ustr" where
  "u_escape n =
     [92, 117, hex_digit (n div 4096 mod 16), hex_digit (n div 256 mod 16),
      hex_digit (n div 16 mod 16), hex_digit (n mod 16)]"

definition escape_char :: "nat \<Rightarrow> ustr" where
  "escape_char c =
     (if c = 92 then [92, 92]
      else if c = 34 then [92, 34]
      else if c = 8 then [92, 98]
      else if c = 12 then [92, 102]
      else if c = 10 then [92, 110]
      else if c = 13 then [92, 114]
      else if c = 9 then [92, 116]
      else if 32 \<le> c \<and> c \<le> 126 then [c]
      else if c < 0x10000 then u_escape c
      else u_escape (0xD800 + (c - 0x10000) div 1024 mod 1024) @
           u_escape (0xDC00 + (c - 0x10000) mod 1024))"

definition encode_string :: "ustr \<Rightarrow> ustr" where
  "encode_string s = [34] @ concat (map escape_char s) @ [34]"

fun join :: "ustr \<Rightarrow> ustr list \<Rightarrow> ustr" where
  "join sep [] = []"
| "join sep [x] = x"
| "join sep (x # y # ys) = x @ sep @ join sep (y # ys)"

text \<open>
  \<open>dumps indent level v\<close>: with \<open>indent = None\<close> the items of an array or object are
  separated by a comma and a space on one line; with \<open>indent = Some n\<close> every item
  starts a line of its own, \<open>n\<close> spaces deeper than its parent. An empty array is
  \<open>[]\<close> and an empty object \<open>{}\<close> either way.
\<close>

definition newline_indent :: "nat option \<Rightarrow> nat \<Rightarrow> ustr" where
  "newline_indent indent level =
     (case indent of None \<Rightarrow> [] | Some n \<Rightarrow> 10 # replicate (n * level) 32)"

definition item_separator :: "nat option \<Rightarrow> nat \<Rightarrow> ustr" where
  "item_separator indent level =
     (case indent of None \<Rightarrow> [44, 32] | Some n \<Rightarrow> 44 # newline_indent indent level)"

fun dumps :: "nat option \<Rightarrow> nat \<Rightarrow> json \<Rightarrow> ustr" where
  "dumps indent level JNull = ascii ''null''"
| "dumps indent level (JBool b) = (if b then ascii ''true'' else ascii ''false'')"
| "dumps indent level (JInt i) = dec_int i"
| "dumps indent level (JStr s) = encode_string s"
| "dumps indent level (JArr xs) =
     (if xs = [] then ascii ''[]''
      else [91] @ newline_indent indent (Suc level) @
           join (item_separator indent (Suc level)) (map (dumps indent (Suc level)) xs) @
           newline_indent indent level @ [93])"
| "dumps indent level (JObj kvs) =
     (if kvs = [] then ascii ''{}''
      else [123] @ newline_indent indent (Suc level) @
           join (item_separator indent (Suc level))
             (map (\<lambda>kv. encode_string (fst kv) @ [58, 32] @ dumps indent (Suc level) (snd kv)) kvs) @
           newline_indent indent level @ [125])"

definition json_dumps :: "nat option \<Rightarrow> json \<Rightarrow> ustr" where
  "json_dumps indent v = dumps indent 0 v"

section \<open>\<open>str.encode\<close>\<close>

text \<open>
  \<open>s.encode('utf-8')\<close>: the bytes of the text, one to four for each code point. A
  surrogate code point (U+D800 to U+DFFF) has no UTF-8 encoding, and the call raises
  \<open>UnicodeEncodeError\<close> at the first run of surrogates in the text, naming the
  character when the run is one character long and the positions of the run otherwise.
\<close>

type_synonym bytes = "nat list"

definition is_surrogate :: "nat \<Rightarrow> bool" where
  "is_surrogate c \<longleftrightarrow> 0xD800 \<le> c \<and> c \<le> 0xDFFF"

definition utf8_char :: "nat \<Rightarrow> bytes" where
  "utf8_char c =
     (if c < 0x80 then [c]
      else if c < 0x800 then [0xC0 + c div 64, 0x80 + c mod 64]
      else if c < 0x10000 then [0xE0 + c div 4096, 0x80 + c div 64 mod 64, 0x80 + c mod 64]
      else [0xF0 + c div 262144, 0x80 + c div 4096 mod 64, 0x80 + c div 64 mod 64, 0x80 + c mod 64])"

definition surrogates_not_allowed :: "ustr \<Rightarrow> py_exception" where
  "surrogates_not_allowed s =
     (let start = length (takeWhile (\<lambda>c. \<not> is_surrogate c) s);
          run = takeWhile is_surrogate (drop start s)
      in UnicodeEncodeError
           ([39] @ ascii ''utf-8'' @ [39] @ ascii '' codec can'' @ [39] @ ascii ''t encode '' @
            (if length run = 1 then
               ascii ''character '' @ [39] @ u_escape (hd run) @ [39] @ ascii '' in position '' @
               dec_nat start
             else
               ascii ''characters in position '' @ dec_nat start @ ascii ''-'' @
               dec_nat (start + length run - 1)) @
            ascii '': surrogates not allowed''))"

definition encode_utf8 :: "ustr \<Rightarrow> py_exception + bytes" where
  "encode_utf8 s =
     (if \<exists>c \<in> set s. is_surrogate c then Inl (surrogates_not_allowed s)
      else Inr (concat (map utf8_char s)))"

section \<open>The directed graph of \<open>networkx\<close>\<close>

text \<open>
  \<open>nx.DiGraph\<close> keeps two \<open>dict\<close>s keyed by node: \<open>_node\<close>, from a node to its
  attribute \<open>dict\<close>, and \<open>_succ\<close> (also named \<open>_adj\<close>), from a node to the \<open>dict\<close>
  of its successors, which maps each successor to the attribute \<open>dict\<close> of the edge. Both
  get a new key at the same moments, in \<open>add_node\<close> and \<open>add_edge\<close>, so they have
  the same keys in the same order, and one association list holds both here: each node with
  its attributes and its successors. (\<open>_pred\<close>, the same edges by target, is not read by
  anything that follows.) Adding a node or an edge that is there already updates its
  attributes, and adding an edge adds its end points as nodes without attributes when they
  are missing. A node is a \<open>dict\<close> key, so it is hashable (a list or a dict is not), two
  keys are the same node when Python's \<open>==\<close> says so (\<open>True == 1\<close>), the key that was
  stored first stays, and \<open>None\<close> is refused.
\<close>

type_synonym attrs = "(string \<times> json) list"

type_synonym adjacency = "(json \<times> attrs) list"

record digraph =
  g_node :: "(json \<times> attrs \<times> adjacency) list"

definition empty_graph :: digraph where
  "empty_graph = \<lparr>g_node = []\<rparr>"

text \<open>
  \<open>G.nodes(data=True)\<close> and \<open>G.edges(data=True)\<close>, which \<open>pyvis\<close> reads: the nodes
  in the order of their keys, and the edges node by node in that order, the edges that leave
  one node in the order of its successors.
\<close>

definition nodes_data :: "digraph \<Rightarrow> (json \<times> attrs) list" where
  "nodes_data G = map (\<lambda>(n, a, succ). (n, a)) (g_node G)"

definition edges_data :: "digraph \<Rightarrow> (json \<times> json \<times> attrs) list" where
  "edges_data G = concat (map (\<lambda>(u, a, succ). map (\<lambda>(v, d). (u, v, d)) succ) (g_node G))"

fun hashable :: "json \<Rightarrow> bool" where
  "hashable (JArr xs) = False"
| "hashable (JObj kvs) = False"
| "hashable v = True"

definition unhashable :: "json \<Rightarrow> py_exception" where
  "unhashable v = TypeError (ascii ''unhashable type: '' @ [39] @ type_name v @ [39])"

fun py_eq :: "json \<Rightarrow> json \<Rightarrow> bool" where
  "py_eq (JBool a) (JInt i) = (i = (if a then 1 else 0))"
| "py_eq (JInt i) (JBool a) = (i = (if a then 1 else 0))"
| "py_eq a b = (a = b)"

fun dict_lookup :: "('k \<Rightarrow> bool) \<Rightarrow> ('k \<times> 'v) list \<Rightarrow> 'v option" where
  "dict_lookup same [] = None"
| "dict_lookup same ((k, v) # kvs) = (if same k then Some v else dict_lookup same kvs)"

fun dict_store :: "('k \<Rightarrow> bool) \<Rightarrow> 'k \<Rightarrow> 'v \<Rightarrow> ('k \<times> 'v) list \<Rightarrow> ('k \<times> 'v) list" where
  "dict_store same k v [] = [(k, v)]"
| "dict_store same k v ((k', v') # kvs) =
     (if same k' then (k', v) # kvs else (k', v') # dict_store same k v kvs)"

text \<open>\<open>d.update(attr)\<close> on an attribute \<open>dict\<close>, the keyword arguments in their order.\<close>

definition attr_update :: "attrs \<Rightarrow> attrs \<Rightarrow> attrs" where
  "attr_update old attr = fold (\<lambda>(a, v). dict_store (\<lambda>a'. a' = a) a v) attr old"

definition none_node :: py_exception where
  "none_node = ValueError (ascii ''None cannot be a node'')"

definition add_node :: "json \<Rightarrow> attrs \<Rightarrow> digraph \<Rightarrow> py_exception + digraph" where
  "add_node n attr G =
     (if \<not> hashable n then Inl (unhashable n)
      else
        (case dict_lookup (py_eq n) (g_node G) of
           None \<Rightarrow>
             if n = JNull then Inl none_node
             else Inr (G\<lparr>g_node := g_node G @ [(n, attr_update [] attr, [])]\<rparr>)
         | Some (old, succ) \<Rightarrow>
             Inr (G\<lparr>g_node := dict_store (py_eq n) n (attr_update old attr, succ) (g_node G)\<rparr>)))"

text \<open>What \<open>add_edge\<close> does for each end point before it stores the edge.\<close>

definition ensure_node :: "json \<Rightarrow> digraph \<Rightarrow> py_exception + digraph" where
  "ensure_node n G =
     (if \<not> hashable n then Inl (unhashable n)
      else
        (case dict_lookup (py_eq n) (g_node G) of
           None \<Rightarrow> if n = JNull then Inl none_node else Inr (G\<lparr>g_node := g_node G @ [(n, [], [])]\<rparr>)
         | Some old \<Rightarrow> Inr G))"

text \<open>
  \<open>add_edge\<close>, after both end points are nodes:
  \<open>datadict = self._adj[u].get(v, {})\<close>, \<open>datadict.update(attr)\<close>,
  \<open>self._succ[u][v] = datadict\<close>. The edge is kept with the node that is equal to
  \<open>u\<close>, under the successor equal to \<open>v\<close> if that node has one, else under \<open>v\<close>.
  \<open>self._adj[u]\<close> finds its key, which was ensured just before; the \<open>KeyError\<close> of a
  \<open>dict\<close> without the key is written out and never raised.
\<close>

definition add_edge :: "json \<Rightarrow> json \<Rightarrow> attrs \<Rightarrow> digraph \<Rightarrow> py_exception + digraph" where
  "add_edge u v attr G =
     (case ensure_node u G of
        Inl e \<Rightarrow> Inl e
      | Inr G1 \<Rightarrow>
          (case ensure_node v G1 of
             Inl e \<Rightarrow> Inl e
           | Inr G2 \<Rightarrow>
               (case dict_lookup (py_eq u) (g_node G2) of
                  None \<Rightarrow> Inl (KeyError (type_name u))
                | Some (a, succ) \<Rightarrow>
                    (let datadict = (case dict_lookup (py_eq v) succ of None \<Rightarrow> [] | Some old \<Rightarrow> old)
                     in Inr (G2\<lparr>g_node := dict_store (py_eq u) u
                                             (a, dict_store (py_eq v) v (attr_update datadict attr) succ)
                                             (g_node G2)\<rparr>)))))"

section \<open>The AI gateway: \<open>ai_logic.py\<close>\<close>

subsection \<open>The environment\<close>

text \<open>
  What \<open>google.generativeai\<close> answers is the environment of the program. A call either
  returns or raises; a response is the nesting the code inspects:
  \<open>response.candidates[0].content.parts[0].text\<close>. The environment also holds two
  functions of Python that the program calls and this development does not define:
  \<open>json.loads\<close>, on the text the model returned, \<open>repr\<close> of a list or a dict
  inside an f-string, and the page that \<open>pyvis\<close> writes for a graph.
\<close>

datatype model_info = Model_Info (name: ustr) (supported_generation_methods: "ustr list")

datatype handle = Handle ustr

datatype part = Part (part_text: ustr)
datatype content = Content (parts: "part list")
datatype candidate = Candidate (content: "content option")
datatype response = Response (candidates: "candidate list")

record environment =
  list_models :: "py_exception + model_info list"
  GenerativeModel :: "ustr \<Rightarrow> py_exception + handle"
  generate_content :: "handle \<Rightarrow> ustr \<Rightarrow> json option \<Rightarrow> py_exception + response option"
  json_loads :: "ustr \<Rightarrow> py_exception + json"
  py_repr :: "json \<Rightarrow> ustr"
  pyvis_html :: "digraph \<Rightarrow> py_exception + ustr"

datatype api_call = List_Models | Generate_Content handle ustr "json option"

subsection \<open>State\<close>

text \<open>
  One record holds what outlives a call: the module global \<open>_gemini_model_instance\<close> of
  \<open>ai_logic.py\<close>, the keys of \<open>st.session_state\<close> that the program reads, writes or
  deletes (\<open>None\<close> when the key is absent), and the log of the calls made to the
  provider. What a function draws on the page is a list of elements that it returns.
\<close>

datatype ui_event =
    Subheader ustr
  | Header ustr
  | Markdown ustr
  | Info ustr
  | Error ustr
  | Warning ustr
  | Success ustr
  | Show_Exception py_exception
  | Iframe digraph ustr
  | Tabs "ustr list"
  | Columns nat
  | Download_Button ustr bytes string string string
  | Button ustr string

record state =
  gemini_model_instance :: "handle option"
  api_calls :: "api_call list"
  lineage_text_output :: "ustr option"
  structured_lineage_data :: "json option"
  etl_code_input :: "ustr option"
  lineage_result :: "ustr option"

subsection \<open>\<open>get_gemini_model\<close>\<close>

definition preferred_order :: "ustr list" where
  "preferred_order =
     [ascii ''models/gemini-1.5-flash'', ascii ''models/gemini-pro'', ascii ''models/gemini-1.5-pro'']"

definition available_models :: "model_info list \<Rightarrow> ustr list" where
  "available_models ms =
     map name (filter (\<lambda>m. ascii ''generateContent'' \<in> set (supported_generation_methods m)) ms)"

text \<open>
  The name chosen from the names available: the first preferred name that is available,
  else the first available name, else \<open>None\<close>.
\<close>

definition chosen_model_name :: "ustr list \<Rightarrow> ustr option" where
  "chosen_model_name av =
     (case find (\<lambda>preferred_model. preferred_model \<in> set av) preferred_order of
        Some preferred_model \<Rightarrow> Some preferred_model
      | None \<Rightarrow> (case av of [] \<Rightarrow> None | a # _ \<Rightarrow> Some a))"

definition init_failed :: "ustr \<Rightarrow> ustr" where
  "init_failed n =
     ascii ''Failed to initialize Gemini model '' @ [39] @ n @ [39] @
     ascii ''. Please check your API key and network access.''"

definition no_suitable_model :: ustr where
  "no_suitable_model =
     ascii ''No suitable Gemini model found that supports '' @ [39] @ ascii ''generateContent'' @ [39] @
     ascii ''. Please ensure your API key is correct and valid, or check Google AI Studio for available models.''"

definition get_gemini_model :: "environment \<Rightarrow> state \<Rightarrow> (py_exception + handle) \<times> state" where
  "get_gemini_model env s =
     (case gemini_model_instance s of
        Some h \<Rightarrow> (Inr h, s)
      | None \<Rightarrow>
          (let s1 = s\<lparr>api_calls := api_calls s @ [List_Models]\<rparr> in
           case list_models env of
             Inl e \<Rightarrow> (Inl e, s1)
           | Inr ms \<Rightarrow>
               (case chosen_model_name (available_models ms) of
                  None \<Rightarrow> (Inl (Exception no_suitable_model), s1)
                | Some n \<Rightarrow>
                    if n = [] then (Inl (Exception no_suitable_model), s1)
                    else (case GenerativeModel env n of
                            Inl e \<Rightarrow> (Inl (Exception (init_failed n)), s1)
                          | Inr h \<Rightarrow> (Inr h, s1\<lparr>gemini_model_instance := Some h\<rparr>)))))"

subsection \<open>\<open>ask_gemini_text\<close>\<close>

text \<open>
  The test both calls make on a response:
  \<open>response and response.candidates and len(response.candidates) > 0 and
  response.candidates[0].content and response.candidates[0].content.parts and
  len(response.candidates[0].content.parts) > 0\<close>, and then \<open>parts[0].text\<close>.
\<close>

definition first_part_text :: "response option \<Rightarrow> ustr option" where
  "first_part_text r =
     (case r of
        None \<Rightarrow> None
      | Some resp \<Rightarrow>
          (case candidates resp of
             [] \<Rightarrow> None
           | c # _ \<Rightarrow>
               (case content c of
                  None \<Rightarrow> None
                | Some ct \<Rightarrow> (case parts ct of [] \<Rightarrow> None | pt # _ \<Rightarrow> Some (part_text pt)))))"

definition text_service_error :: "py_exception \<Rightarrow> ustr" where
  "text_service_error e = [cross_mark] @ ascii '' AI Service Error: '' @ exc_str e"

definition text_no_prompt :: ustr where
  "text_no_prompt = [cross_mark] @ ascii '' Please provide a valid prompt for the AI to process.''"

definition text_invalid_response :: ustr where
  "text_invalid_response =
     [cross_mark] @ ascii '' AI did not return a valid text response. The AI might have refused the query or an internal error occurred. Please try again with different or simpler code.''"

definition text_blocked :: "ustr \<Rightarrow> ustr" where
  "text_blocked reason =
     [cross_mark] @ ascii '' AI Blocked Content: Your request for text generation was blocked due to safety policy. Details: '' @
     reason @ ascii ''.''"

definition possible_issues :: ustr where
  "possible_issues = ascii ''. Possible issues: network problem, rate limit, or invalid API key/model access.''"

definition text_call_failed :: "py_exception \<Rightarrow> ustr" where
  "text_call_failed e =
     [cross_mark] @ ascii '' Gemini Text API Call Failed: '' @ exc_str e @ possible_issues"

text \<open>
  What reading \<open>e.response\<close> raises inside a handler when the exception has no such
  attribute. An exception raised inside an \<open>except\<close> clause is not caught by the clauses
  of the same \<open>try\<close>: it leaves the function.
\<close>

definition no_response_attribute :: py_exception where
  "no_response_attribute =
     AttributeError ([39] @ ascii ''BlockedPromptException'' @ [39] @ ascii '' object has no attribute '' @
                     [39] @ ascii ''response'' @ [39])"

definition ask_gemini_text :: "environment \<Rightarrow> ustr \<Rightarrow> state \<Rightarrow> (py_exception + ustr) \<times> state" where
  "ask_gemini_text env prompt s =
     (case get_gemini_model env s of
        (Inl e, s1) \<Rightarrow> (Inr (text_service_error e), s1)
      | (Inr model_instance, s1) \<Rightarrow>
          if strip prompt = [] then (Inr text_no_prompt, s1)
          else
            (let s2 = s1\<lparr>api_calls := api_calls s1 @ [Generate_Content model_instance prompt None]\<rparr> in
             case generate_content env model_instance prompt None of
               Inl (BlockedPromptException (Some reason) m) \<Rightarrow> (Inr (text_blocked reason), s2)
             | Inl (BlockedPromptException None m) \<Rightarrow> (Inl no_response_attribute, s2)
             | Inl e \<Rightarrow> (Inr (text_call_failed e), s2)
             | Inr r \<Rightarrow>
                 (case first_part_text r of
                    Some t \<Rightarrow> (Inr t, s2)
                  | None \<Rightarrow> (Inr text_invalid_response, s2))))"

subsection \<open>\<open>ask_gemini_structured\<close>\<close>

definition error_dict :: "ustr \<Rightarrow> json" where
  "error_dict m = JObj [(ascii ''error'', JStr m)]"

definition structured_service_error :: "py_exception \<Rightarrow> ustr" where
  "structured_service_error e = [cross_mark] @ ascii '' AI Service Error (Structured): '' @ exc_str e"

definition structured_no_prompt :: ustr where
  "structured_no_prompt = [cross_mark] @ ascii '' Please provide a valid prompt for structured AI processing.''"

definition structured_no_schema :: ustr where
  "structured_no_schema = [cross_mark] @ ascii '' A response_schema is required for structured AI output.''"

definition structured_malformed :: "ustr \<Rightarrow> ustr \<Rightarrow> ustr" where
  "structured_malformed json_e json_text =
     [cross_mark] @ ascii '' AI returned malformed JSON: '' @ json_e @ ascii ''. Raw: '' @
     take 200 json_text @ ascii ''...''"

definition structured_invalid_response :: ustr where
  "structured_invalid_response =
     [cross_mark] @ ascii '' AI did not return a valid structured response. It might have refused the query or an internal error occurred.''"

definition structured_blocked :: "ustr \<Rightarrow> ustr" where
  "structured_blocked reason =
     [cross_mark] @ ascii '' AI Blocked Content (Structured): Your request for structured generation was blocked due to safety policy. Details: '' @
     reason @ ascii ''.''"

definition structured_call_failed :: "py_exception \<Rightarrow> ustr" where
  "structured_call_failed e =
     [cross_mark] @ ascii '' Gemini Structured API Call Failed: '' @ exc_str e @ possible_issues"

text \<open>
  The two handlers of the outer \<open>try\<close>, in the order of the source:
  \<open>except BlockedPromptException\<close>, whose f-string reads \<open>e.response\<close>, then
  \<open>except Exception\<close>. A handler returns a dict or raises.
\<close>

fun structured_handler :: "py_exception \<Rightarrow> py_exception + json" where
  "structured_handler (BlockedPromptException (Some reason) m) =
     Inr (error_dict (structured_blocked reason))"
| "structured_handler (BlockedPromptException None m) = Inl no_response_attribute"
| "structured_handler e = Inr (error_dict (structured_call_failed e))"

definition ask_gemini_structured ::
  "environment \<Rightarrow> ustr \<Rightarrow> json \<Rightarrow> state \<Rightarrow> (py_exception + json) \<times> state" where
  "ask_gemini_structured env prompt response_schema s =
     (case get_gemini_model env s of
        (Inl e, s1) \<Rightarrow> (Inr (error_dict (structured_service_error e)), s1)
      | (Inr model_instance, s1) \<Rightarrow>
          if strip prompt = [] then (Inr (error_dict structured_no_prompt), s1)
          else if \<not> truthy response_schema then (Inr (error_dict structured_no_schema), s1)
          else
            (let s2 = s1\<lparr>api_calls := api_calls s1 @
                         [Generate_Content model_instance prompt (Some response_schema)]\<rparr> in
             case generate_content env model_instance prompt (Some response_schema) of
               Inl e \<Rightarrow> (structured_handler e, s2)
             | Inr r \<Rightarrow>
                 (case first_part_text r of
                    Some json_text \<Rightarrow>
                      (case json_loads env json_text of
                         Inr parsed_json \<Rightarrow> (Inr parsed_json, s2)
                       | Inl (JSONDecodeError json_e) \<Rightarrow>
                           (Inr (error_dict (structured_malformed json_e json_text)), s2)
                       | Inl e \<Rightarrow> (structured_handler e, s2))
                  | None \<Rightarrow> (Inr (error_dict structured_invalid_response), s2))))"


section \<open>The graph view: \<open>lineage_visualizer.py\<close>\<close>

text \<open>
  \<open>str(v)\<close>, as an f-string formats a value: a string is itself, an integer its
  digits; a list or a dict is printed by \<open>repr\<close>.
\<close>

fun py_str :: "environment \<Rightarrow> json \<Rightarrow> ustr" where
  "py_str env JNull = ascii ''None''"
| "py_str env (JBool b) = (if b then ascii ''True'' else ascii ''False'')"
| "py_str env (JInt i) = dec_int i"
| "py_str env (JStr s) = s"
| "py_str env v = py_repr env v"

text \<open>
  \<open>for x in v\<close>: a list gives its items, a string its characters and a dict its keys;
  nothing else can be iterated.
\<close>

definition not_iterable :: "json \<Rightarrow> py_exception" where
  "not_iterable v = TypeError ([39] @ type_name v @ [39] @ ascii '' object is not iterable'')"

fun py_iter :: "json \<Rightarrow> py_exception + json list" where
  "py_iter (JArr xs) = Inr xs"
| "py_iter (JStr s) = Inr (map (\<lambda>c. JStr [c]) s)"
| "py_iter (JObj kvs) = Inr (map (\<lambda>kv. JStr (fst kv)) kvs)"
| "py_iter v = Inl (not_iterable v)"

text \<open>
  The body of the first loop: the node and the keyword arguments of \<open>G.add_node\<close>. The
  default title is the f-string \<open>f"ID: {node_id}\\nType: {group}"\<close>, whose \<open>\\n\<close> is a
  backslash and the letter n.
\<close>

definition default_title :: "environment \<Rightarrow> json \<Rightarrow> json \<Rightarrow> ustr" where
  "default_title env node_id grp =
     ascii ''ID: '' @ py_str env node_id @ [92] @ ascii ''nType: '' @ py_str env grp"

definition node_entry :: "environment \<Rightarrow> json \<Rightarrow> py_exception + json \<times> attrs" where
  "node_entry env node_data =
     (case py_get node_data (ascii ''id'') JNull of
        Inl e \<Rightarrow> Inl e
      | Inr node_id \<Rightarrow>
          (case py_get node_data (ascii ''label'') node_id of
             Inl e \<Rightarrow> Inl e
           | Inr label \<Rightarrow>
               (case py_get node_data (ascii ''group'') (JStr (ascii ''unknown'')) of
                  Inl e \<Rightarrow> Inl e
                | Inr grp \<Rightarrow>
                    (case py_get node_data (ascii ''title'') (JStr (default_title env node_id grp)) of
                       Inl e \<Rightarrow> Inl e
                     | Inr title_text \<Rightarrow>
                         Inr (node_id,
                              [(''label'', label), (''group'', grp),
                               (''title'', JStr (json_dumps None title_text))])))))"

text \<open>The body of the second loop: the end points and the keyword arguments of \<open>G.add_edge\<close>.\<close>

definition edge_entry :: "json \<Rightarrow> py_exception + json \<times> json \<times> attrs" where
  "edge_entry edge_data =
     (case py_get edge_data (ascii ''source'') JNull of
        Inl e \<Rightarrow> Inl e
      | Inr source \<Rightarrow>
          (case py_get edge_data (ascii ''target'') JNull of
             Inl e \<Rightarrow> Inl e
           | Inr target \<Rightarrow>
               (case py_get edge_data (ascii ''label'') (JStr []) of
                  Inl e \<Rightarrow> Inl e
                | Inr label \<Rightarrow>
                    (case py_get edge_data (ascii ''title'') label of
                       Inl e \<Rightarrow> Inl e
                     | Inr title_text \<Rightarrow>
                         Inr (source, target,
                              [(''title'', JStr (json_dumps None title_text)), (''label'', label)])))))"

fun add_nodes :: "environment \<Rightarrow> json list \<Rightarrow> digraph \<Rightarrow> py_exception + digraph" where
  "add_nodes env [] G = Inr G"
| "add_nodes env (node_data # rest) G =
     (case node_entry env node_data of
        Inl e \<Rightarrow> Inl e
      | Inr (node_id, attr) \<Rightarrow>
          (case add_node node_id attr G of
             Inl e \<Rightarrow> Inl e
           | Inr G' \<Rightarrow> add_nodes env rest G'))"

fun add_edges :: "json list \<Rightarrow> digraph \<Rightarrow> py_exception + digraph" where
  "add_edges [] G = Inr G"
| "add_edges (edge_data # rest) G =
     (case edge_entry edge_data of
        Inl e \<Rightarrow> Inl e
      | Inr (source, target, attr) \<Rightarrow>
          (case add_edge source target attr G of
             Inl e \<Rightarrow> Inl e
           | Inr G' \<Rightarrow> add_edges rest G'))"

text \<open>The graph \<open>G\<close> after both loops, or the exception that left the \<open>try\<close> block.\<close>

definition build_graph :: "environment \<Rightarrow> json \<Rightarrow> py_exception + digraph" where
  "build_graph env structured_data =
     (case py_get structured_data (ascii ''nodes'') (JArr []) of
        Inl e \<Rightarrow> Inl e
      | Inr nodes \<Rightarrow>
          (case py_iter nodes of
             Inl e \<Rightarrow> Inl e
           | Inr node_list \<Rightarrow>
               (case add_nodes env node_list empty_graph of
                  Inl e \<Rightarrow> Inl e
                | Inr G \<Rightarrow>
                    (case py_get structured_data (ascii ''edges'') (JArr []) of
                       Inl e \<Rightarrow> Inl e
                     | Inr edges \<Rightarrow>
                         (case py_iter edges of
                            Inl e \<Rightarrow> Inl e
                          | Inr edge_list \<Rightarrow> add_edges edge_list G)))))"

text \<open>The \<open>groups\<close> of the options given to \<open>pyvis\<close>: shape and colour per node group.\<close>

definition group_options :: "(string \<times> string \<times> string) list" where
  "group_options =
     [(''table'', ''box'', ''#58A6FF''),
      (''column'', ''dot'', ''#3FB950''),
      (''transformation'', ''diamond'', ''#DD9F1B''),
      (''unknown'', ''triangle'', ''#768390'')]"

definition graph_subheader :: ustr where
  "graph_subheader = [0x1F310] @ ascii '' Interactive Lineage Graph''"

definition no_graph_data :: ustr where
  "no_graph_data =
     ascii ''No structured lineage data available to generate the graph. Please generate the lineage report first.''"

definition graph_data_error :: "ustr \<Rightarrow> ustr" where
  "graph_data_error err = ascii ''Error generating graph data from AI: '' @ err"

definition graph_data_hint :: ustr where
  "graph_data_hint =
     ascii ''The AI might have struggled to produce valid structured lineage. Try simplifying your code or review the AI'' @
     [39] @ ascii ''s plain text explanation.''"

definition graph_render_error :: "py_exception \<Rightarrow> ustr" where
  "graph_render_error e = ascii ''Error rendering interactive graph: '' @ exc_str e"

definition graph_render_hint :: ustr where
  "graph_render_hint =
     ascii ''This might happen if the structured lineage data is malformed or graph library issues. Check console for details.''"

text \<open>
  \<open>render_lineage_graph\<close>: what it draws, and the exception that leaves it, if any. The
  two early returns stand before the \<open>try\<close>; everything raised inside it is caught,
  also what \<open>html_content.encode('utf-8')\<close> raises on the page that \<open>pyvis\<close>
  wrote. The frame is drawn with the graph and the page it shows.
\<close>

definition render_lineage_graph :: "environment \<Rightarrow> json \<Rightarrow> ui_event list \<times> py_exception option" where
  "render_lineage_graph env structured_data =
     (if \<not> truthy structured_data then ([Subheader graph_subheader, Info no_graph_data], None)
      else
        (case py_get structured_data (ascii ''nodes'') JNull of
           Inl e \<Rightarrow> ([Subheader graph_subheader], Some e)
         | Inr nodes \<Rightarrow>
             if nodes = JNull then ([Subheader graph_subheader, Info no_graph_data], None)
             else
               (case py_get structured_data (ascii ''error'') JNull of
                  Inl e \<Rightarrow> ([Subheader graph_subheader], Some e)
                | Inr err \<Rightarrow>
                    if truthy err then
                      ([Subheader graph_subheader, Error (graph_data_error (py_str env err)),
                        Info graph_data_hint], None)
                    else
                      (case build_graph env structured_data of
                         Inl e \<Rightarrow>
                           ([Subheader graph_subheader, Error (graph_render_error e),
                             Info graph_render_hint, Show_Exception e], None)
                       | Inr G \<Rightarrow>
                           (case pyvis_html env G of
                              Inl e \<Rightarrow>
                                ([Subheader graph_subheader, Error (graph_render_error e),
                                  Info graph_render_hint, Show_Exception e], None)
                            | Inr html_content \<Rightarrow>
                                (case encode_utf8 html_content of
                                   Inl e \<Rightarrow>
                                     ([Subheader graph_subheader, Error (graph_render_error e),
                                       Info graph_render_hint, Show_Exception e], None)
                                 | Inr html_bytes \<Rightarrow>
                                     ([Subheader graph_subheader, Iframe G html_content], None)))))))"

section \<open>Downloads and the clear button: \<open>additional_features.py\<close>\<close>

definition download_subheader :: ustr where
  "download_subheader = [0x1F4BE] @ ascii '' Download Lineage Report''"

definition download_markdown_label :: ustr where
  "download_markdown_label = [0x2B07, 0xFE0F] @ ascii '' Download Markdown Report''"

definition download_json_label :: ustr where
  "download_json_label = [0x2B07, 0xFE0F] @ ascii '' Download Structured JSON''"

definition download_info :: ustr where
  "download_info = ascii ''Generate lineage data first to enable download options.''"

text \<open>
  A download button is drawn with its label, its data, the file name, the MIME type and the
  widget key. The data are bytes: \<open>lineage_text_report.encode('utf-8')\<close> and
  \<open>json.dumps(lineage_data_structured, indent=2).encode('utf-8')\<close>. Either
  \<open>encode\<close> raises before its button is drawn, and nothing in the function catches it:
  the function returns what it drew and the exception that left it, if any.
\<close>

definition render_download_section :: "json \<Rightarrow> ustr \<Rightarrow> ui_event list \<times> py_exception option" where
  "render_download_section lineage_data_structured lineage_text_report =
     (if truthy lineage_data_structured \<and> lineage_text_report \<noteq> [] then
        (case encode_utf8 lineage_text_report of
           Inl e \<Rightarrow> ([Subheader download_subheader, Columns 2], Some e)
         | Inr markdown_data \<Rightarrow>
             (case encode_utf8 (json_dumps (Some 2) lineage_data_structured) of
                Inl e \<Rightarrow>
                  ([Subheader download_subheader, Columns 2,
                    Download_Button download_markdown_label markdown_data
                      ''data_lineage_report.md'' ''text/markdown'' ''download_md_report''], Some e)
              | Inr json_data \<Rightarrow>
                  ([Subheader download_subheader, Columns 2,
                    Download_Button download_markdown_label markdown_data
                      ''data_lineage_report.md'' ''text/markdown'' ''download_md_report'',
                    Download_Button download_json_label json_data
                      ''data_lineage_structured.json'' ''application/json'' ''download_json_report''],
                   None)))
      else ([Subheader download_subheader, Info download_info], None))"

definition clear_label :: ustr where
  "clear_label = [0x1F504] @ ascii '' Clear All Inputs & Results''"

text \<open>
  \<open>render_clear_button\<close>, given whether the button was clicked: the elements drawn,
  whether \<open>st.rerun()\<close> was called, and the session state it leaves.
\<close>

definition render_clear_button :: "bool \<Rightarrow> state \<Rightarrow> ui_event list \<times> bool \<times> state" where
  "render_clear_button clicked s =
     ([Markdown (ascii ''---''), Button clear_label ''clear_all_button''],
      if clicked then
        (True, s\<lparr>etl_code_input := None, lineage_result := None, structured_lineage_data := None\<rparr>)
      else (False, s))"

section \<open>The text report: \<open>features.py\<close>\<close>

definition output_subheader :: ustr where
  "output_subheader = [0x1F4CA] @ ascii '' Mapped Data Lineage''"

definition lineage_display_box :: "ustr \<Rightarrow> ustr" where
  "lineage_display_box t =
     ascii ''<div class='' @ [39] @ ascii ''lineage-display-box'' @ [39] @ ascii ''>'' @ t @ ascii ''</div>''"

definition mapping_complete :: ustr where
  "mapping_complete = ascii ''Lineage mapping complete! '' @ [0x1F389] @ ascii '' Your data flow insights are ready.''"

definition mapping_failed :: "ustr \<Rightarrow> ustr" where
  "mapping_failed t = ascii ''Failed to generate lineage map: '' @ t"

definition mapping_failed_hint :: ustr where
  "mapping_failed_hint =
     ascii ''Please ensure your API key is correctly configured and the input code is valid. If the issue persists, try simplifying the code snippet.''"

definition nothing_mapped_yet :: ustr where
  "nothing_mapped_yet =
     ascii ''No lineage map generated yet. Paste your ETL code/SQL and click '' @ [39] @
     ascii ''Map Data Lineage'' @ [39] @ ascii '' to see results.''"

definition render_lineage_output :: "ustr \<Rightarrow> ui_event list" where
  "render_lineage_output lineage_text_out =
     Subheader output_subheader #
     (if lineage_text_out \<noteq> [] \<and> \<not> prefix [cross_mark] lineage_text_out then
        [Markdown (lineage_display_box lineage_text_out), Success mapping_complete]
      else if prefix [cross_mark] lineage_text_out then
        [Error (mapping_failed lineage_text_out), Info mapping_failed_hint]
      else [Info nothing_mapped_yet])"

section \<open>The page: \<open>main.py\<close>\<close>

subsection \<open>The API key\<close>

definition placeholder_key :: ustr where
  "placeholder_key = ascii ''YOUR_ACTUAL_GEMINI_API_KEY_HERE''"

definition key_not_found :: ustr where
  "key_not_found =
     [cross_mark] @ ascii '' GEMINI_API_KEY not found or is the placeholder value in your .env file. Please set it correctly to use AI features. Refer to the README for setup instructions.''"

text \<open>
  The module level of \<open>ai_logic.py\<close>, run when \<open>main.py\<close> imports it (its line 9):
  \<open>os.getenv\<close> gives \<open>None\<close> for a variable that is not set.
\<close>

definition import_ai_logic :: "ustr option \<Rightarrow> py_exception + unit" where
  "import_ai_logic GOOGLE_API_KEY =
     (if GOOGLE_API_KEY = None \<or> GOOGLE_API_KEY = Some [] \<or> GOOGLE_API_KEY = Some placeholder_key
      then Inl (RuntimeError key_not_found)
      else Inr ())"

definition api_key_set :: "ustr option \<Rightarrow> bool" where
  "api_key_set GEMINI_API_KEY \<longleftrightarrow> GEMINI_API_KEY \<noteq> None \<and> GEMINI_API_KEY \<noteq> Some placeholder_key"

definition key_warning :: ustr where
  "key_warning =
     [0x1F6A8] @ ascii '' **Google Gemini API Key** not found or is the placeholder! AI features will not work.''"

definition key_info :: ustr where
  "key_info =
     [0x1F4A1] @ ascii '' Please set your `GEMINI_API_KEY` in a `.env` file in your project root (`GEMINI_API_KEY='' @
     [34] @ ascii ''YOUR_API_KEY'' @ [34] @ ascii ''`) or as an environment variable.''"

subsection \<open>The two prompts\<close>

text \<open>
  Each prompt is an f-string around the pasted code: the text before it and the text after
  it, line by line as \<open>main.py\<close> has them.
\<close>

definition text_prompt_head :: ustr where
  "text_prompt_head = concat
     [[10],
      ascii ''            As an expert Data Engineer, your task is to analyze the provided ETL code or SQL script.'' @ [10],
      ascii ''            Identify and extract **column-level data lineage**, describing the flow of data from its sources through transformations to its final targets.'' @ [10],
      [10],
      ascii ''            For each target table and column, provide a concise narrative or flow description of how the data for that column is derived.'' @ [10],
      ascii ''            Clearly mention the source columns and the transformations applied.'' @ [10],
      [10],
      ascii ''            Structure the report as follows in Markdown:'' @ [10],
      [10],
      ascii ''            ## Data Flow Summary'' @ [10],
      ascii ''            [A brief, high-level summary of the overall data movement and purpose of the script.]'' @ [10],
      [10],
      ascii ''            ## Detailed Column-Level Lineage'' @ [10],
      [10],
      ascii ''            ### Target Table: `[Target Table Name]`'' @ [10],
      ascii ''            * **`[Target Column Name 1]`**: Derived from `[Source Table.Column(s)]` using transformation `[Description of Transformation]`.'' @ [10],
      ascii ''                * Example: **`fact_sales.total_amount`**: Derived from `staging.sales.units` and `raw_data.products.price` by multiplying `units` by `price` after an inner join, then aggregated by `SUM()`.'' @ [10],
      ascii ''            * **`[Target Column Name 2]`**: Directly mapped from `[Source Table.Column]`.'' @ [10],
      ascii ''                * Example: **`fact_sales.sale_id`**: Directly mapped from `staging.sales.id`.'' @ [10],
      ascii ''            * ...'' @ [10],
      [10],
      ascii ''            ### Target Table: `[Another Target Table Name]`'' @ [10],
      ascii ''            * ...'' @ [10],
      [10],
      ascii ''            ## Key Dependencies and Transformations'' @ [10],
      ascii ''            [A brief narrative summarizing common joins, filtering, or complex transformations that are critical to the data flow.]'' @ [10],
      [10],
      ascii ''            ## Transformation Summary'' @ [10],
      ascii ''            List all distinct types of transformations detected in the ETL code (e.g., `JOIN`, `SUM()`, `CAST`, `CASE WHEN`, `GROUP BY`, `LAG`, `COALESCE`, `FILTER`, `SELECT`, `MERGE`, `UNION`).'' @ [10],
      [10],
      ascii ''            ---'' @ [10],
      [10],
      ascii ''            If you cannot extract lineage, state '' @ [34, 0x274c] @ ascii '' Lineage extraction failed: [Reason]'' @ [34] @ ascii ''.'' @ [10],
      ascii ''            '' @ [10],
      ascii ''            **ETL Code/SQL Script:**'' @ [10],
      ascii ''            ```'' @ [10],
      ascii ''            '']"

definition text_prompt_tail :: ustr where
  "text_prompt_tail = concat
     [[10],
      ascii ''            ```'' @ [10],
      ascii ''            '']"

definition structured_prompt_head :: ustr where
  "structured_prompt_head = concat
     [[10],
      ascii ''            As an expert Data Engineer, your task is to analyze the provided ETL code or SQL script and extract **column-level data lineage** in a structured JSON format suitable for a graph database or visualization.'' @ [10],
      [10],
      ascii ''            Represent each table and column as a **node**.'' @ [10],
      ascii ''            Represent lineage relationships (data flow) and transformations as **edges**.'' @ [10],
      [10],
      ascii ''            Node Types (groups):'' @ [10],
      ascii ''            - `table`: Represents a database table.'' @ [10],
      ascii ''            - `column`: Represents a column within a table.'' @ [10],
      ascii ''            - `transformation`: Represents a data transformation operation.'' @ [10],
      [10],
      ascii ''            Edge Types (labels):'' @ [10],
      ascii ''            - `FLOWS_TO`: From source column to target column.'' @ [10],
      ascii ''            - `PRODUCES`: From transformation node to target column.'' @ [10],
      ascii ''            - `CONSUMES`: From source column to transformation node.'' @ [10],
      ascii ''            - `IS_PART_OF`: From column node to table node.'' @ [10],
      [10],
      ascii ''            For each edge representing a `FLOWS_TO`, `PRODUCES`, or `CONSUMES` relationship, also provide a `confidence_score` (integer, from 1 to 5) indicating your certainty that the lineage or transformation step is correctly identified.'' @ [10],
      ascii ''            - 5: Highly confident, directly mapped or clearly defined transformation.'' @ [10],
      ascii ''            - 4: Confident, clear transformation but might involve implicit logic.'' @ [10],
      ascii ''            - 3: Moderately confident, inferred transformation, minor ambiguities possible.'' @ [10],
      ascii ''            - 2: Low confidence, heavily inferred, significant ambiguities or complex logic.'' @ [10],
      ascii ''            - 1: Very low confidence, highly ambiguous or speculative mapping.'' @ [10],
      [10],
      ascii ''            Provide the output as a JSON object with two main arrays: `nodes` and `edges`.'' @ [10],
      [10],
      ascii ''            **Node Object Structure:**'' @ [10],
      ascii ''            `{ '' @ [34] @ ascii ''id'' @ [34] @ ascii '': '' @ [34] @ ascii ''unique_id_string'' @ [34] @ ascii '', '' @ [34] @ ascii ''label'' @ [34] @ ascii '': '' @ [34] @ ascii ''display_name'' @ [34] @ ascii '', '' @ [34] @ ascii ''group'' @ [34] @ ascii '': '' @ [34] @ ascii ''table'' @ [34] @ ascii '' | '' @ [34] @ ascii ''column'' @ [34] @ ascii '' | '' @ [34] @ ascii ''transformation'' @ [34] @ ascii '', '' @ [34] @ ascii ''title'' @ [34] @ ascii '': '' @ [34] @ ascii ''tooltip_text'' @ [34] @ ascii '' }`'' @ [10],
      ascii ''            - `id`: A unique identifier (e.g., `schema.table.column`, `table_name`, `transform_hash`).'' @ [10],
      ascii ''            - `label`: Display name (e.g., `column_name`, `table_name`, `SUM_transform`).'' @ [10],
      ascii ''            - `group`: Categorization for styling (e.g., `table`, `column`, `transformation`).'' @ [10],
      ascii ''            - `title`: Optional detailed tooltip for the node.'' @ [10],
      [10],
      ascii ''            **Edge Object Structure:**'' @ [10],
      ascii ''            `{ '' @ [34] @ ascii ''source'' @ [34] @ ascii '': '' @ [34] @ ascii ''source_node_id'' @ [34] @ ascii '', '' @ [34] @ ascii ''target'' @ [34] @ ascii '': '' @ [34] @ ascii ''target_node_id'' @ [34] @ ascii '', '' @ [34] @ ascii ''label'' @ [34] @ ascii '': '' @ [34] @ ascii ''edge_type'' @ [34] @ ascii '', '' @ [34] @ ascii ''title'' @ [34] @ ascii '': '' @ [34] @ ascii ''tooltip_text_for_edge'' @ [34] @ ascii '', '' @ [34] @ ascii ''confidence_score'' @ [34] @ ascii '': 1-5 (optional for IS_PART_OF) }`'' @ [10],
      ascii ''            - `source`: ID of the source node.'' @ [10],
      ascii ''            - `target`: ID of the target node.'' @ [10],
      ascii ''            - `label`: Type of relationship (e.g., `FLOWS_TO`, `PRODUCES`, `CONSUMES`, `IS_PART_OF`).'' @ [10],
      ascii ''            - `title`: Optional detailed tooltip for the edge (e.g., `Transformation: SUM(amount)`).'' @ [10],
      ascii ''            - `confidence_score`: (integer, 1-5) Confidence in this specific lineage connection. Only for `FLOWS_TO`, `PRODUCES`, `CONSUMES` edges.'' @ [10],
      [10],
      ascii ''            **Example Structure for JSON Output (with confidence_score):**'' @ [10],
      ascii ''            ```json'' @ [10],
      ascii ''            {'' @ [10],
      ascii ''                '' @ [34] @ ascii ''nodes'' @ [34] @ ascii '': ['' @ [10],
      ascii ''                    {'' @ [34] @ ascii ''id'' @ [34] @ ascii '': '' @ [34] @ ascii ''raw.transactions'' @ [34] @ ascii '', '' @ [34] @ ascii ''label'' @ [34] @ ascii '': '' @ [34] @ ascii ''transactions'' @ [34] @ ascii '', '' @ [34] @ ascii ''group'' @ [34] @ ascii '': '' @ [34] @ ascii ''table'' @ [34] @ ascii ''},'' @ [10],
      ascii ''                    {'' @ [34] @ ascii ''id'' @ [34] @ ascii '': '' @ [34] @ ascii ''raw.transactions.transaction_timestamp'' @ [34] @ ascii '', '' @ [34] @ ascii ''label'' @ [34] @ ascii '': '' @ [34] @ ascii ''transaction_timestamp'' @ [34] @ ascii '', '' @ [34] @ ascii ''group'' @ [34] @ ascii '': '' @ [34] @ ascii ''column'' @ [34] @ ascii '', '' @ [34] @ ascii ''title'' @ [34] @ ascii '': '' @ [34] @ ascii ''Source Column'' @ [34] @ ascii ''},'' @ [10],
      ascii ''                    {'' @ [34] @ ascii ''id'' @ [34] @ ascii '': '' @ [34] @ ascii ''analytics.daily_product_sales'' @ [34] @ ascii '', '' @ [34] @ ascii ''label'' @ [34] @ ascii '': '' @ [34] @ ascii ''daily_product_sales'' @ [34] @ ascii '', '' @ [34] @ ascii ''group'' @ [34] @ ascii '': '' @ [34] @ ascii ''table'' @ [34] @ ascii ''},'' @ [10],
      ascii ''                    {'' @ [34] @ ascii ''id'' @ [34] @ ascii '': '' @ [34] @ ascii ''analytics.daily_product_sales.sale_date'' @ [34] @ ascii '', '' @ [34] @ ascii ''label'' @ [34] @ ascii '': '' @ [34] @ ascii ''sale_date'' @ [34] @ ascii '', '' @ [34] @ ascii ''group'' @ [34] @ ascii '': '' @ [34] @ ascii ''column'' @ [34] @ ascii '', '' @ [34] @ ascii ''title'' @ [34] @ ascii '': '' @ [34] @ ascii ''Target Column'' @ [34] @ ascii ''},'' @ [10],
      ascii ''                    {'' @ [34] @ ascii ''id'' @ [34] @ ascii '': '' @ [34] @ ascii ''transform_date_trunc'' @ [34] @ ascii '', '' @ [34] @ ascii ''label'' @ [34] @ ascii '': '' @ [34] @ ascii ''DATE_TRUNC'' @ [34] @ ascii '', '' @ [34] @ ascii ''group'' @ [34] @ ascii '': '' @ [34] @ ascii ''transformation'' @ [34] @ ascii '', '' @ [34] @ ascii ''title'' @ [34] @ ascii '': '' @ [34] @ ascii ''Transformation: Extract Month'' @ [34] @ ascii ''},'' @ [10],
      ascii ''                    {'' @ [34] @ ascii ''id'' @ [34] @ ascii '': '' @ [34] @ ascii ''raw.transactions.quantity'' @ [34] @ ascii '', '' @ [34] @ ascii ''label'' @ [34] @ ascii '': '' @ [34] @ ascii ''quantity'' @ [34] @ ascii '', '' @ [34] @ ascii ''group'' @ [34] @ ascii '': '' @ [34] @ ascii ''column'' @ [34] @ ascii ''},'' @ [10],
      ascii ''                    {'' @ [34] @ ascii ''id'' @ [34] @ ascii '': '' @ [34] @ ascii ''ref.products.unit_price'' @ [34] @ ascii '', '' @ [34] @ ascii ''label'' @ [34] @ ascii '': '' @ [34] @ ascii ''unit_price'' @ [34] @ ascii '', '' @ [34] @ ascii ''group'' @ [34] @ ascii '': '' @ [34] @ ascii ''column'' @ [34] @ ascii ''},'' @ [10],
      ascii ''                    {'' @ [34] @ ascii ''id'' @ [34] @ ascii '': '' @ [34] @ ascii ''transform_gross_revenue'' @ [34] @ ascii '', '' @ [34] @ ascii ''label'' @ [34] @ ascii '': '' @ [34] @ ascii ''SUM(quantity * unit_price)'' @ [34] @ ascii '', '' @ [34] @ ascii ''group'' @ [34] @ ascii '': '' @ [34] @ ascii ''transformation'' @ [34] @ ascii ''},'' @ [10],
      ascii ''                    {'' @ [34] @ ascii ''id'' @ [34] @ ascii '': '' @ [34] @ ascii ''analytics.daily_product_sales.gross_revenue'' @ [34] @ ascii '', '' @ [34] @ ascii ''label'' @ [34] @ ascii '': '' @ [34] @ ascii ''gross_revenue'' @ [34] @ ascii '', '' @ [34] @ ascii ''group'' @ [34] @ ascii '': '' @ [34] @ ascii ''column'' @ [34] @ ascii ''}'' @ [10],
      ascii ''                ],'' @ [10],
      ascii ''                '' @ [34] @ ascii ''edges'' @ [34] @ ascii '': ['' @ [10],
      ascii ''                    {'' @ [34] @ ascii ''source'' @ [34] @ ascii '': '' @ [34] @ ascii ''raw.transactions.transaction_timestamp'' @ [34] @ ascii '', '' @ [34] @ ascii ''target'' @ [34] @ ascii '': '' @ [34] @ ascii ''transform_date_trunc'' @ [34] @ ascii '', '' @ [34] @ ascii ''label'' @ [34] @ ascii '': '' @ [34] @ ascii ''CONSUMES'' @ [34] @ ascii '', '' @ [34] @ ascii ''title'' @ [34] @ ascii '': '' @ [34] @ ascii ''Input for DATE_TRUNC'' @ [34] @ ascii '', '' @ [34] @ ascii ''confidence_score'' @ [34] @ ascii '': 5},'' @ [10],
      ascii ''                    {'' @ [34] @ ascii ''source'' @ [34] @ ascii '': '' @ [34] @ ascii ''transform_date_trunc'' @ [34] @ ascii '', '' @ [34] @ ascii ''target'' @ [34] @ ascii '': '' @ [34] @ ascii ''analytics.daily_product_sales.sale_date'' @ [34] @ ascii '', '' @ [34] @ ascii ''label'' @ [34] @ ascii '': '' @ [34] @ ascii ''PRODUCES'' @ [34] @ ascii '', '' @ [34] @ ascii ''title'' @ [34] @ ascii '': '' @ [34] @ ascii ''Result of DATE_TRUNC'' @ [34] @ ascii '', '' @ [34] @ ascii ''confidence_score'' @ [34] @ ascii '': 5},'' @ [10],
      ascii ''                    {'' @ [34] @ ascii ''source'' @ [34] @ ascii '': '' @ [34] @ ascii ''raw.transactions.quantity'' @ [34] @ ascii '', '' @ [34] @ ascii ''target'' @ [34] @ ascii '': '' @ [34] @ ascii ''transform_gross_revenue'' @ [34] @ ascii '', '' @ [34] @ ascii ''label'' @ [34] @ ascii '': '' @ [34] @ ascii ''CONSUMES'' @ [34] @ ascii '', '' @ [34] @ ascii ''confidence_score'' @ [34] @ ascii '': 4},'' @ [10],
      ascii ''                    {'' @ [34] @ ascii ''source'' @ [34] @ ascii '': '' @ [34] @ ascii ''ref.products.unit_price'' @ [34] @ ascii '', '' @ [34] @ ascii ''target'' @ [34] @ ascii '': '' @ [34] @ ascii ''transform_gross_revenue'' @ [34] @ ascii '', '' @ [34] @ ascii ''label'' @ [34] @ ascii '': '' @ [34] @ ascii ''CONSUMES'' @ [34] @ ascii '', '' @ [34] @ ascii ''confidence_score'' @ [34] @ ascii '': 4},'' @ [10],
      ascii ''                    {'' @ [34] @ ascii ''source'' @ [34] @ ascii '': '' @ [34] @ ascii ''transform_gross_revenue'' @ [34] @ ascii '', '' @ [34] @ ascii ''target'' @ [34] @ ascii '': '' @ [34] @ ascii ''analytics.daily_product_sales.gross_revenue'' @ [34] @ ascii '', '' @ [34] @ ascii ''label'' @ [34] @ ascii '': '' @ [34] @ ascii ''PRODUCES'' @ [34] @ ascii '', '' @ [34] @ ascii ''title'' @ [34] @ ascii '': '' @ [34] @ ascii ''Result of SUM(quantity * unit_price)'' @ [34] @ ascii '', '' @ [34] @ ascii ''confidence_score'' @ [34] @ ascii '': 4},'' @ [10],
      ascii ''                    {'' @ [34] @ ascii ''source'' @ [34] @ ascii '': '' @ [34] @ ascii ''raw.transactions.transaction_timestamp'' @ [34] @ ascii '', '' @ [34] @ ascii ''target'' @ [34] @ ascii '': '' @ [34] @ ascii ''raw.transactions'' @ [34] @ ascii '', '' @ [34] @ ascii ''label'' @ [34] @ ascii '': '' @ [34] @ ascii ''IS_PART_OF'' @ [34] @ ascii ''},'' @ [10],
      ascii ''                    {'' @ [34] @ ascii ''source'' @ [34] @ ascii '': '' @ [34] @ ascii ''analytics.daily_product_sales.sale_date'' @ [34] @ ascii '', '' @ [34] @ ascii ''target'' @ [34] @ ascii '': '' @ [34] @ ascii ''analytics.daily_product_sales'' @ [34] @ ascii '', '' @ [34] @ ascii ''label'' @ [34] @ ascii '': '' @ [34] @ ascii ''IS_PART_OF'' @ [34] @ ascii ''}'' @ [10],
      ascii ''                ]'' @ [10],
      ascii ''            }'' @ [10],
      ascii ''            ```'' @ [10],
      [10],
      ascii ''            **ETL Code/SQL Script to Analyze:**'' @ [10],
      ascii ''            ```'' @ [10],
      ascii ''            '']"

definition structured_prompt_tail :: ustr where
  "structured_prompt_tail = concat
     [[10],
      ascii ''            ```'' @ [10],
      [10],
      ascii ''            Please ensure your response is *only* the JSON object defined by the schema, with no additional text or markdown outside the JSON.'' @ [10],
      ascii ''            If lineage cannot be extracted, return: `{ '' @ [34] @ ascii ''nodes'' @ [34] @ ascii '': [], '' @ [34] @ ascii ''edges'' @ [34] @ ascii '': [], '' @ [34] @ ascii ''error'' @ [34] @ ascii '': '' @ [34] @ ascii ''Could not extract lineage.'' @ [34] @ ascii '' }`'' @ [10],
      ascii ''            '']"

definition text_prompt :: "ustr \<Rightarrow> ustr" where
  "text_prompt current_etl_code_input = text_prompt_head @ current_etl_code_input @ text_prompt_tail"

definition structured_prompt :: "ustr \<Rightarrow> ustr" where
  "structured_prompt current_etl_code_input =
     structured_prompt_head @ current_etl_code_input @ structured_prompt_tail"

subsection \<open>The response schema\<close>

definition jstr :: "string \<Rightarrow> json" where
  "jstr s = JStr (ascii s)"

definition jobj :: "(string \<times> json) list \<Rightarrow> json" where
  "jobj kvs = JObj (map (\<lambda>kv. (ascii (fst kv), snd kv)) kvs)"

definition response_schema :: json where
  "response_schema =
     jobj [(''type'', jstr ''object''),
           (''properties'',
            jobj [(''nodes'',
                   jobj [(''type'', jstr ''array''),
                         (''items'',
                          jobj [(''type'', jstr ''object''),
                                (''properties'',
                                 jobj [(''id'', jobj [(''type'', jstr ''string'')]),
                                       (''label'', jobj [(''type'', jstr ''string'')]),
                                       (''group'',
                                        jobj [(''type'', jstr ''string''),
                                              (''enum'', JArr [jstr ''table'', jstr ''column'',
                                                              jstr ''transformation''])]),
                                       (''title'', jobj [(''type'', jstr ''string'')])]),
                                (''required'', JArr [jstr ''id'', jstr ''label'', jstr ''group''])])]),
                  (''edges'',
                   jobj [(''type'', jstr ''array''),
                         (''items'',
                          jobj [(''type'', jstr ''object''),
                                (''properties'',
                                 jobj [(''source'', jobj [(''type'', jstr ''string'')]),
                                       (''target'', jobj [(''type'', jstr ''string'')]),
                                       (''label'',
                                        jobj [(''type'', jstr ''string''),
                                              (''enum'', JArr [jstr ''FLOWS_TO'', jstr ''PRODUCES'',
                                                              jstr ''CONSUMES'', jstr ''IS_PART_OF''])]),
                                       (''title'', jobj [(''type'', jstr ''string'')]),
                                       (''confidence_score'', jobj [(''type'', jstr ''integer'')])]),
                                (''required'', JArr [jstr ''source'', jstr ''target'', jstr ''label''])])]),
                  (''error'', jobj [(''type'', jstr ''string'')])]),
           (''required'', JArr [jstr ''nodes'', jstr ''edges''])]"

subsection \<open>The button \<open>Map Data Lineage\<close>\<close>

definition paste_some_code :: ustr where
  "paste_some_code = ascii ''Please paste some ETL code or SQL script to analyze.''"

definition graph_generation_issue :: "ustr \<Rightarrow> ustr" where
  "graph_generation_issue err =
     [10, 10] @ ascii ''---'' @ [10, 10, cross_mark] @ ascii '' **Graph Generation Issue:** '' @ err @
     [10, 10] @ ascii ''The AI struggled to provide data for the interactive graph. '' @
     ascii ''Please review the text report and consider simplifying the input for graph generation.''"

text \<open>
  The body of \<open>if st.button(...)\<close>: what it draws, the exception that leaves it, if any,
  and the state after it.
\<close>

definition map_lineage_button ::
  "environment \<Rightarrow> ustr \<Rightarrow> state \<Rightarrow> (ui_event list \<times> py_exception option) \<times> state" where
  "map_lineage_button env current_etl_code_input s =
     (if strip current_etl_code_input \<noteq> [] then
        (let s1 = s\<lparr>lineage_text_output := Some [], structured_lineage_data := Some (JObj [])\<rparr> in
         case ask_gemini_text env (text_prompt current_etl_code_input) s1 of
           (Inl e, s2) \<Rightarrow> (([], Some e), s2)
         | (Inr report, s2) \<Rightarrow>
             (let s3 = s2\<lparr>lineage_text_output := Some report\<rparr> in
              case ask_gemini_structured env (structured_prompt current_etl_code_input)
                     response_schema s3 of
                (Inl e, s4) \<Rightarrow> (([], Some e), s4)
              | (Inr data, s4) \<Rightarrow>
                  (let s5 = s4\<lparr>structured_lineage_data := Some data\<rparr> in
                   case py_get data (ascii ''error'') JNull of
                     Inl e \<Rightarrow> (([], Some e), s5)
                   | Inr err \<Rightarrow>
                       if truthy err then
                         (([], None),
                          s5\<lparr>lineage_text_output :=
                                Some (report @ graph_generation_issue (py_str env err))\<rparr>)
                       else (([], None), s5))))
      else (([Warning paste_some_code], None), s))"

subsection \<open>One run of the script\<close>

text \<open>
  Streamlit runs \<open>main.py\<close> from the top on every interaction. A run ends at the last
  line, at \<open>st.stop()\<close>, at \<open>st.rerun()\<close>, or with an exception nobody caught. The
  widgets of a run are the two buttons (clicked or not) and the text of the code editor.
  The calls that only decorate the page (page configuration, style sheet, title, the
  theme toggle, the welcome text, the footer) are left out.
\<close>

datatype script_end = Completed | Stopped | Rerun | Uncaught py_exception

record widgets =
  map_lineage_clicked :: bool
  clear_all_clicked :: bool
  current_etl_code_input :: ustr

definition init_session_state :: "state \<Rightarrow> state" where
  "init_session_state s =
     (let s1 = (if lineage_text_output s = None then s\<lparr>lineage_text_output := Some []\<rparr> else s)
      in if structured_lineage_data s1 = None then s1\<lparr>structured_lineage_data := Some (JObj [])\<rparr>
         else s1)"

definition key_error :: "string \<Rightarrow> py_exception" where
  "key_error k = KeyError ([39] @ ascii k @ [39])"

definition report_tab :: ustr where
  "report_tab = [0x1F4C4] @ ascii '' Text Report''"

definition graph_tab :: ustr where
  "graph_tab = [0x1F310] @ ascii '' Graph View''"

text \<open>The output section, from \<open>if st.session_state['lineage_text_output'] or ...\<close> on.\<close>

definition output_section ::
  "environment \<Rightarrow> bool \<Rightarrow> state \<Rightarrow> script_end \<times> ui_event list \<times> state" where
  "output_section env clear_clicked s =
     (case lineage_text_output s of
        None \<Rightarrow> (Uncaught (key_error ''lineage_text_output''), [], s)
      | Some report \<Rightarrow>
          (case structured_lineage_data s of
             None \<Rightarrow>
               if report \<noteq> [] then (Uncaught (key_error ''structured_lineage_data''),
                                       [Markdown (ascii ''---''), Header (ascii ''Mapped Data Lineage''),
                                        Tabs [report_tab, graph_tab]] @ render_lineage_output report, s)
               else (Uncaught (key_error ''structured_lineage_data''), [], s)
           | Some data \<Rightarrow>
               if report \<noteq> [] \<or> truthy data then
                 (let ui1 = [Markdown (ascii ''---''), Header (ascii ''Mapped Data Lineage''),
                             Tabs [report_tab, graph_tab]] @ render_lineage_output report
                  in case render_lineage_graph env data of
                       (ui2, Some e) \<Rightarrow> (Uncaught e, ui1 @ ui2, s)
                     | (ui2, None) \<Rightarrow>
                         (case render_download_section data report of
                            (ui3, Some e) \<Rightarrow>
                              (Uncaught e, ui1 @ ui2 @ [Markdown (ascii ''---'')] @ ui3, s)
                          | (ui3, None) \<Rightarrow>
                              (case render_clear_button clear_clicked s of
                                 (ui4, rerun, s') \<Rightarrow>
                                   (if rerun then Rerun else Completed,
                                    ui1 @ ui2 @ [Markdown (ascii ''---'')] @ ui3 @ ui4, s'))))
               else (Completed, [], s)))"

text \<open>The script below the two checks of the API key.\<close>

definition page :: "environment \<Rightarrow> widgets \<Rightarrow> state \<Rightarrow> script_end \<times> ui_event list \<times> state" where
  "page env w s =
     (let s1 = init_session_state s in
      case (if map_lineage_clicked w then map_lineage_button env (current_etl_code_input w) s1
            else (([], None), s1)) of
        ((ui1, Some e), s2) \<Rightarrow> (Uncaught e, ui1, s2)
      | ((ui1, None), s2) \<Rightarrow>
          (case output_section env (clear_all_clicked w) s2 of
             (ending, ui2, s3) \<Rightarrow> (ending, ui1 @ ui2, s3)))"

text \<open>
  \<open>main.py\<close> imports \<open>ai_logic\<close> before anything else, so the validation in that
  module runs before the check of \<open>api_key_set\<close>.
\<close>

definition main_script ::
  "environment \<Rightarrow> ustr option \<Rightarrow> widgets \<Rightarrow> state \<Rightarrow> script_end \<times> ui_event list \<times> state" where
  "main_script env GEMINI_API_KEY w s =
     (case import_ai_logic GEMINI_API_KEY of
        Inl e \<Rightarrow> (Uncaught e, [], s)
      | Inr _ \<Rightarrow>
          if \<not> api_key_set GEMINI_API_KEY then (Stopped, [Warning key_warning, Info key_info], s)
          else page env w s)"

section \<open>\<open>json.loads\<close>\<close>

text \<open>
  The decoder of Python's \<open>json\<close> module, for documents without a number that has a
  fraction or an exponent: white space is skipped between the tokens; a string is read
  up to its closing quote, with its escapes, two \<open>\u\<close> escapes that form a surrogate
  pair giving one character; an object becomes a \<open>dict\<close>, in which a key that comes
  again replaces the value of the first. The functions return the value read and the
  text that follows it, or \<open>None\<close> where the decoder raises \<open>JSONDecodeError\<close>.
\<close>

definition is_ws :: "nat \<Rightarrow> bool" where
  "is_ws c \<longleftrightarrow> c = 32 \<or> c = 9 \<or> c = 10 \<or> c = 13"

definition skip_ws :: "ustr \<Rightarrow> ustr" where
  "skip_ws s = dropWhile is_ws s"

definition hex_value :: "nat \<Rightarrow> nat option" where
  "hex_value c =
     (if 48 \<le> c \<and> c \<le> 57 then Some (c - 48)
      else if 97 \<le> c \<and> c \<le> 102 then Some (c - 87)
      else if 65 \<le> c \<and> c \<le> 70 then Some (c - 55)
      else None)"

definition decode_uXXXX :: "ustr \<Rightarrow> (nat \<times> ustr) option" where
  "decode_uXXXX s =
     (case s of
        a # b # c # d # rest \<Rightarrow>
          (case (hex_value a, hex_value b, hex_value c, hex_value d) of
             (Some x3, Some x2, Some x1, Some x0) \<Rightarrow> Some (x3 * 4096 + x2 * 256 + x1 * 16 + x0, rest)
           | _ \<Rightarrow> None)
      | _ \<Rightarrow> None)"

definition unescape :: "nat \<Rightarrow> nat option" where
  "unescape e =
     (if e = 34 then Some 34
      else if e = 92 then Some 92
      else if e = 47 then Some 47
      else if e = 98 then Some 8
      else if e = 102 then Some 12
      else if e = 110 then Some 10
      else if e = 114 then Some 13
      else if e = 116 then Some 9
      else None)"

definition cons_char :: "nat \<Rightarrow> (ustr \<times> ustr) option \<Rightarrow> (ustr \<times> ustr) option" where
  "cons_char c r = (case r of None \<Rightarrow> None | Some (s, rest) \<Rightarrow> Some (c # s, rest))"

text \<open>\<open>scan_string\<close> reads the text after the opening quote of a string.\<close>

function scan_string :: "ustr \<Rightarrow> (ustr \<times> ustr) option" where
  "scan_string s =
     (case s of
        [] \<Rightarrow> None
      | c # cs \<Rightarrow>
          if c = 34 then Some ([], cs)
          else if c = 92 then
            (case cs of
               [] \<Rightarrow> None
             | e # cs1 \<Rightarrow>
                 if e = 117 then
                   (case decode_uXXXX cs1 of
                      None \<Rightarrow> None
                    | Some (uni, cs2) \<Rightarrow>
                        if 0xD800 \<le> uni \<and> uni \<le> 0xDBFF \<and> take 2 cs2 = [92, 117] then
                          (case decode_uXXXX (drop 2 cs2) of
                             None \<Rightarrow> None
                           | Some (uni2, cs3) \<Rightarrow>
                               if 0xDC00 \<le> uni2 \<and> uni2 \<le> 0xDFFF then
                                 cons_char (0x10000 + (uni - 0xD800) * 1024 + (uni2 - 0xDC00))
                                   (scan_string cs3)
                               else cons_char uni (scan_string cs2))
                        else cons_char uni (scan_string cs2))
                 else
                   (case unescape e of
                      None \<Rightarrow> None
                    | Some ch \<Rightarrow> cons_char ch (scan_string cs1)))
          else if c < 32 then None
          else cons_char c (scan_string cs))"
  by pat_completeness auto
termination
proof -
  have shorter: "length rest < length s" if "decode_uXXXX s = Some (u, rest)" for s u rest
    using that by (auto simp: decode_uXXXX_def split: list.splits option.splits)
  show ?thesis
    by (relation "measure length") (auto dest!: shorter)
qed

declare scan_string.simps [simp del]

definition is_digit :: "nat \<Rightarrow> bool" where
  "is_digit c \<longleftrightarrow> 48 \<le> c \<and> c \<le> 57"

definition digits_value :: "ustr \<Rightarrow> nat" where
  "digits_value ds = foldl (\<lambda>a d. 10 * a + (d - 48)) 0 ds"

text \<open>
  A number is an optional minus sign and the digits of an integer, \<open>0\<close> alone or
  starting with a digit that is not \<open>0\<close>. What continues with a fraction or an exponent
  is a floating-point number, which is no value here.
\<close>

definition scan_number :: "ustr \<Rightarrow> (json \<times> ustr) option" where
  "scan_number s =
     (let negative = (s \<noteq> [] \<and> hd s = 45);
          s1 = (if negative then tl s else s);
          ds = takeWhile is_digit s1
      in if ds = [] then None
         else
           (let integer = (if hd ds = 48 then [48] else ds);
                rest = drop (length integer) s1
            in if rest \<noteq> [] \<and> (hd rest = 46 \<or> hd rest = 101 \<or> hd rest = 69) then None
               else Some (JInt (if negative then - int (digits_value integer)
                                else int (digits_value integer)), rest)))"

text \<open>\<open>dict(pairs)\<close>: the pairs in their order, a later value for a key replacing the earlier.\<close>

definition dict_of :: "(ustr \<times> json) list \<Rightarrow> (ustr \<times> json) list" where
  "dict_of pairs = foldl (\<lambda>d kv. dict_store (\<lambda>k'. k' = fst kv) (fst kv) (snd kv) d) [] pairs"

text \<open>
  The three mutually recursive readers take the number of calls they may still make.
  \<open>parse_value\<close> reads one value; \<open>parse_array_items\<close> reads the items of an array
  from its first item to the closing bracket; \<open>parse_object_members\<close> reads the members
  of an object from after the opening quote of its first key to the closing brace.
\<close>

fun parse_value :: "nat \<Rightarrow> ustr \<Rightarrow> (json \<times> ustr) option"
  and parse_array_items :: "nat \<Rightarrow> ustr \<Rightarrow> (json list \<times> ustr) option"
  and parse_object_members :: "nat \<Rightarrow> ustr \<Rightarrow> ((ustr \<times> json) list \<times> ustr) option" where
  "parse_value 0 s = None"
| "parse_value (Suc n) s =
     (case s of
        [] \<Rightarrow> None
      | c # cs \<Rightarrow>
          if c = 34 then
            (case scan_string cs of None \<Rightarrow> None | Some (str, r) \<Rightarrow> Some (JStr str, r))
          else if c = 123 then
            (case skip_ws cs of
               [] \<Rightarrow> None
             | d # r \<Rightarrow>
                 if d = 125 then Some (JObj [], r)
                 else if d = 34 then
                   (case parse_object_members n r of
                      None \<Rightarrow> None
                    | Some (pairs, r') \<Rightarrow> Some (JObj (dict_of pairs), r'))
                 else None)
          else if c = 91 then
            (case skip_ws cs of
               [] \<Rightarrow> None
             | d # r \<Rightarrow>
                 if d = 93 then Some (JArr [], r)
                 else
                   (case parse_array_items n (d # r) of
                      None \<Rightarrow> None
                    | Some (vs, r') \<Rightarrow> Some (JArr vs, r')))
          else if take 4 s = ascii ''null'' then Some (JNull, drop 4 s)
          else if take 4 s = ascii ''true'' then Some (JBool True, drop 4 s)
          else if take 5 s = ascii ''false'' then Some (JBool False, drop 5 s)
          else scan_number s)"
| "parse_array_items 0 s = None"
| "parse_array_items (Suc n) s =
     (case parse_value n s of
        None \<Rightarrow> None
      | Some (v, r) \<Rightarrow>
          (case skip_ws r of
             [] \<Rightarrow> None
           | d # r1 \<Rightarrow>
               if d = 93 then Some ([v], r1)
               else if d = 44 then
                 (case parse_array_items n (skip_ws r1) of
                    None \<Rightarrow> None
                  | Some (vs, r2) \<Rightarrow> Some (v # vs, r2))
               else None))"
| "parse_object_members 0 s = None"
| "parse_object_members (Suc n) s =
     (case scan_string s of
        None \<Rightarrow> None
      | Some (key, r) \<Rightarrow>
          (case skip_ws r of
             [] \<Rightarrow> None
           | d # r1 \<Rightarrow>
               if d \<noteq> 58 then None
               else
                 (case parse_value n (skip_ws r1) of
                    None \<Rightarrow> None
                  | Some (v, r2) \<Rightarrow>
                      (case skip_ws r2 of
                         [] \<Rightarrow> None
                       | d2 # r3 \<Rightarrow>
                           if d2 = 125 then Some ([(key, v)], r3)
                           else if d2 = 44 then
                             (case skip_ws r3 of
                                [] \<Rightarrow> None
                              | q # r4 \<Rightarrow>
                                  if q = 34 then
                                    (case parse_object_members n r4 of
                                       None \<Rightarrow> None
                                     | Some (ps, r5) \<Rightarrow> Some ((key, v) # ps, r5))
                                  else None)
                           else None))))"

text \<open>
  \<open>loads\<close> reads one value, with white space around it and nothing else. No reader
  calls another without a character read since two calls before, so twice the length of
  the text is more calls than any document needs.
\<close>

definition loads :: "ustr \<Rightarrow> json option" where
  "loads s =
     (case parse_value (2 * length s + 2) (skip_ws s) of
        None \<Rightarrow> None
      | Some (v, r) \<Rightarrow> if skip_ws r = [] then Some v else None)"

section \<open>The documents that are read back\<close>

text \<open>
  Among the terms of type \<open>json\<close>, the values of Python are those in which every
  character of a string is a code point and the keys of a \<open>dict\<close> are distinct.
  \<open>valid_json\<close> asks for that and for one thing more: in no string a high surrogate
  (U+D800 to U+DBFF) stands directly before a low surrogate (U+DC00 to U+DFFF). Such a
  pair is written as two \<open>\u\<close> escapes, which are read as one character.
\<close>

fun valid_text :: "ustr \<Rightarrow> bool" where
  "valid_text [] = True"
| "valid_text [c] = (c < 0x110000)"
| "valid_text (c # d # cs) =
     (c < 0x110000 \<and> \<not> (0xD800 \<le> c \<and> c \<le> 0xDBFF \<and> 0xDC00 \<le> d \<and> d \<le> 0xDFFF) \<and>
      valid_text (d # cs))"

fun valid_json :: "json \<Rightarrow> bool" where
  "valid_json (JStr s) = valid_text s"
| "valid_json (JArr xs) = (\<forall>x \<in> set xs. valid_json x)"
| "valid_json (JObj kvs) =
     (distinct (map fst kvs) \<and> (\<forall>kv \<in> set kvs. valid_text (fst kv) \<and> valid_json (snd kv)))"
| "valid_json v = True"

text \<open>
  The number of calls that the readers make on the text of a value, and what may follow
  the text of a number: the end of the document, a comma, a line break, or a closing bracket
  or brace.
\<close>

fun need :: "json \<Rightarrow> nat" where
  "need (JArr xs) = Suc (sum_list (map (\<lambda>x. Suc (need x)) xs))"
| "need (JObj kvs) = Suc (sum_list (map (\<lambda>kv. Suc (need (snd kv))) kvs))"
| "need v = 1"

definition terminated :: "ustr \<Rightarrow> bool" where
  "terminated rest \<longleftrightarrow> rest = [] \<or> hd rest = 44 \<or> hd rest = 10 \<or> hd rest = 93 \<or> hd rest = 125"

section \<open>Environments and states of the examples\<close>

definition fresh_state :: state where
  "fresh_state =
     \<lparr>gemini_model_instance = None, api_calls = [], lineage_text_output = None,
      structured_lineage_data = None, etl_code_input = None, lineage_result = None\<rparr>"

text \<open>A provider with no model, a parser that rejects everything, an empty page.\<close>

definition quiet_environment :: environment where
  "quiet_environment =
     \<lparr>list_models = Inr [], GenerativeModel = (\<lambda>n. Inr (Handle n)),
      generate_content = (\<lambda>h prompt config. Inr None),
      json_loads = (\<lambda>t. Inl (JSONDecodeError (ascii ''Expecting value''))),
      py_repr = (\<lambda>v. []),
      pyvis_html = (\<lambda>G. Inr [])\<rparr>"

definition generateContent :: ustr where
  "generateContent = ascii ''generateContent''"

text \<open>
  A provider with one model that blocks every request, with the exception as the library
  raises it: made from the prompt feedback, without an attribute \<open>response\<close>.
\<close>

definition blocking_environment :: environment where
  "blocking_environment =
     quiet_environment
       \<lparr>list_models := Inr [Model_Info (ascii ''models/gemini-pro'') [generateContent]],
        generate_content :=
          (\<lambda>h prompt config. Inl (BlockedPromptException None (ascii ''block_reason: SAFETY'')))\<rparr>"

text \<open>
  A provider with one model that answers every request with the same text, and a parser
  that reads that text as the given value.
\<close>

definition answering_environment :: "ustr \<Rightarrow> json \<Rightarrow> environment" where
  "answering_environment report data =
     quiet_environment
       \<lparr>list_models := Inr [Model_Info (ascii ''models/gemini-pro'') [generateContent]],
        generate_content :=
          (\<lambda>h prompt config. Inr (Some (Response [Candidate (Some (Content [Part report]))]))),
        json_loads := (\<lambda>t. Inr data)\<rparr>"

text \<open>The response of the second example scenario of the specification.\<close>

definition could_not_extract :: json where
  "could_not_extract =
     jobj [(''nodes'', JArr []), (''edges'', JArr []), (''error'', jstr ''Could not extract lineage.'')]"

text \<open>The response of the first example scenario of the specification.\<close>

definition a_flows_to_b :: json where
  "a_flows_to_b =
     jobj [(''nodes'',
            JArr [jobj [(''id'', jstr ''t.a''), (''label'', jstr ''a''), (''group'', jstr ''column'')],
                  jobj [(''id'', jstr ''t.b''), (''label'', jstr ''b''), (''group'', jstr ''column'')]]),
           (''edges'',
            JArr [jobj [(''source'', jstr ''t.a''), (''target'', jstr ''t.b''),
                        (''label'', jstr ''FLOWS_TO''), (''confidence_score'', JInt 5)]])]"

text \<open>The session after that response and a report were stored.\<close>

definition mapped_state :: state where
  "mapped_state =
     fresh_state
       \<lparr>gemini_model_instance := Some (Handle (ascii ''models/gemini-pro'')),
        lineage_text_output := Some (ascii ''## Data Flow Summary''),
        structured_lineage_data := Some a_flows_to_b,
        etl_code_input := Some (ascii ''SELECT a AS b FROM t'')\<rparr>"

text \<open>A response that names one node twice and one edge twice.\<close>

definition named_twice :: json where
  "named_twice =
     jobj [(''nodes'',
            JArr [jobj [(''id'', jstr ''t.a''), (''label'', jstr ''first''), (''group'', jstr ''column'')],
                  jobj [(''id'', jstr ''t.a''), (''label'', jstr ''second''), (''group'', jstr ''table'')]]),
           (''edges'',
            JArr [jobj [(''source'', jstr ''t.a''), (''target'', jstr ''t.a''),
                        (''label'', jstr ''FLOWS_TO'')],
                  jobj [(''source'', jstr ''t.a''), (''target'', jstr ''t.a''),
                        (''label'', jstr ''PRODUCES'')]])]"

text \<open>
  A response with two edges, the second from the first node: the graph lists that one first.
\<close>

definition there_and_back :: json where
  "there_and_back =
     jobj [(''nodes'',
            JArr [jobj [(''id'', jstr ''t.a''), (''label'', jstr ''a''), (''group'', jstr ''column'')],
                  jobj [(''id'', jstr ''t.b''), (''label'', jstr ''b''), (''group'', jstr ''column'')]]),
           (''edges'',
            JArr [jobj [(''source'', jstr ''t.b''), (''target'', jstr ''t.a''),
                        (''label'', jstr ''CONSUMES'')],
                  jobj [(''source'', jstr ''t.a''), (''target'', jstr ''t.b''),
                        (''label'', jstr ''FLOWS_TO''), (''confidence_score'', JInt 5)]])]"

text \<open>A response with an edge to a node that no node entry names.\<close>

definition dangling_edge :: json where
  "dangling_edge =
     jobj [(''nodes'',
            JArr [jobj [(''id'', jstr ''t.a''), (''label'', jstr ''a''), (''group'', jstr ''column'')]]),
           (''edges'',
            JArr [jobj [(''source'', jstr ''t.a''), (''target'', jstr ''t.z''),
                        (''label'', jstr ''FLOWS_TO'')]])]"

text \<open>
  A response in which the id of the node is written with the two halves of a surrogate
  pair as two characters, and the response with the one character that the pair encodes.
\<close>

definition split_pair :: json where
  "split_pair =
     jobj [(''nodes'',
            JArr [jobj [(''id'', JStr [0xD83D, 0xDE00]), (''label'', jstr ''a''),
                        (''group'', jstr ''column'')]]),
           (''edges'', JArr [])]"

definition joined_pair :: json where
  "joined_pair =
     jobj [(''nodes'',
            JArr [jobj [(''id'', JStr [0x1F600]), (''label'', jstr ''a''),
                        (''group'', jstr ''column'')]]),
           (''edges'', JArr [])]"

section \<open>Model selection\<close>

lemma chosen_preferred:
  assumes "i < length preferred_order" and "preferred_order ! i \<in> set av"
    and "\<forall>j<i. preferred_order ! j \<notin> set av"
  shows "chosen_model_name av = Some (preferred_order ! i)"
proof -
  have "find (\<lambda>pm. pm \<in> set av) preferred_order = Some (preferred_order ! i)"
    using assms unfolding find_Some_iff by blast
  then show ?thesis by (simp add: chosen_model_name_def)
qed

lemma chosen_fallback:
  assumes "\<forall>pm \<in> set preferred_order. pm \<notin> set av" and "av \<noteq> []"
  shows "chosen_model_name av = Some (hd av)"
proof -
  have "find (\<lambda>pm. pm \<in> set av) preferred_order = None"
    using assms(1) unfolding find_None_iff by blast
  with assms(2) show ?thesis by (cases av) (simp_all add: chosen_model_name_def)
qed

lemma chosen_None_iff: "chosen_model_name av = None \<longleftrightarrow> av = []"
  by (auto simp: chosen_model_name_def find_None_iff find_Some_iff split: option.splits list.splits)

lemma chosen_in_available: "chosen_model_name av = Some n \<Longrightarrow> n \<in> set av"
  by (auto simp: chosen_model_name_def find_Some_iff split: option.splits list.splits)

lemma get_gemini_model_cached:
  "gemini_model_instance s = Some h \<Longrightarrow> get_gemini_model env s = (Inr h, s)"
  by (simp add: get_gemini_model_def)

text \<open>
  C5 (as amended). With the provider's list at hand, no handle yet and no model without a
  name: the model selected is the first name of the preference list that is available,
  or, when none of them is, the first available model; the call returns the handle made
  for that name and keeps it, or raises because making it failed. With nothing
  available it raises. It raises in no other case. Once a call has returned a handle,
  every later call returns that handle and leaves the state as it is, whatever the
  provider would answer.
\<close>

theorem get_gemini_model_selection:
  assumes lm: "list_models env = Inr ms"
    and fresh: "gemini_model_instance s = None"
    and named: "[] \<notin> set (available_models ms)"
  shows
    "(((\<exists>i < length preferred_order. n = preferred_order ! i \<and> n \<in> set (available_models ms) \<and>
          (\<forall>j < i. preferred_order ! j \<notin> set (available_models ms))) \<or>
       ((\<forall>pm \<in> set preferred_order. pm \<notin> set (available_models ms)) \<and>
          available_models ms \<noteq> [] \<and> n = hd (available_models ms))) \<longrightarrow>
      get_gemini_model env s =
        (case GenerativeModel env n of
           Inl e \<Rightarrow> (Inl (Exception (init_failed n)), s\<lparr>api_calls := api_calls s @ [List_Models]\<rparr>)
         | Inr h \<Rightarrow> (Inr h, s\<lparr>api_calls := api_calls s @ [List_Models],
                                gemini_model_instance := Some h\<rparr>))) \<and>
     (available_models ms = [] \<longrightarrow>
        get_gemini_model env s =
          (Inl (Exception no_suitable_model), s\<lparr>api_calls := api_calls s @ [List_Models]\<rparr>)) \<and>
     (\<forall>e s'. get_gemini_model env s = (Inl e, s') \<longrightarrow>
        available_models ms = [] \<or>
        (\<exists>m \<in> set (available_models ms). \<exists>e'. GenerativeModel env m = Inl e' \<and> e = Exception (init_failed m))) \<and>
     (\<forall>h s'. get_gemini_model env s = (Inr h, s') \<longrightarrow>
        gemini_model_instance s' = Some h \<and> (\<forall>env'. get_gemini_model env' s' = (Inr h, s')))"
proof -
  let ?s1 = "s\<lparr>api_calls := api_calls s @ [List_Models]\<rparr>"
  let ?av = "available_models ms"
  have selected: "get_gemini_model env s =
        (case GenerativeModel env n of
           Inl e \<Rightarrow> (Inl (Exception (init_failed n)), ?s1)
         | Inr h \<Rightarrow> (Inr h, s\<lparr>api_calls := api_calls s @ [List_Models],
                                gemini_model_instance := Some h\<rparr>))"
    if sel: "(\<exists>i < length preferred_order. n = preferred_order ! i \<and> n \<in> set ?av \<and>
          (\<forall>j < i. preferred_order ! j \<notin> set ?av)) \<or>
       ((\<forall>pm \<in> set preferred_order. pm \<notin> set ?av) \<and> ?av \<noteq> [] \<and> n = hd ?av)"
  proof -
    from sel have ch: "chosen_model_name ?av = Some n"
      using chosen_preferred chosen_fallback by blast
    then have "n \<in> set ?av" by (rule chosen_in_available)
    with named have "n \<noteq> []" by auto
    with ch lm fresh show ?thesis
      by (simp add: get_gemini_model_def Let_def split: sum.splits)
  qed
  have none: "get_gemini_model env s = (Inl (Exception no_suitable_model), ?s1)" if "?av = []"
  proof -
    from that have "chosen_model_name ?av = None" by (simp add: chosen_None_iff)
    with lm fresh show ?thesis by (simp add: get_gemini_model_def Let_def)
  qed
  have raised: "?av = [] \<or>
        (\<exists>m \<in> set ?av. \<exists>e'. GenerativeModel env m = Inl e' \<and> e = Exception (init_failed m))"
    if r: "get_gemini_model env s = (Inl e, s')" for e s'
  proof (cases "chosen_model_name ?av")
    case None
    then show ?thesis by (simp add: chosen_None_iff)
  next
    case (Some m)
    then have m: "m \<in> set ?av" by (rule chosen_in_available)
    with named have "m \<noteq> []" by auto
    with r lm fresh Some have "\<exists>e'. GenerativeModel env m = Inl e' \<and> e = Exception (init_failed m)"
      by (auto simp: get_gemini_model_def Let_def split: sum.splits)
    with m show ?thesis by blast
  qed
  have once: "gemini_model_instance s' = Some h \<and> (\<forall>env'. get_gemini_model env' s' = (Inr h, s'))"
    if r: "get_gemini_model env s = (Inr h, s')" for h s'
  proof -
    from r lm fresh have "gemini_model_instance s' = Some h"
      by (auto simp: get_gemini_model_def Let_def split: sum.splits option.splits if_splits)
    then show ?thesis by (simp add: get_gemini_model_cached)
  qed
  from selected none raised once show ?thesis by blast
qed

theorem get_gemini_model_selection_witness:
  "get_gemini_model
     (quiet_environment\<lparr>list_models :=
        Inr [Model_Info (ascii ''models/embedding-001'') [ascii ''embedContent''],
             Model_Info (ascii ''models/gemini-1.0-pro'') [generateContent],
             Model_Info (ascii ''models/gemini-1.5-pro'') [generateContent, ascii ''countTokens''],
             Model_Info (ascii ''models/gemini-pro'') [generateContent]]\<rparr>)
     fresh_state =
   (Inr (Handle (ascii ''models/gemini-pro'')),
    fresh_state\<lparr>api_calls := [List_Models],
                 gemini_model_instance := Some (Handle (ascii ''models/gemini-pro''))\<rparr>)"
proof -
  let ?ms = "[Model_Info (ascii ''models/embedding-001'') [ascii ''embedContent''],
             Model_Info (ascii ''models/gemini-1.0-pro'') [generateContent],
             Model_Info (ascii ''models/gemini-1.5-pro'') [generateContent, ascii ''countTokens''],
             Model_Info (ascii ''models/gemini-pro'') [generateContent]]"
  let ?env = "quiet_environment\<lparr>list_models := Inr ?ms\<rparr>"
  let ?n = "ascii ''models/gemini-pro''"
  have lm: "list_models ?env = Inr ?ms" by simp
  have fresh: "gemini_model_instance fresh_state = None" by (simp add: fresh_state_def)
  have av: "available_models ?ms =
      [ascii ''models/gemini-1.0-pro'', ascii ''models/gemini-1.5-pro'', ?n]"
    by (simp add: available_models_def generateContent_def ascii_def)
  have named: "[] \<notin> set (available_models ?ms)" unfolding av by (simp add: ascii_def)
  have sel: "\<exists>i < length preferred_order. ?n = preferred_order ! i \<and> ?n \<in> set (available_models ?ms) \<and>
          (\<forall>j < i. preferred_order ! j \<notin> set (available_models ?ms))"
    unfolding av by (intro exI [of _ 1]) (simp add: preferred_order_def ascii_def)
  have "get_gemini_model ?env fresh_state =
        (case GenerativeModel ?env ?n of
           Inl e \<Rightarrow> (Inl (Exception (init_failed ?n)), fresh_state\<lparr>api_calls := api_calls fresh_state @ [List_Models]\<rparr>)
         | Inr h \<Rightarrow> (Inr h, fresh_state\<lparr>api_calls := api_calls fresh_state @ [List_Models],
                                gemini_model_instance := Some h\<rparr>))"
    using get_gemini_model_selection [OF lm fresh named, of ?n] sel by blast
  then show ?thesis by (simp add: quiet_environment_def fresh_state_def)
qed

lemma available_one: "available_models [Model_Info n [generateContent]] = [n]"
  by (simp add: available_models_def generateContent_def)

lemma chosen_gemini_pro: "chosen_model_name [ascii ''models/gemini-pro''] = Some (ascii ''models/gemini-pro'')"
  by (simp add: chosen_model_name_def preferred_order_def ascii_def)

lemma gemini_pro_named: "ascii ''models/gemini-pro'' \<noteq> []"
  by (simp add: ascii_def)

lemma chosen_unnamed: "chosen_model_name [[]] = Some []"
  by (simp add: chosen_model_name_def preferred_order_def ascii_def)

theorem get_gemini_model_raises_with_models_available:
  "available_models [Model_Info (ascii ''models/gemini-pro'') [generateContent]] \<noteq> [] \<and>
   fst (get_gemini_model
          (quiet_environment
             \<lparr>list_models := Inr [Model_Info (ascii ''models/gemini-pro'') [generateContent]],
              GenerativeModel := (\<lambda>n. Inl (OtherError (ascii ''connection refused'')))\<rparr>)
          fresh_state) =
     Inl (Exception (init_failed (ascii ''models/gemini-pro''))) \<and>
   available_models [Model_Info [] [generateContent]] \<noteq> [] \<and>
   fst (get_gemini_model (quiet_environment\<lparr>list_models := Inr [Model_Info [] [generateContent]]\<rparr>)
          fresh_state) =
     Inl (Exception no_suitable_model)"
  by (simp add: get_gemini_model_def available_one chosen_gemini_pro chosen_unnamed gemini_pro_named
      fresh_state_def quiet_environment_def Let_def)

section \<open>Blank text and the prompts\<close>

lemma strip_blank: "\<forall>c \<in> set s. isspace c \<Longrightarrow> strip s = []"
proof -
  assume "\<forall>c \<in> set s. isspace c"
  then have d: "dropWhile isspace s = []" by simp
  show ?thesis unfolding strip_def d by simp
qed

lemma strip_empty_iff: "strip s = [] \<longleftrightarrow> (\<forall>c \<in> set s. isspace c)"
proof
  assume "strip s = []"
  then have "\<forall>c \<in> set (dropWhile isspace s). isspace c"
    by (simp add: strip_def)
  then have "dropWhile isspace s = []"
    using hd_dropWhile [of isspace s] by (cases "dropWhile isspace s") auto
  then show "\<forall>c \<in> set s. isspace c" by simp
qed (rule strip_blank)

lemma text_prompt_not_blank: "strip (text_prompt code) \<noteq> []"
proof -
  have "65 \<in> set text_prompt_head" by (simp add: text_prompt_head_def ascii_def)
  moreover have "\<not> isspace 65" by (simp add: isspace_def)
  ultimately show ?thesis unfolding strip_empty_iff text_prompt_def by auto
qed

lemma structured_prompt_not_blank: "strip (structured_prompt code) \<noteq> []"
proof -
  have "65 \<in> set structured_prompt_head" by (simp add: structured_prompt_head_def ascii_def)
  moreover have "\<not> isspace 65" by (simp add: isspace_def)
  ultimately show ?thesis unfolding strip_empty_iff structured_prompt_def by auto
qed

lemma response_schema_truthy: "truthy response_schema"
  by (simp add: response_schema_def jobj_def)

section \<open>Failures of a call, and the blocked prompt\<close>

lemma text_messages:
  "\<exists>m. text_service_error e = cross_mark # m"
  "\<exists>m. text_no_prompt = cross_mark # m"
  "\<exists>m. text_invalid_response = cross_mark # m"
  "\<exists>m. text_blocked reason = cross_mark # m"
  "\<exists>m. text_call_failed e = cross_mark # m"
  by (simp_all add: text_service_error_def text_no_prompt_def text_invalid_response_def
      text_blocked_def text_call_failed_def)

lemma structured_messages:
  "\<exists>m. error_dict (structured_service_error e) = error_dict (cross_mark # m)"
  "\<exists>m. error_dict structured_no_prompt = error_dict (cross_mark # m)"
  "\<exists>m. error_dict structured_no_schema = error_dict (cross_mark # m)"
  "\<exists>m. error_dict (structured_malformed json_e json_text) = error_dict (cross_mark # m)"
  "\<exists>m. error_dict structured_invalid_response = error_dict (cross_mark # m)"
  "\<exists>m. error_dict (structured_blocked reason) = error_dict (cross_mark # m)"
  "\<exists>m. error_dict (structured_call_failed e) = error_dict (cross_mark # m)"
  by (simp_all add: error_dict_def structured_service_error_def structured_no_prompt_def
      structured_no_schema_def structured_malformed_def structured_invalid_response_def
      structured_blocked_def structured_call_failed_def)

text \<open>
  A handler of the structured call returns an error dict, except for a blocked prompt
  without the attribute \<open>response\<close>, where it raises.
\<close>

lemma structured_handler_result:
  "(\<exists>m. structured_handler e = Inr (error_dict (cross_mark # m))) \<or>
   ((\<exists>m. e = BlockedPromptException None m) \<and> structured_handler e = Inl no_response_attribute)"
proof (cases e)
  case (BlockedPromptException reason m)
  then show ?thesis using structured_messages(6) by (cases reason) simp_all
qed (insert structured_messages(7), simp_all)

text \<open>
  Every way through \<open>ask_gemini_text\<close>: the text of the first part, an error message, or
  the \<open>AttributeError\<close> of the handler of a blocked prompt.
\<close>

lemma ask_gemini_text_result:
  "(\<exists>h r t. fst (get_gemini_model env s) = Inr h \<and> strip prompt \<noteq> [] \<and>
       generate_content env h prompt None = Inr r \<and> first_part_text r = Some t \<and>
       fst (ask_gemini_text env prompt s) = Inr t) \<or>
   (\<exists>m. fst (ask_gemini_text env prompt s) = Inr (cross_mark # m)) \<or>
   (\<exists>h m. fst (get_gemini_model env s) = Inr h \<and> strip prompt \<noteq> [] \<and>
       generate_content env h prompt None = Inl (BlockedPromptException None m) \<and>
       fst (ask_gemini_text env prompt s) = Inl no_response_attribute)"
proof (cases "get_gemini_model env s")
  case (Pair g s1)
  show ?thesis
  proof (cases g)
    case (Inl e)
    with Pair show ?thesis using text_messages(1) by (simp add: ask_gemini_text_def)
  next
    case (Inr h)
    show ?thesis
    proof (cases "strip prompt = []")
      case True
      with Pair Inr show ?thesis using text_messages(2) by (simp add: ask_gemini_text_def)
    next
      case False
      show ?thesis
      proof (cases "generate_content env h prompt None")
        case (Inl e)
        show ?thesis
        proof (cases e)
          case (BlockedPromptException reason m)
          with Pair Inr False Inl show ?thesis
            using text_messages(4) by (cases reason) (simp_all add: ask_gemini_text_def Let_def)
        qed (insert Pair Inr False Inl text_messages(5), simp_all add: ask_gemini_text_def Let_def)
      next
        case r: (Inr r)
        with Pair Inr False show ?thesis
          using text_messages(3) by (cases "first_part_text r") (simp_all add: ask_gemini_text_def Let_def)
      qed
    qed
  qed
qed

text \<open>
  Every way through \<open>ask_gemini_structured\<close>: the value that \<open>json.loads\<close> gives, an
  error dict, or the \<open>AttributeError\<close> of the handler of a blocked prompt.
\<close>

lemma ask_gemini_structured_result:
  "(\<exists>h r t d. fst (get_gemini_model env s) = Inr h \<and> strip prompt \<noteq> [] \<and> truthy schema \<and>
       generate_content env h prompt (Some schema) = Inr r \<and> first_part_text r = Some t \<and>
       json_loads env t = Inr d \<and>
       fst (ask_gemini_structured env prompt schema s) = Inr d) \<or>
   (\<exists>m. fst (ask_gemini_structured env prompt schema s) = Inr (error_dict (cross_mark # m))) \<or>
   (\<exists>h m. fst (get_gemini_model env s) = Inr h \<and> strip prompt \<noteq> [] \<and> truthy schema \<and>
       (generate_content env h prompt (Some schema) = Inl (BlockedPromptException None m) \<or>
        (\<exists>r t. generate_content env h prompt (Some schema) = Inr r \<and> first_part_text r = Some t \<and>
           json_loads env t = Inl (BlockedPromptException None m))) \<and>
       fst (ask_gemini_structured env prompt schema s) = Inl no_response_attribute)"
proof (cases "get_gemini_model env s")
  case (Pair g s1)
  show ?thesis
  proof (cases g)
    case (Inl e)
    with Pair show ?thesis using structured_messages(1) by (simp add: ask_gemini_structured_def)
  next
    case (Inr h)
    show ?thesis
    proof (cases "strip prompt = [] \<or> \<not> truthy schema")
      case True
      with Pair Inr show ?thesis
        using structured_messages(2,3) by (auto simp: ask_gemini_structured_def)
    next
      case False
      show ?thesis
      proof (cases "generate_content env h prompt (Some schema)")
        case (Inl e)
        with Pair Inr False have "fst (ask_gemini_structured env prompt schema s) = structured_handler e"
          by (simp add: ask_gemini_structured_def Let_def)
        with structured_handler_result [of e] Pair Inr False Inl show ?thesis by auto
      next
        case r: (Inr r)
        show ?thesis
        proof (cases "first_part_text r")
          case None
          with Pair Inr False r show ?thesis
            using structured_messages(5) by (simp add: ask_gemini_structured_def Let_def)
        next
          case (Some t)
          show ?thesis
          proof (cases "json_loads env t")
            case l: (Inl e)
            show ?thesis
            proof (cases "\<exists>json_e. e = JSONDecodeError json_e")
              case True
              with Pair Inr False r Some l show ?thesis
                using structured_messages(4) by (auto simp: ask_gemini_structured_def Let_def)
            next
              case no: False
              with Pair Inr False r Some l
              have "fst (ask_gemini_structured env prompt schema s) = structured_handler e"
                by (cases e) (simp_all add: ask_gemini_structured_def Let_def)
              with structured_handler_result [of e] Pair Inr False r Some l show ?thesis by auto
            qed
          next
            case (Inr d)
            with Pair \<open>g = Inr h\<close> False r Some show ?thesis
              by (simp add: ask_gemini_structured_def Let_def)
          qed
        qed
      qed
    qed
  qed
qed

lemma select_not_blank: "strip (ascii ''SELECT a AS b FROM t'') \<noteq> []"
proof -
  have "dropWhile isspace (ascii ''SELECT a AS b FROM t'') = ascii ''SELECT a AS b FROM t''"
    by (simp add: ascii_def isspace_def)
  moreover have "dropWhile isspace (rev (ascii ''SELECT a AS b FROM t'')) \<noteq> []"
    by (simp add: ascii_def isspace_def)
  ultimately show ?thesis by (simp add: strip_def)
qed

text \<open>
  C2. The provider blocks the prompt and raises \<open>BlockedPromptException\<close> as the library
  makes it. Both calls catch it, and both handlers read \<open>e.response\<close> to write their
  message: the \<open>AttributeError\<close> of that read leaves \<open>ask_gemini_text\<close> and
  \<open>ask_gemini_structured\<close>, where the claim has a string that starts with the cross mark
  and a dict with the key \<open>error\<close>. The exception then leaves the handler of the button
  and ends the run of the page.
\<close>

theorem blocked_prompt_raises_past_the_call:
  "fst (ask_gemini_text blocking_environment (ascii ''SELECT a AS b FROM t'') fresh_state) =
     Inl (AttributeError ([39] @ ascii ''BlockedPromptException'' @ [39] @
                          ascii '' object has no attribute '' @ [39] @ ascii ''response'' @ [39])) \<and>
   fst (ask_gemini_structured blocking_environment (ascii ''SELECT a AS b FROM t'')
          response_schema fresh_state) =
     Inl (AttributeError ([39] @ ascii ''BlockedPromptException'' @ [39] @
                          ascii '' object has no attribute '' @ [39] @ ascii ''response'' @ [39])) \<and>
   fst (page blocking_environment
          \<lparr>map_lineage_clicked = True, clear_all_clicked = False,
           current_etl_code_input = ascii ''SELECT a AS b FROM t''\<rparr> fresh_state) =
     Uncaught (AttributeError ([39] @ ascii ''BlockedPromptException'' @ [39] @
                               ascii '' object has no attribute '' @ [39] @ ascii ''response'' @ [39]))"
proof -
  let ?h = "Handle (ascii ''models/gemini-pro'')"
  let ?p = "ascii ''SELECT a AS b FROM t''"
  have n: "no_response_attribute =
      AttributeError ([39] @ ascii ''BlockedPromptException'' @ [39] @
                      ascii '' object has no attribute '' @ [39] @ ascii ''response'' @ [39])"
    by (simp add: no_response_attribute_def)
  have g: "get_gemini_model blocking_environment s =
      (Inr ?h, s\<lparr>api_calls := api_calls s @ [List_Models], gemini_model_instance := Some ?h\<rparr>)"
    if "gemini_model_instance s = None" for s
    using that
    by (simp add: get_gemini_model_def blocking_environment_def quiet_environment_def
        available_one chosen_gemini_pro gemini_pro_named Let_def)
  have b: "generate_content blocking_environment h q c =
      Inl (BlockedPromptException None (ascii ''block_reason: SAFETY''))" for h q c
    by (simp add: blocking_environment_def)
  have t: "fst (ask_gemini_text blocking_environment q s) = Inl no_response_attribute"
    if "gemini_model_instance s = None" "strip q \<noteq> []" for q s
    using that by (simp add: ask_gemini_text_def g b Let_def)
  have u: "fst (ask_gemini_structured blocking_environment q response_schema s) =
      Inl no_response_attribute"
    if "gemini_model_instance s = None" "strip q \<noteq> []" for q s
    using that by (simp add: ask_gemini_structured_def g b Let_def response_schema_truthy)
  have 1: "fst (ask_gemini_text blocking_environment ?p fresh_state) = Inl no_response_attribute"
    by (rule t) (simp_all add: fresh_state_def select_not_blank)
  have 2: "fst (ask_gemini_structured blocking_environment ?p response_schema fresh_state) =
      Inl no_response_attribute"
    by (rule u) (simp_all add: fresh_state_def select_not_blank)
  let ?s1 = "init_session_state fresh_state\<lparr>lineage_text_output := Some [],
      structured_lineage_data := Some (JObj [])\<rparr>"
  have "fst (ask_gemini_text blocking_environment (text_prompt ?p) ?s1) = Inl no_response_attribute"
    by (rule t) (simp_all add: fresh_state_def init_session_state_def text_prompt_not_blank)
  then have "\<exists>s2. ask_gemini_text blocking_environment (text_prompt ?p) ?s1 =
      (Inl no_response_attribute, s2)"
    by (cases "ask_gemini_text blocking_environment (text_prompt ?p) ?s1") simp
  then have 3: "fst (page blocking_environment
          \<lparr>map_lineage_clicked = True, clear_all_clicked = False, current_etl_code_input = ?p\<rparr>
          fresh_state) = Uncaught no_response_attribute"
    by (auto simp: page_def map_lineage_button_def select_not_blank Let_def)
  from 1 2 3 show ?thesis unfolding n by simp
qed

section \<open>The button with nothing to analyse\<close>

text \<open>
  C6. When the text of the editor is empty or all whitespace, a click on the button draws
  the warning and nothing else, raises nothing, and leaves the state as it was: the
  stored report, the stored graph data, the model handle, and the log of calls to the
  provider, to which no call is added. The run of the page with the click is the run
  without it, with the warning drawn first.
\<close>

theorem blank_input_is_a_no_op:
  assumes "\<forall>c \<in> set code. isspace c"
  shows "map_lineage_button env code s = (([Warning paste_some_code], None), s) \<and>
         page env \<lparr>map_lineage_clicked = True, clear_all_clicked = c, current_etl_code_input = code\<rparr> s =
           (case page env \<lparr>map_lineage_clicked = False, clear_all_clicked = c,
                           current_etl_code_input = code\<rparr> s of
              (ending, ui, s') \<Rightarrow> (ending, Warning paste_some_code # ui, s'))"
proof -
  from assms have 1: "map_lineage_button env code s' = (([Warning paste_some_code], None), s')" for s'
    by (simp add: map_lineage_button_def strip_blank)
  then show ?thesis by (simp add: page_def Let_def split: prod.splits)
qed

theorem blank_input_is_a_no_op_witness:
  "map_lineage_button blocking_environment [32, 9, 10, 0xA0, 32] fresh_state =
     (([Warning paste_some_code], None), fresh_state)"
  using blank_input_is_a_no_op [of "[32, 9, 10, 0xA0, 32]" blocking_environment fresh_state]
  by (simp add: isspace_def)

section \<open>An error field in the structured response\<close>

lemma get_gemini_model_answering:
  "\<exists>h s'. get_gemini_model (answering_environment report data) s = (Inr h, s')"
  by (cases "gemini_model_instance s")
    (simp_all add: get_gemini_model_def answering_environment_def quiet_environment_def
      available_one chosen_gemini_pro gemini_pro_named Let_def)

lemma ask_gemini_text_answering:
  assumes "strip prompt \<noteq> []"
  shows "\<exists>s'. ask_gemini_text (answering_environment report data) prompt s = (Inr report, s')"
proof -
  obtain h s1 where "get_gemini_model (answering_environment report data) s = (Inr h, s1)"
    using get_gemini_model_answering by blast
  with assms show ?thesis
    by (simp add: ask_gemini_text_def Let_def first_part_text_def answering_environment_def)
qed

lemma ask_gemini_structured_answering:
  assumes "strip prompt \<noteq> []" and "truthy schema"
  shows "\<exists>s'. ask_gemini_structured (answering_environment report data) prompt schema s = (Inr data, s')"
proof -
  obtain h s1 where "get_gemini_model (answering_environment report data) s = (Inr h, s1)"
    using get_gemini_model_answering by blast
  with assms show ?thesis
    by (simp add: ask_gemini_structured_def Let_def first_part_text_def answering_environment_def)
qed

text \<open>
  C3. For a response dict whose \<open>error\<close> field is truthy (for a string: not empty),
  \<open>render_lineage_graph\<close> draws its subheader and a message, builds no graph, draws no
  frame and raises nothing: the message is \<open>Error generating graph data from AI: \<close>
  with the field's text, and a hint, when the dict has \<open>nodes\<close>, and the notice that no
  data are available when \<open>nodes\<close> is missing or \<open>None\<close>. When the structured call of
  a click returns such a dict, the handler stores it and appends to the text report a
  rule, the cross mark, \<open>**Graph Generation Issue:**\<close> with the field's text, and two
  sentences of advice.
\<close>

theorem error_field_stops_the_graph:
  assumes "map_of kvs (ascii ''error'') = Some err" and "truthy err"
  shows
    "render_lineage_graph env (JObj kvs) =
       (if map_of kvs (ascii ''nodes'') = None \<or> map_of kvs (ascii ''nodes'') = Some JNull
        then ([Subheader ([0x1F310] @ ascii '' Interactive Lineage Graph''),
               Info (ascii ''No structured lineage data available to generate the graph. Please generate the lineage report first.'')], None)
        else ([Subheader ([0x1F310] @ ascii '' Interactive Lineage Graph''),
               Error (ascii ''Error generating graph data from AI: '' @ py_str env err),
               Info (ascii ''The AI might have struggled to produce valid structured lineage. Try simplifying your code or review the AI'' @
                     [39] @ ascii ''s plain text explanation.'')], None)) \<and>
     (\<forall>m. err = JStr m \<longrightarrow> py_str env err = m) \<and>
     (strip code \<noteq> [] \<and>
      ask_gemini_text env (text_prompt code)
        (s\<lparr>lineage_text_output := Some [], structured_lineage_data := Some (JObj [])\<rparr>) =
        (Inr report, s2) \<and>
      ask_gemini_structured env (structured_prompt code) response_schema
        (s2\<lparr>lineage_text_output := Some report\<rparr>) = (Inr (JObj kvs), s4) \<longrightarrow>
      map_lineage_button env code s =
        (([], None),
         s4\<lparr>structured_lineage_data := Some (JObj kvs),
            lineage_text_output :=
              Some (report @ [10, 10] @ ascii ''---'' @ [10, 10, 0x274C] @
                    ascii '' **Graph Generation Issue:** '' @ py_str env err @ [10, 10] @
              ascii ''The AI struggled to provide data for the interactive graph. Please review the text report and consider simplifying the input for graph generation.'')\<rparr>))"
proof -
  from assms have "kvs \<noteq> []" by auto
  with assms have 1: "render_lineage_graph env (JObj kvs) =
       (if map_of kvs (ascii ''nodes'') = None \<or> map_of kvs (ascii ''nodes'') = Some JNull
        then ([Subheader ([0x1F310] @ ascii '' Interactive Lineage Graph''),
               Info (ascii ''No structured lineage data available to generate the graph. Please generate the lineage report first.'')], None)
        else ([Subheader ([0x1F310] @ ascii '' Interactive Lineage Graph''),
               Error (ascii ''Error generating graph data from AI: '' @ py_str env err),
               Info (ascii ''The AI might have struggled to produce valid structured lineage. Try simplifying your code or review the AI'' @
                     [39] @ ascii ''s plain text explanation.'')], None))"
    by (auto simp: render_lineage_graph_def graph_subheader_def no_graph_data_def
        graph_data_error_def graph_data_hint_def split: option.splits)
  have 2: "map_lineage_button env code s =
        (([], None),
         s4\<lparr>structured_lineage_data := Some (JObj kvs),
            lineage_text_output :=
              Some (report @ [10, 10] @ ascii ''---'' @ [10, 10, 0x274C] @
                    ascii '' **Graph Generation Issue:** '' @ py_str env err @ [10, 10] @
              ascii ''The AI struggled to provide data for the interactive graph. Please review the text report and consider simplifying the input for graph generation.'')\<rparr>)"
    if "strip code \<noteq> []"
      and "ask_gemini_text env (text_prompt code)
        (s\<lparr>lineage_text_output := Some [], structured_lineage_data := Some (JObj [])\<rparr>) =
        (Inr report, s2)"
      and "ask_gemini_structured env (structured_prompt code) response_schema
        (s2\<lparr>lineage_text_output := Some report\<rparr>) = (Inr (JObj kvs), s4)"
    using that assms
    by (simp add: map_lineage_button_def Let_def graph_generation_issue_def cross_mark_def ascii_def)
  have 3: "\<forall>m. err = JStr m \<longrightarrow> py_str env err = m" by simp
  from 1 2 3 show ?thesis by blast
qed

theorem error_field_stops_the_graph_witness:
  "render_lineage_graph (answering_environment (ascii ''## Data Flow Summary'') could_not_extract)
     could_not_extract =
     ([Subheader ([0x1F310] @ ascii '' Interactive Lineage Graph''),
       Error (ascii ''Error generating graph data from AI: Could not extract lineage.''),
       Info (ascii ''The AI might have struggled to produce valid structured lineage. Try simplifying your code or review the AI'' @
                     [39] @ ascii ''s plain text explanation.'')], None) \<and>
   fst (map_lineage_button (answering_environment (ascii ''## Data Flow Summary'') could_not_extract)
          (ascii ''SELECT a AS b FROM t'') fresh_state) = ([], None) \<and>
   structured_lineage_data
     (snd (map_lineage_button (answering_environment (ascii ''## Data Flow Summary'') could_not_extract)
             (ascii ''SELECT a AS b FROM t'') fresh_state)) = Some could_not_extract \<and>
   lineage_text_output
     (snd (map_lineage_button (answering_environment (ascii ''## Data Flow Summary'') could_not_extract)
             (ascii ''SELECT a AS b FROM t'') fresh_state)) =
     Some (ascii ''## Data Flow Summary'' @ [10, 10] @ ascii ''---'' @ [10, 10, 0x274C] @
           ascii '' **Graph Generation Issue:** Could not extract lineage.'' @ [10, 10] @
              ascii ''The AI struggled to provide data for the interactive graph. Please review the text report and consider simplifying the input for graph generation.'')"
proof -
  let ?env = "answering_environment (ascii ''## Data Flow Summary'') could_not_extract"
  let ?kvs = "[(ascii ''nodes'', JArr []), (ascii ''edges'', JArr []),
               (ascii ''error'', jstr ''Could not extract lineage.'')]"
  let ?code = "ascii ''SELECT a AS b FROM t''"
  have d: "could_not_extract = JObj ?kvs" by (simp add: could_not_extract_def jobj_def)
  have e: "map_of ?kvs (ascii ''error'') = Some (jstr ''Could not extract lineage.'')"
    by (simp add: ascii_def)
  have n: "map_of ?kvs (ascii ''nodes'') = Some (JArr [])" by (simp add: ascii_def)
  have t: "truthy (jstr ''Could not extract lineage.'')" by (simp add: jstr_def ascii_def)
  have c: "strip ?code \<noteq> []" by (rule select_not_blank)
  have j1: "ascii ''Error generating graph data from AI: '' @ ascii ''Could not extract lineage.'' =
      ascii ''Error generating graph data from AI: Could not extract lineage.''"
    by (simp add: ascii_def)
  have j2: "ascii '' **Graph Generation Issue:** '' @ ascii ''Could not extract lineage.'' @ rest =
      ascii '' **Graph Generation Issue:** Could not extract lineage.'' @ rest" for rest
    by (simp add: ascii_def)
  obtain s2 where a: "ask_gemini_text ?env (text_prompt ?code)
        (fresh_state\<lparr>lineage_text_output := Some [], structured_lineage_data := Some (JObj [])\<rparr>) =
        (Inr (ascii ''## Data Flow Summary''), s2)"
    using ask_gemini_text_answering [OF text_prompt_not_blank] by blast
  obtain s4 where b: "ask_gemini_structured ?env (structured_prompt ?code) response_schema
        (s2\<lparr>lineage_text_output := Some (ascii ''## Data Flow Summary'')\<rparr>) = (Inr (JObj ?kvs), s4)"
    using ask_gemini_structured_answering [OF structured_prompt_not_blank response_schema_truthy]
    unfolding d by blast
  from error_field_stops_the_graph [OF e t, of ?env ?code fresh_state "ascii ''## Data Flow Summary''" s2 s4]
    n c a b
  show ?thesis unfolding d by (simp add: jstr_def j1 j2)
qed

section \<open>The downloads\<close>

text \<open>What \<open>json.dumps\<close> writes is ASCII, and the UTF-8 encoding of ASCII text is the text.\<close>

lemma hex_digit_ascii: "d < 16 \<Longrightarrow> hex_digit d < 128"
  by (simp add: hex_digit_def)

lemma u_escape_ascii: "\<forall>c \<in> set (u_escape n). c < 128"
  by (simp add: u_escape_def hex_digit_ascii)

lemma escape_char_ascii: "\<forall>c \<in> set (escape_char k). c < 128"
  using u_escape_ascii by (auto simp: escape_char_def)

lemma encode_string_ascii: "\<forall>c \<in> set (encode_string s). c < 128"
  using escape_char_ascii by (auto simp: encode_string_def)

lemma dec_nat_ascii: "\<forall>c \<in> set (dec_nat n). c < 128"
proof (induction n rule: dec_nat.induct)
  case (1 n)
  show ?case
  proof (cases "n < 10")
    case True
    then show ?thesis by (subst dec_nat.simps) simp
  next
    case False
    have "n mod 10 < 10" by simp
    then have "48 + n mod 10 < 128" by simp
    with False 1 show ?thesis by (subst dec_nat.simps) simp
  qed
qed

lemma dec_int_ascii: "\<forall>c \<in> set (dec_int i). c < 128"
  using dec_nat_ascii by (simp add: dec_int_def)

lemma join_ascii:
  "\<forall>x \<in> set xs. \<forall>c \<in> set x. c < (128::nat) \<Longrightarrow> \<forall>c \<in> set sep. c < 128 \<Longrightarrow>
   \<forall>c \<in> set (join sep xs). c < 128"
  by (induction sep xs rule: join.induct) auto

lemma newline_indent_ascii: "\<forall>c \<in> set (newline_indent ind l). c < 128"
  by (cases ind) (simp_all add: newline_indent_def)

lemma item_separator_ascii: "\<forall>c \<in> set (item_separator ind l). c < 128"
  using newline_indent_ascii [of ind l] by (cases ind) (simp_all add: item_separator_def)

lemma dumps_ascii: "\<forall>c \<in> set (dumps ind l v). c < 128"
proof (induction v arbitrary: l)
  case (JArr xs)
  have "\<forall>x \<in> set (map (dumps ind (Suc l)) xs). \<forall>c \<in> set x. c < 128"
    using JArr.IH by simp
  from join_ascii [OF this item_separator_ascii [of ind "Suc l"]]
    newline_indent_ascii [of ind l] newline_indent_ascii [of ind "Suc l"]
  show ?case by (auto simp: ascii_def)
next
  case (JObj kvs)
  have "\<forall>c \<in> set (dumps ind (Suc l) (snd kv)). c < 128" if "kv \<in> set kvs" for kv
  proof -
    have "snd kv \<in> Basic_BNFs.snds kv" by (cases kv) simp
    from JObj.IH [OF that this] show ?thesis .
  qed
  then have "\<forall>x \<in> set (map (\<lambda>kv. encode_string (fst kv) @ [58, 32] @ dumps ind (Suc l) (snd kv)) kvs).
      \<forall>c \<in> set x. c < 128"
    using encode_string_ascii by auto
  from join_ascii [OF this item_separator_ascii [of ind "Suc l"]]
    newline_indent_ascii [of ind l] newline_indent_ascii [of ind "Suc l"]
  show ?case by (auto simp: ascii_def)
qed (insert dec_int_ascii encode_string_ascii, simp_all add: ascii_def)

lemma encode_utf8_ascii:
  assumes "\<forall>c \<in> set s. c < 128"
  shows "encode_utf8 s = Inr s"
proof -
  from assms have "concat (map utf8_char s) = s"
    by (induction s) (simp_all add: utf8_char_def)
  moreover from assms have "\<not> (\<exists>c \<in> set s. is_surrogate c)"
    by (auto simp: is_surrogate_def)
  ultimately show ?thesis by (simp add: encode_utf8_def)
qed

lemma encode_json_dumps: "encode_utf8 (json_dumps ind v) = Inr (json_dumps ind v)"
  unfolding json_dumps_def by (rule encode_utf8_ascii) (rule dumps_ascii)

text \<open>
  C10 (as amended). Both download buttons are drawn exactly when the structured data and
  the text report are both non-empty and the report has no surrogate code point, and the
  notice is drawn in their place exactly when one of the two is empty. With such a report
  that is not empty, a dict with nothing but an \<open>error\<close> field gives both buttons, the
  first with the UTF-8 bytes of the report and the second with the JSON text of the dict;
  the empty dict gives the notice and no button. For a dict and a report that are not
  empty, with a surrogate in the report, \<open>encode\<close> raises after the subheader and the
  columns, before any button.
\<close>

theorem downloads_offered_iff:
  "((\<exists>data. Download_Button download_markdown_label data ''data_lineage_report.md''
             ''text/markdown'' ''download_md_report''
             \<in> set (fst (render_download_section (JObj kvs) report))) \<longleftrightarrow>
      kvs \<noteq> [] \<and> report \<noteq> [] \<and> \<not> (\<exists>c \<in> set report. is_surrogate c)) \<and>
   ((\<exists>data. Download_Button download_json_label data ''data_lineage_structured.json''
             ''application/json'' ''download_json_report''
             \<in> set (fst (render_download_section (JObj kvs) report))) \<longleftrightarrow>
      kvs \<noteq> [] \<and> report \<noteq> [] \<and> \<not> (\<exists>c \<in> set report. is_surrogate c)) \<and>
   (Info (ascii ''Generate lineage data first to enable download options.'') \<in> set (fst (render_download_section (JObj kvs) report)) \<longleftrightarrow>
      \<not> (kvs \<noteq> [] \<and> report \<noteq> [])) \<and>
   (snd (render_download_section (JObj kvs) report) = None \<longleftrightarrow>
      \<not> (kvs \<noteq> [] \<and> report \<noteq> [] \<and> (\<exists>c \<in> set report. is_surrogate c))) \<and>
   (report \<noteq> [] \<and> \<not> (\<exists>c \<in> set report. is_surrogate c) \<longrightarrow>
      render_download_section (JObj [(ascii ''error'', JStr m)]) report =
        ([Subheader download_subheader, Columns 2,
          Download_Button download_markdown_label (concat (map utf8_char report))
            ''data_lineage_report.md'' ''text/markdown'' ''download_md_report'',
          Download_Button download_json_label (json_dumps (Some 2) (JObj [(ascii ''error'', JStr m)]))
            ''data_lineage_structured.json'' ''application/json'' ''download_json_report''], None)) \<and>
   render_download_section (JObj []) report =
     ([Subheader download_subheader, Info (ascii ''Generate lineage data first to enable download options.'')], None) \<and>
   (kvs \<noteq> [] \<and> report \<noteq> [] \<and> (\<exists>c \<in> set report. is_surrogate c) \<longrightarrow>
      render_download_section (JObj kvs) report =
        ([Subheader download_subheader, Columns 2], Some (surrogates_not_allowed report)))"
proof (cases "\<exists>c \<in> set report. is_surrogate c")
  case True
  then have "encode_utf8 report = Inl (surrogates_not_allowed report)"
    by (simp add: encode_utf8_def)
  with True show ?thesis
    by (simp add: render_download_section_def encode_json_dumps download_info_def)
next
  case False
  then have "encode_utf8 report = Inr (concat (map utf8_char report))"
    by (simp add: encode_utf8_def)
  with False show ?thesis
    by (simp add: render_download_section_def encode_json_dumps download_info_def)
qed

theorem downloads_offered_iff_witness:
  "render_download_section (JObj [(ascii ''error'', JStr (ascii ''no model''))])
     (ascii ''caf'' @ [0xE9]) =
     ([Subheader download_subheader, Columns 2,
       Download_Button download_markdown_label (ascii ''caf'' @ [0xC3, 0xA9])
         ''data_lineage_report.md'' ''text/markdown'' ''download_md_report'',
       Download_Button download_json_label
         (json_dumps (Some 2) (JObj [(ascii ''error'', JStr (ascii ''no model''))]))
         ''data_lineage_structured.json'' ''application/json'' ''download_json_report''], None)"
proof -
  have "ascii ''caf'' @ [0xE9] \<noteq> [] \<and> \<not> (\<exists>c \<in> set (ascii ''caf'' @ [0xE9]). is_surrogate c)"
    by (simp add: ascii_def is_surrogate_def)
  moreover have "concat (map utf8_char (ascii ''caf'' @ [0xE9])) = ascii ''caf'' @ [0xC3, 0xA9]"
    by (simp add: ascii_def utf8_char_def)
  ultimately show ?thesis
    using downloads_offered_iff [of "[]" "ascii ''caf'' @ [0xE9]" "ascii ''no model''"]
    by simp
qed

text \<open>
  A dict and a report that are not empty, and no download: the report ends with one half
  of a surrogate pair.
\<close>

theorem surrogate_in_report_stops_the_downloads:
  "truthy (JObj [(ascii ''error'', JStr (ascii ''no model''))]) \<and>
   ascii ''report '' @ [0xD83D] \<noteq> [] \<and>
   render_download_section (JObj [(ascii ''error'', JStr (ascii ''no model''))])
     (ascii ''report '' @ [0xD83D]) =
     ([Subheader download_subheader, Columns 2],
      Some (UnicodeEncodeError
              ([39] @ ascii ''utf-8'' @ [39] @ ascii '' codec can'' @ [39] @
               ascii ''t encode character '' @ [39, 92] @ ascii ''ud83d'' @ [39] @
               ascii '' in position 7: surrogates not allowed'')))"
  by (simp add: render_download_section_def encode_utf8_def surrogates_not_allowed_def
      is_surrogate_def ascii_def u_escape_def hex_digit_def dec_nat.simps)

section \<open>The clear button\<close>

lemma summary_is_no_error:
  "ascii ''## Data Flow Summary'' \<noteq> [] \<and> \<not> prefix [cross_mark] (ascii ''## Data Flow Summary'')"
  by (simp add: ascii_def cross_mark_def)

text \<open>
  C4. A click on the clear button deletes \<open>etl_code_input\<close>, \<open>lineage_result\<close> and
  \<open>structured_lineage_data\<close>. The report is stored under \<open>lineage_text_output\<close>, which
  the click does not touch: whatever the state, the report is the same after the click.
  In the session of the example the run that follows the click puts the empty dict in
  the place of the graph data, still holds the report and draws it again.
\<close>

theorem clear_keeps_the_report:
  "lineage_text_output (snd (snd (render_clear_button True s))) = lineage_text_output s \<and>
   structured_lineage_data (snd (snd (render_clear_button True s))) = None \<and>
   fst (snd (render_clear_button True s)) = True \<and>
   lineage_text_output mapped_state = Some (ascii ''## Data Flow Summary'') \<and>
   page quiet_environment
     \<lparr>map_lineage_clicked = False, clear_all_clicked = False, current_etl_code_input = []\<rparr>
     (snd (snd (render_clear_button True mapped_state))) =
     (Completed,
      [Markdown (ascii ''---''), Header (ascii ''Mapped Data Lineage''), Tabs [report_tab, graph_tab],
       Subheader output_subheader, Markdown (lineage_display_box (ascii ''## Data Flow Summary'')),
       Success mapping_complete,
       Subheader graph_subheader, Info no_graph_data,
       Markdown (ascii ''---''), Subheader download_subheader, Info download_info,
       Markdown (ascii ''---''), Button clear_label ''clear_all_button''],
      mapped_state\<lparr>etl_code_input := None, lineage_result := None,
                   structured_lineage_data := Some (JObj [])\<rparr>)"
  using summary_is_no_error
  by (simp add: render_clear_button_def mapped_state_def fresh_state_def page_def
      init_session_state_def output_section_def render_lineage_output_def
      render_lineage_graph_def render_download_section_def Let_def)

section \<open>The API key at startup\<close>

text \<open>
  C8 (as amended). When \<open>GEMINI_API_KEY\<close> is not set, is empty or is the placeholder,
  a run of \<open>main.py\<close> ends at its import of \<open>ai_logic\<close> with the \<open>RuntimeError\<close>
  of that module, before the page is reached: nothing is drawn, the state is untouched and
  no call of the provider is made. For every other key both checks pass and the run is
  the run of the page.
\<close>

theorem startup_key_check:
  "(key = None \<or> key = Some [] \<or> key = Some placeholder_key \<longrightarrow>
      main_script env key w s = (Uncaught (RuntimeError key_not_found), [], s)) \<and>
   (key \<noteq> None \<and> key \<noteq> Some [] \<and> key \<noteq> Some placeholder_key \<longrightarrow>
      import_ai_logic key = Inr () \<and> api_key_set key \<and> main_script env key w s = page env w s)"
  by (auto simp: main_script_def import_ai_logic_def api_key_set_def)

theorem startup_key_check_witness:
  "main_script blocking_environment None
     \<lparr>map_lineage_clicked = True, clear_all_clicked = False,
      current_etl_code_input = ascii ''SELECT a AS b FROM t''\<rparr> fresh_state =
     (Uncaught (RuntimeError key_not_found), [], fresh_state) \<and>
   main_script blocking_environment (Some (ascii ''AIzaSyExample''))
     \<lparr>map_lineage_clicked = True, clear_all_clicked = False,
      current_etl_code_input = ascii ''SELECT a AS b FROM t''\<rparr> fresh_state =
     page blocking_environment
       \<lparr>map_lineage_clicked = True, clear_all_clicked = False,
        current_etl_code_input = ascii ''SELECT a AS b FROM t''\<rparr> fresh_state"
proof -
  let ?w = "\<lparr>map_lineage_clicked = True, clear_all_clicked = False,
      current_etl_code_input = ascii ''SELECT a AS b FROM t''\<rparr>"
  have k: "Some (ascii ''AIzaSyExample'') \<noteq> None \<and> Some (ascii ''AIzaSyExample'') \<noteq> Some [] \<and>
      Some (ascii ''AIzaSyExample'') \<noteq> Some placeholder_key"
    by (simp add: ascii_def placeholder_key_def)
  from startup_key_check [of None blocking_environment ?w fresh_state]
    startup_key_check [of "Some (ascii ''AIzaSyExample'')" blocking_environment ?w fresh_state] k
  show ?thesis by blast
qed

theorem empty_key_halts_startup:
  "api_key_set (Some []) \<and> Some [] \<noteq> Some placeholder_key \<and>
   main_script blocking_environment (Some [])
     \<lparr>map_lineage_clicked = False, clear_all_clicked = False, current_etl_code_input = []\<rparr>
     fresh_state =
     (Uncaught (RuntimeError key_not_found), [], fresh_state)"
  by (simp add: main_script_def import_ai_logic_def api_key_set_def placeholder_key_def ascii_def)

section \<open>The defaults of a node entry\<close>

lemma add_node_fails_on_id_only:
  "add_node n attr G = Inl e \<Longrightarrow> \<not> hashable n \<or> n = JNull"
  by (auto simp: add_node_def split: if_splits option.splits)

lemma add_node_succeeds:
  "hashable n \<Longrightarrow> n \<noteq> JNull \<Longrightarrow> \<exists>G'. add_node n attr G = Inr G'"
  by (auto simp: add_node_def split: option.splits)

text \<open>
  C9. A node entry that is a dict always yields a node with the three attributes
  \<open>label\<close>, \<open>group\<close> and \<open>title\<close>: a missing label is the node's id, a missing group
  is \<open>unknown\<close>, and a missing title is the JSON text of the string made of
  \<open>ID: \<close>, the id, a backslash, \<open>nType: \<close> and the group; a field that is present
  is taken as it is. Adding the node to the graph fails only for an id that is \<open>None\<close>
  or not hashable, whatever the three fields are. The options of the page give
  \<open>unknown\<close> a triangle in a colour of its own: no other group has that shape or that
  colour.
\<close>

theorem node_entry_defaults:
  "(\<exists>label grp title_text.
      node_entry env (JObj kvs) =
        Inr (case map_of kvs (ascii ''id'') of None \<Rightarrow> JNull | Some v \<Rightarrow> v,
             [(''label'', label), (''group'', grp), (''title'', JStr (json_dumps None title_text))]) \<and>
      label = (case map_of kvs (ascii ''label'') of
                 None \<Rightarrow> (case map_of kvs (ascii ''id'') of None \<Rightarrow> JNull | Some v \<Rightarrow> v)
               | Some v \<Rightarrow> v) \<and>
      grp = (case map_of kvs (ascii ''group'') of None \<Rightarrow> JStr (ascii ''unknown'') | Some v \<Rightarrow> v) \<and>
      title_text =
        (case map_of kvs (ascii ''title'') of
           None \<Rightarrow>
             JStr (default_title env
                     (case map_of kvs (ascii ''id'') of None \<Rightarrow> JNull | Some v \<Rightarrow> v) grp)
         | Some v \<Rightarrow> v)) \<and>
   (\<forall>node_id grp. default_title env node_id grp =
      ascii ''ID: '' @ py_str env node_id @ [92] @ ascii ''nType: '' @ py_str env grp) \<and>
   (\<forall>n attr G e. add_node n attr G = Inl e \<longrightarrow> \<not> hashable n \<or> n = JNull) \<and>
   map_of group_options ''unknown'' = Some (''triangle'', ''#768390'') \<and>
   (\<forall>g shape colour. g \<noteq> ''unknown'' \<and> map_of group_options g = Some (shape, colour) \<longrightarrow>
      shape \<noteq> ''triangle'' \<and> colour \<noteq> ''#768390'')"
proof -
  have 1: "\<exists>label grp title_text.
      node_entry env (JObj kvs) =
        Inr (case map_of kvs (ascii ''id'') of None \<Rightarrow> JNull | Some v \<Rightarrow> v,
             [(''label'', label), (''group'', grp), (''title'', JStr (json_dumps None title_text))]) \<and>
      label = (case map_of kvs (ascii ''label'') of
                 None \<Rightarrow> (case map_of kvs (ascii ''id'') of None \<Rightarrow> JNull | Some v \<Rightarrow> v)
               | Some v \<Rightarrow> v) \<and>
      grp = (case map_of kvs (ascii ''group'') of None \<Rightarrow> JStr (ascii ''unknown'') | Some v \<Rightarrow> v) \<and>
      title_text =
        (case map_of kvs (ascii ''title'') of
           None \<Rightarrow>
             JStr (default_title env
                     (case map_of kvs (ascii ''id'') of None \<Rightarrow> JNull | Some v \<Rightarrow> v) grp)
         | Some v \<Rightarrow> v)"
    by (simp add: node_entry_def)
  have 5: "\<forall>node_id grp. default_title env node_id grp =
      ascii ''ID: '' @ py_str env node_id @ [92] @ ascii ''nType: '' @ py_str env grp"
    by (simp add: default_title_def)
  have 2: "\<forall>n attr G e. add_node n attr G = Inl e \<longrightarrow> \<not> hashable n \<or> n = JNull"
    using add_node_fails_on_id_only by blast
  have 3: "map_of group_options ''unknown'' = Some (''triangle'', ''#768390'')"
    by (simp add: group_options_def)
  have 4: "\<forall>g shape colour. g \<noteq> ''unknown'' \<and> map_of group_options g = Some (shape, colour) \<longrightarrow>
      shape \<noteq> ''triangle'' \<and> colour \<noteq> ''#768390''"
    by (auto simp: group_options_def split: if_splits)
  from 1 2 3 4 5 show ?thesis by blast
qed

theorem node_entry_defaults_witness:
  "node_entry quiet_environment (JObj [(ascii ''id'', jstr ''t.a'')]) =
     Inr (jstr ''t.a'',
          [(''label'', jstr ''t.a''), (''group'', jstr ''unknown''),
           (''title'', JStr ([34] @ ascii ''ID: t.a'' @ [92, 92] @ ascii ''nType: unknown'' @ [34]))])"
proof -
  let ?kvs = "[(ascii ''id'', jstr ''t.a'')]"
  have m: "map_of ?kvs (ascii ''id'') = Some (jstr ''t.a'')"
    "map_of ?kvs (ascii ''label'') = None" "map_of ?kvs (ascii ''group'') = None"
    "map_of ?kvs (ascii ''title'') = None"
    by (simp_all add: ascii_def)
  have d: "json_dumps None (JStr (ascii ''ID: '' @ ascii ''t.a'' @ [92] @ ascii ''nType: '' @
              ascii ''unknown'')) =
           [34] @ ascii ''ID: t.a'' @ [92, 92] @ ascii ''nType: unknown'' @ [34]"
    by (simp add: json_dumps_def encode_string_def escape_char_def ascii_def)
  note ned = node_entry_defaults [of quiet_environment ?kvs]
  from ned [THEN conjunct1]
  obtain label grp title_text where
    ne: "node_entry quiet_environment (JObj ?kvs) =
        Inr (case map_of ?kvs (ascii ''id'') of None \<Rightarrow> JNull | Some v \<Rightarrow> v,
             [(''label'', label), (''group'', grp), (''title'', JStr (json_dumps None title_text))])"
    and l: "label = (case map_of ?kvs (ascii ''label'') of
                 None \<Rightarrow> (case map_of ?kvs (ascii ''id'') of None \<Rightarrow> JNull | Some v \<Rightarrow> v)
               | Some v \<Rightarrow> v)"
    and g: "grp = (case map_of ?kvs (ascii ''group'') of None \<Rightarrow> JStr (ascii ''unknown'') | Some v \<Rightarrow> v)"
    and t: "title_text =
        (case map_of ?kvs (ascii ''title'') of
           None \<Rightarrow>
             JStr (default_title quiet_environment
                     (case map_of ?kvs (ascii ''id'') of None \<Rightarrow> JNull | Some v \<Rightarrow> v) grp)
         | Some v \<Rightarrow> v)"
    by (elim exE conjE) (rule that; assumption)
  from ned [THEN conjunct2, THEN conjunct1]
  have dt: "\<forall>node_id grp. default_title quiet_environment node_id grp =
      ascii ''ID: '' @ py_str quiet_environment node_id @ [92] @ ascii ''nType: '' @
      py_str quiet_environment grp" .
  from l have l': "label = jstr ''t.a''" unfolding m by simp
  from g have g': "grp = jstr ''unknown''" unfolding m by (simp add: jstr_def)
  from t have "title_text = JStr (default_title quiet_environment (jstr ''t.a'') (jstr ''unknown''))"
    unfolding m g' by simp
  with dt have t': "title_text =
      JStr (ascii ''ID: '' @ ascii ''t.a'' @ [92] @ ascii ''nType: '' @ ascii ''unknown'')"
    by (simp add: jstr_def)
  from ne show ?thesis unfolding m l' g' t' d by simp
qed

section \<open>One graph node per node entry, one graph edge per edge entry\<close>

lemma py_eq_JStr [simp]: "py_eq (JStr a) k \<longleftrightarrow> k = JStr a" "py_eq k (JStr a) \<longleftrightarrow> k = JStr a"
  by (cases k; auto)+

lemma dict_lookup_None: "dict_lookup same kvs = None \<longleftrightarrow> (\<forall>k \<in> fst ` set kvs. \<not> same k)"
  by (induction kvs) (auto split: if_splits)

lemma dict_store_fresh: "\<forall>k' \<in> fst ` set kvs. \<not> same k' \<Longrightarrow> dict_store same k v kvs = kvs @ [(k, v)]"
  by (induction kvs) auto

lemma dict_lookup_string: "dict_lookup (py_eq (JStr u)) kvs = map_of kvs (JStr u)"
  by (induction kvs) auto

text \<open>Storing under a key that a \<open>dict\<close> has: the value at that key changes, nothing else.\<close>

lemma dict_store_string:
  assumes "JStr u \<in> fst ` set kvs" and "distinct (map fst kvs)"
  shows "dict_store (py_eq (JStr u)) (JStr u) new kvs =
           map (\<lambda>kv. if fst kv = JStr u then (fst kv, new) else kv) kvs"
  using assms
proof (induction kvs)
  case Nil
  then show ?case by simp
next
  case (Cons kv kvs)
  obtain k x where kv: "kv = (k, x)" by (cases kv)
  show ?case
  proof (cases "k = JStr u")
    case True
    with Cons.prems(2) kv have "JStr u \<notin> fst ` set kvs" by simp
    then have "\<forall>kv \<in> set kvs. fst kv \<noteq> JStr u" by (metis image_eqI)
    then have "map (\<lambda>kv. if fst kv = JStr u then (fst kv, new) else kv) kvs = kvs"
      by (intro map_idI) simp
    with True kv show ?thesis by simp
  next
    case False
    with Cons kv show ?thesis by auto
  qed
qed

lemma node_attrs_fresh:
  "attr_update [] [(''label'', l), (''group'', g), (''title'', t)] =
     [(''label'', l), (''group'', g), (''title'', t)]"
  by (simp add: attr_update_def)

lemma edge_attrs_fresh:
  "attr_update [] [(''title'', t), (''label'', l)] = [(''title'', t), (''label'', l)]"
  by (simp add: attr_update_def)

lemma node_entry_dict:
  "node_entry env (JObj nkvs) =
     Inr (case map_of nkvs (ascii ''id'') of None \<Rightarrow> JNull | Some v \<Rightarrow> v,
          [(''label'', case map_of nkvs (ascii ''label'') of
                         None \<Rightarrow> (case map_of nkvs (ascii ''id'') of None \<Rightarrow> JNull | Some v \<Rightarrow> v)
                       | Some v \<Rightarrow> v),
           (''group'', case map_of nkvs (ascii ''group'') of None \<Rightarrow> JStr (ascii ''unknown'') | Some v \<Rightarrow> v),
           (''title'', JStr (json_dumps None
              (case map_of nkvs (ascii ''title'') of
                 None \<Rightarrow> JStr (default_title env
                            (case map_of nkvs (ascii ''id'') of None \<Rightarrow> JNull | Some v \<Rightarrow> v)
                            (case map_of nkvs (ascii ''group'') of None \<Rightarrow> JStr (ascii ''unknown'') | Some v \<Rightarrow> v))
               | Some v \<Rightarrow> v)))])"
  by (simp add: node_entry_def)

lemma edge_entry_dict:
  "edge_entry (JObj ekvs) =
     Inr (case map_of ekvs (ascii ''source'') of None \<Rightarrow> JNull | Some v \<Rightarrow> v,
          case map_of ekvs (ascii ''target'') of None \<Rightarrow> JNull | Some v \<Rightarrow> v,
          [(''title'', JStr (json_dumps None
              (case map_of ekvs (ascii ''title'') of
                 None \<Rightarrow> (case map_of ekvs (ascii ''label'') of None \<Rightarrow> JStr [] | Some v \<Rightarrow> v)
               | Some v \<Rightarrow> v))),
           (''label'', case map_of ekvs (ascii ''label'') of None \<Rightarrow> JStr [] | Some v \<Rightarrow> v)])"
  by (simp add: edge_entry_def)

text \<open>Adding a node whose id is a string that the graph does not have yet.\<close>

lemma add_node_new:
  assumes "JStr a \<notin> fst ` set (g_node G)"
  shows "add_node (JStr a) [(''label'', l), (''group'', g), (''title'', t)] G =
           Inr (G\<lparr>g_node := g_node G @ [(JStr a, [(''label'', l), (''group'', g), (''title'', t)], [])]\<rparr>)"
proof -
  from assms have "dict_lookup (py_eq (JStr a)) (g_node G) = None"
    unfolding dict_lookup_None by auto
  then show ?thesis by (simp add: add_node_def node_attrs_fresh)
qed

text \<open>The entry of a node whose \<open>id\<close> is a string: the id and three attributes.\<close>

lemma string_id_entry:
  assumes "py_get n (ascii ''id'') JNull = Inr (JStr a)"
  shows "\<exists>l g t. node_entry env n = Inr (JStr a, [(''label'', l), (''group'', g), (''title'', t)])"
proof -
  from assms obtain nkvs where n: "n = JObj nkvs" by (cases n) auto
  with assms show ?thesis unfolding n node_entry_dict by (auto split: option.splits)
qed

lemma add_nodes_strings:
  assumes "\<forall>n \<in> set ns. \<exists>a. py_get n (ascii ''id'') JNull = Inr (JStr a)"
    and "distinct (map (\<lambda>n. py_get n (ascii ''id'') JNull) ns)"
    and "\<forall>n \<in> set ns. py_get n (ascii ''id'') JNull \<notin> Inr ` fst ` set (g_node G)"
  shows "\<exists>entries. map Inr entries = map (node_entry env) ns \<and>
           add_nodes env ns G =
             Inr (G\<lparr>g_node := g_node G @ map (\<lambda>x. (fst x, snd x, [])) entries\<rparr>)"
  using assms
proof (induction ns arbitrary: G)
  case Nil
  then show ?case by simp
next
  case (Cons n ns)
  from Cons.prems(1) obtain a where a: "py_get n (ascii ''id'') JNull = Inr (JStr a)" by auto
  then obtain l g t
    where ne: "node_entry env n = Inr (JStr a, [(''label'', l), (''group'', g), (''title'', t)])"
    using string_id_entry by blast
  let ?entry = "(JStr a, [(''label'', l), (''group'', g), (''title'', t)])"
  let ?G' = "G\<lparr>g_node := g_node G @ [(fst ?entry, snd ?entry, [])]\<rparr>"
  from Cons.prems(3) a have "JStr a \<notin> fst ` set (g_node G)" by auto
  then have an: "add_node (JStr a) [(''label'', l), (''group'', g), (''title'', t)] G = Inr ?G'"
    by (simp add: add_node_new)
  from Cons.prems(2) a have "Inr (JStr a) \<notin> (\<lambda>n. py_get n (ascii ''id'') JNull) ` set ns"
    by simp
  then have "\<forall>m \<in> set ns. py_get m (ascii ''id'') JNull \<noteq> Inr (JStr a)"
    by (metis image_eqI)
  with Cons.prems(3)
  have "\<forall>m \<in> set ns. py_get m (ascii ''id'') JNull \<notin> Inr ` fst ` set (g_node ?G')"
    by auto
  with Cons.IH [of ?G'] Cons.prems(1,2)
  obtain entries where e: "map Inr entries = map (node_entry env) ns"
    and r: "add_nodes env ns ?G' =
      Inr (?G'\<lparr>g_node := g_node ?G' @ map (\<lambda>x. (fst x, snd x, [])) entries\<rparr>)"
    by auto
  from e ne have "map Inr (?entry # entries) = map (node_entry env) (n # ns)" by simp
  moreover from r an ne
  have "add_nodes env (n # ns) G =
      Inr (G\<lparr>g_node := g_node G @ map (\<lambda>x. (fst x, snd x, [])) (?entry # entries)\<rparr>)"
    by simp
  ultimately show ?case by blast
qed

text \<open>Adding an edge between two nodes of the graph that no edge joins yet.\<close>

lemma ensure_node_present:
  assumes "JStr a \<in> fst ` set (g_node G)"
  shows "ensure_node (JStr a) G = Inr G"
proof -
  from assms have "dict_lookup (py_eq (JStr a)) (g_node G) \<noteq> None"
    unfolding dict_lookup_None by auto
  then show ?thesis by (auto simp: ensure_node_def)
qed

lemma edges_data_iff:
  "(u, v, d) \<in> set (edges_data G) \<longleftrightarrow> (\<exists>a succ. (u, a, succ) \<in> set (g_node G) \<and> (v, d) \<in> set succ)"
proof
  assume "(u, v, d) \<in> set (edges_data G)"
  then obtain kn where kn: "kn \<in> set (g_node G)"
    and m: "(u, v, d) \<in> set (case kn of (u, a, succ) \<Rightarrow> map (\<lambda>(v, d). (u, v, d)) succ)"
    by (auto simp: edges_data_def)
  obtain k a succ where "kn = (k, a, succ)" by (cases kn)
  with kn m show "\<exists>a succ. (u, a, succ) \<in> set (g_node G) \<and> (v, d) \<in> set succ" by auto
next
  assume "\<exists>a succ. (u, a, succ) \<in> set (g_node G) \<and> (v, d) \<in> set succ"
  then obtain a succ where kn: "(u, a, succ) \<in> set (g_node G)" and m: "(v, d) \<in> set succ"
    by blast
  from m have "(u, v, d) \<in> set (case (u, a, succ) of (u, a, succ) \<Rightarrow> map (\<lambda>(v, d). (u, v, d)) succ)"
    by (simp add: image_iff)
  with kn show "(u, v, d) \<in> set (edges_data G)"
    unfolding edges_data_def set_concat set_map by blast
qed

lemma add_edge_new:
  assumes u: "map_of (g_node G) (JStr u) = Some (a, succ)"
    and v: "JStr v \<in> fst ` set (g_node G)"
    and d: "distinct (map fst (g_node G))"
    and fresh: "JStr v \<notin> fst ` set succ"
  shows "add_edge (JStr u) (JStr v) [(''title'', t), (''label'', l)] G =
           Inr (G\<lparr>g_node :=
                  map (\<lambda>kn. if fst kn = JStr u
                            then (fst kn, a, succ @ [(JStr v, [(''title'', t), (''label'', l)])])
                            else kn) (g_node G)\<rparr>)"
proof -
  from u have "(JStr u, a, succ) \<in> set (g_node G)" by (rule map_of_SomeD)
  then have un: "JStr u \<in> fst ` set (g_node G)" by (rule image_eqI [rotated]) simp
  have eu: "ensure_node (JStr u) G = Inr G" using un by (rule ensure_node_present)
  have ev: "ensure_node (JStr v) G = Inr G" using v by (rule ensure_node_present)
  have lu: "dict_lookup (py_eq (JStr u)) (g_node G) = Some (a, succ)"
    unfolding dict_lookup_string by (rule u)
  from fresh have none: "\<forall>k' \<in> fst ` set succ. \<not> py_eq (JStr v) k'" by auto
  then have lv: "dict_lookup (py_eq (JStr v)) succ = None" unfolding dict_lookup_None .
  have sv: "dict_store (py_eq (JStr v)) (JStr v) x succ = succ @ [(JStr v, x)]" for x
    using none by (rule dict_store_fresh)
  have su: "dict_store (py_eq (JStr u)) (JStr u) new (g_node G) =
      map (\<lambda>kn. if fst kn = JStr u then (fst kn, new) else kn) (g_node G)" for new
    using un d by (rule dict_store_string)
  show ?thesis
    by (simp add: add_edge_def eu ev lu lv sv su edge_attrs_fresh)
qed

lemma string_ends_entry:
  assumes "py_get e (ascii ''source'') JNull = Inr (JStr u)"
    and "py_get e (ascii ''target'') JNull = Inr (JStr v)"
  shows "\<exists>t l. edge_entry e = Inr (JStr u, JStr v, [(''title'', t), (''label'', l)])"
proof -
  from assms(1) obtain ekvs where e: "e = JObj ekvs" by (cases e) auto
  with assms show ?thesis unfolding e edge_entry_dict by (auto split: option.splits)
qed

text \<open>
  The edges of the entries, added to a graph that has their end points and none of them:
  every node keeps its successors and gets, after them, the targets of the entries that
  name it as source, in the order of the entries.
\<close>

lemma add_edges_strings:
  assumes "distinct (map fst (g_node G))"
    and "\<forall>e \<in> set es. \<exists>u v. py_get e (ascii ''source'') JNull = Inr (JStr u) \<and>
             py_get e (ascii ''target'') JNull = Inr (JStr v) \<and>
             JStr u \<in> fst ` set (g_node G) \<and> JStr v \<in> fst ` set (g_node G)"
    and "distinct (map (\<lambda>e. (py_get e (ascii ''source'') JNull, py_get e (ascii ''target'') JNull)) es)"
    and "\<forall>e \<in> set es. \<forall>u v d. py_get e (ascii ''source'') JNull = Inr u \<longrightarrow>
             py_get e (ascii ''target'') JNull = Inr v \<longrightarrow> (u, v, d) \<notin> set (edges_data G)"
  shows "\<exists>entries. map Inr entries = map edge_entry es \<and>
           add_edges es G =
             Inr (G\<lparr>g_node :=
                    map (\<lambda>kn. (fst kn, fst (snd kn),
                               snd (snd kn) @ map snd (filter (\<lambda>x. fst x = fst kn) entries)))
                      (g_node G)\<rparr>)"
  using assms
proof (induction es arbitrary: G)
  case Nil
  then show ?case by simp
next
  case (Cons e es)
  let ?ends = "\<lambda>e. (py_get e (ascii ''source'') JNull, py_get e (ascii ''target'') JNull)"
  have e_in: "e \<in> set (e # es)" by simp
  from Cons.prems(2) e_in obtain u v where u: "py_get e (ascii ''source'') JNull = Inr (JStr u)"
    and v: "py_get e (ascii ''target'') JNull = Inr (JStr v)"
    and un: "JStr u \<in> fst ` set (g_node G)" and vn: "JStr v \<in> fst ` set (g_node G)"
    by blast
  from u v obtain t l
    where ee: "edge_entry e = Inr (JStr u, JStr v, [(''title'', t), (''label'', l)])"
    using string_ends_entry by blast
  let ?attr = "[(''title'', t), (''label'', l)]"
  let ?entry = "(JStr u, JStr v, ?attr)"
  from un obtain a succ where mem: "(JStr u, a, succ) \<in> set (g_node G)" by auto
  with Cons.prems(1) have look: "map_of (g_node G) (JStr u) = Some (a, succ)" by simp
  have fresh: "JStr v \<notin> fst ` set succ"
  proof
    assume "JStr v \<in> fst ` set succ"
    then obtain d where "(JStr v, d) \<in> set succ" by auto
    with mem have "(JStr u, JStr v, d) \<in> set (edges_data G)" unfolding edges_data_iff by blast
    with Cons.prems(4) e_in u v show False by blast
  qed
  let ?N' = "map (\<lambda>kn. if fst kn = JStr u then (fst kn, a, succ @ [(JStr v, ?attr)]) else kn) (g_node G)"
  let ?G' = "G\<lparr>g_node := ?N'\<rparr>"
  from look vn Cons.prems(1) fresh
  have ae: "add_edge (JStr u) (JStr v) ?attr G = Inr ?G'" by (rule add_edge_new)
  have keys: "map fst ?N' = map fst (g_node G)" by (simp add: comp_def if_distrib [of fst])
  have gn: "g_node ?G' = ?N'" by simp
  have 1: "distinct (map fst (g_node ?G'))" unfolding gn keys by (rule Cons.prems(1))
  have "set (map fst (g_node ?G')) = set (map fst (g_node G))" unfolding gn keys ..
  then have kset: "fst ` set (g_node ?G') = fst ` set (g_node G)" by (simp only: set_map)
  have 2: "\<forall>m \<in> set es. \<exists>u v. py_get m (ascii ''source'') JNull = Inr (JStr u) \<and>
             py_get m (ascii ''target'') JNull = Inr (JStr v) \<and>
             JStr u \<in> fst ` set (g_node ?G') \<and> JStr v \<in> fst ` set (g_node ?G')"
    unfolding kset using Cons.prems(2) by simp
  from Cons.prems(3) have 3: "distinct (map ?ends es)" by simp
  from Cons.prems(3) have other: "?ends e \<notin> ?ends ` set es" by simp
  have 4: "\<forall>m \<in> set es. \<forall>u' v' d. py_get m (ascii ''source'') JNull = Inr u' \<longrightarrow>
             py_get m (ascii ''target'') JNull = Inr v' \<longrightarrow> (u', v', d) \<notin> set (edges_data ?G')"
  proof (intro ballI allI impI)
    fix m u' v' d
    assume m: "m \<in> set es" and u': "py_get m (ascii ''source'') JNull = Inr u'"
      and v': "py_get m (ascii ''target'') JNull = Inr v'"
    from m have "m \<in> set (e # es)" by simp
    with Cons.prems(4) u' v' have old: "\<And>d. (u', v', d) \<notin> set (edges_data G)" by blast
    have differ: "(u', v') \<noteq> (JStr u, JStr v)"
    proof
      assume "(u', v') = (JStr u, JStr v)"
      with u v u' v' have eq: "?ends e = ?ends m" by simp
      from eq m have "?ends e \<in> ?ends ` set es" by (rule image_eqI)
      with other show False ..
    qed
    show "(u', v', d) \<notin> set (edges_data ?G')"
    proof
      assume "(u', v', d) \<in> set (edges_data ?G')"
      then obtain a' succ' where n': "(u', a', succ') \<in> set ?N'" and s': "(v', d) \<in> set succ'"
        unfolding edges_data_iff by auto
      from n' obtain kn where kn: "kn \<in> set (g_node G)"
        and eq: "(u', a', succ') = (if fst kn = JStr u then (fst kn, a, succ @ [(JStr v, ?attr)]) else kn)"
        by auto
      show False
      proof (cases "fst kn = JStr u")
        case True
        with eq have u'u: "u' = JStr u" and succ': "succ' = succ @ [(JStr v, ?attr)]" by simp_all
        from s' succ' differ u'u have "(v', d) \<in> set succ" by auto
        with mem u'u have "(u', v', d) \<in> set (edges_data G)" unfolding edges_data_iff by blast
        with old show False by blast
      next
        case False
        with eq have "kn = (u', a', succ')" by simp
        with kn s' have "(u', v', d) \<in> set (edges_data G)" unfolding edges_data_iff by blast
        with old show False by blast
      qed
    qed
  qed
  from Cons.IH [OF 1 2 3 4]
  obtain entries where en: "map Inr entries = map edge_entry es"
    and r: "add_edges es ?G' =
      Inr (?G'\<lparr>g_node :=
             map (\<lambda>kn. (fst kn, fst (snd kn),
                        snd (snd kn) @ map snd (filter (\<lambda>x. fst x = fst kn) entries)))
               (g_node ?G')\<rparr>)"
    by blast
  have same: "(\<lambda>kn. (fst kn, fst (snd kn),
                     snd (snd kn) @ map snd (filter (\<lambda>x. fst x = fst kn) entries)))
                (if fst kn = JStr u then (fst kn, a, succ @ [(JStr v, ?attr)]) else kn) =
              (fst kn, fst (snd kn),
               snd (snd kn) @ map snd (filter (\<lambda>x. fst x = fst kn) (?entry # entries)))"
    if "kn \<in> set (g_node G)" for kn
  proof (cases "fst kn = JStr u")
    case True
    with that Cons.prems(1) mem have "kn = (JStr u, a, succ)"
      by (metis eq_key_imp_eq_value prod.collapse)
    then show ?thesis by simp
  next
    case False
    then show ?thesis by auto
  qed
  have final: "map (\<lambda>kn. (fst kn, fst (snd kn),
                        snd (snd kn) @ map snd (filter (\<lambda>x. fst x = fst kn) entries))) ?N' =
      map (\<lambda>kn. (fst kn, fst (snd kn),
                 snd (snd kn) @ map snd (filter (\<lambda>x. fst x = fst kn) (?entry # entries))))
        (g_node G)"
    unfolding map_map comp_def by (rule map_cong [OF refl]) (rule same)
  from en ee have "map Inr (?entry # entries) = map edge_entry (e # es)" by simp
  moreover have "add_edges (e # es) G =
      Inr (G\<lparr>g_node :=
             map (\<lambda>kn. (fst kn, fst (snd kn),
                        snd (snd kn) @ map snd (filter (\<lambda>x. fst x = fst kn) (?entry # entries))))
               (g_node G)\<rparr>)"
  proof -
    have upd: "?G'\<lparr>g_node := X\<rparr> = G\<lparr>g_node := X\<rparr>" for X by simp
    from r have "add_edges es ?G' =
        Inr (G\<lparr>g_node :=
               map (\<lambda>kn. (fst kn, fst (snd kn),
                          snd (snd kn) @ map snd (filter (\<lambda>x. fst x = fst kn) entries))) ?N'\<rparr>)"
      unfolding upd gn .
    then have "add_edges es ?G' =
        Inr (G\<lparr>g_node :=
               map (\<lambda>kn. (fst kn, fst (snd kn),
                          snd (snd kn) @ map snd (filter (\<lambda>x. fst x = fst kn) (?entry # entries))))
                 (g_node G)\<rparr>)"
      unfolding final .
    then show ?thesis by (simp only: add_edges.simps ee ae sum.case prod.case)
  qed
  ultimately show ?case by blast
qed

lemma entries_ids:
  assumes "map Inr entries = map (node_entry env) ns"
    and "\<forall>n \<in> set ns. \<exists>a. py_get n (ascii ''id'') JNull = Inr (JStr a)"
  shows "map (\<lambda>x. Inr (fst x)) entries = map (\<lambda>n. py_get n (ascii ''id'') JNull) ns"
  using assms
proof (induction ns arbitrary: entries)
  case Nil
  then show ?case by simp
next
  case (Cons n ns)
  from Cons.prems(1) obtain x xs where xs: "entries = x # xs" and x: "Inr x = node_entry env n"
    and rest: "map Inr xs = map (node_entry env) ns"
    by (cases entries) auto
  from Cons.prems(2) obtain a where a: "py_get n (ascii ''id'') JNull = Inr (JStr a)" by auto
  then obtain l g t
    where "node_entry env n = Inr (JStr a, [(''label'', l), (''group'', g), (''title'', t)])"
    using string_id_entry by blast
  with x have "fst x = JStr a" by auto
  moreover from Cons.IH [OF rest] Cons.prems(2)
  have "map (\<lambda>x. Inr (fst x)) xs = map (\<lambda>n. py_get n (ascii ''id'') JNull) ns" by simp
  ultimately show ?case using a xs by simp
qed

lemma py_get_string_field:
  "py_get (JObj kvs) k JNull = Inr (JStr a) \<Longrightarrow> map_of kvs k = Some (JStr a)"
  by (auto split: option.splits)

lemma edge_entry_source:
  assumes "edge_entry e = Inr x"
  shows "py_get e (ascii ''source'') JNull = Inr (fst x)"
proof -
  from assms obtain ekvs where e: "e = JObj ekvs"
    by (cases e) (simp_all add: edge_entry_def)
  from assms show ?thesis unfolding e edge_entry_dict by auto
qed

text \<open>The entries with a given source, among the edges computed and among the entries read.\<close>

lemma entries_of_source:
  assumes "map Inr entries = map edge_entry es"
  shows "map Inr (filter (\<lambda>y. fst y = k) entries) =
           map edge_entry (filter (\<lambda>e. py_get e (ascii ''source'') JNull = Inr k) es)"
  using assms
proof (induction es arbitrary: entries)
  case Nil
  then show ?case by simp
next
  case (Cons e es)
  from Cons.prems obtain x xs where xs: "entries = x # xs" and x: "edge_entry e = Inr x"
    and rest: "map Inr xs = map edge_entry es"
    by (cases entries) auto
  from x have "py_get e (ascii ''source'') JNull = Inr (fst x)" by (rule edge_entry_source)
  with Cons.IH [OF rest] x show ?case unfolding xs by simp
qed

lemma map_both:
  assumes "map f xs = map g ys" and "\<And>x y. f x = g y \<Longrightarrow> h x = k y"
  shows "map h xs = map k ys"
  using assms(1)
proof (induction xs arbitrary: ys)
  case Nil
  then show ?case by simp
next
  case (Cons x xs)
  then obtain y ys' where "ys = y # ys'" "f x = g y" "map f xs = map g ys'"
    by (cases ys) auto
  with Cons.IH assms(2) show ?case by simp
qed

lemma length_filter_either:
  assumes "\<And>e. \<not> (P e \<and> Q e)"
  shows "length (filter P es) + length (filter Q es) = length (filter (\<lambda>e. P e \<or> Q e) es)"
  using assms by (induction es) auto

text \<open>Sorting a list by a key that takes each of its values once loses and adds nothing.\<close>

lemma length_concat_filter:
  assumes "distinct (map g ns)"
  shows "length (concat (map (\<lambda>n. filter (\<lambda>e. f e = g n) es) ns)) =
           length (filter (\<lambda>e. f e \<in> g ` set ns) es)"
  using assms
proof (induction ns)
  case Nil
  then show ?case by simp
next
  case (Cons n ns)
  then have "g n \<notin> g ` set ns" by simp
  then have "\<not> (f e = g n \<and> f e \<in> g ` set ns)" for e by auto
  from length_filter_either [of "\<lambda>e. f e = g n" "\<lambda>e. f e \<in> g ` set ns" es, OF this] Cons
  show ?case by simp
qed

lemma length_concat_map_map:
  "length (concat (map (\<lambda>n. map h (F n)) ns)) = length (concat (map F ns))"
  by (induction ns) simp_all

text \<open>\<open>add_edge\<close> finds the node it has just ensured: its \<open>KeyError\<close> is never raised.\<close>

lemma py_eq_refl: "py_eq a a"
  by (cases a) simp_all

lemma dict_lookup_append:
  "dict_lookup same (xs @ ys) =
     (case dict_lookup same xs of None \<Rightarrow> dict_lookup same ys | Some v \<Rightarrow> Some v)"
  by (induction xs) auto

lemma ensure_node_found:
  assumes "ensure_node n G = Inr G'"
  shows "dict_lookup (py_eq n) (g_node G') \<noteq> None"
  using assms
  by (auto simp: ensure_node_def dict_lookup_append py_eq_refl split: if_splits option.splits)

lemma ensure_node_keeps:
  assumes "ensure_node n G = Inr G'" and "dict_lookup same (g_node G) \<noteq> None"
  shows "dict_lookup same (g_node G') \<noteq> None"
  using assms
  by (auto simp: ensure_node_def dict_lookup_append split: if_splits option.splits)

lemma add_edge_no_key_error: "add_edge u v attr G \<noteq> Inl (KeyError m)"
proof (cases "ensure_node u G")
  case (Inl e)
  then have "e \<noteq> KeyError m"
    by (auto simp: ensure_node_def unhashable_def none_node_def split: if_splits option.splits)
  with Inl show ?thesis by (simp add: add_edge_def)
next
  case u: (Inr G1)
  show ?thesis
  proof (cases "ensure_node v G1")
    case (Inl e)
    then have "e \<noteq> KeyError m"
      by (auto simp: ensure_node_def unhashable_def none_node_def split: if_splits option.splits)
    with u Inl show ?thesis by (simp add: add_edge_def)
  next
    case v: (Inr G2)
    from ensure_node_keeps [OF v ensure_node_found [OF u]]
    obtain x where "dict_lookup (py_eq u) (g_node G2) = Some x" by auto
    with u v show ?thesis by (cases x) (simp add: add_edge_def Let_def)
  qed
qed

lemma keys_differ:
  "ascii ''id'' \<noteq> ascii ''label''" "ascii ''id'' \<noteq> ascii ''group''" "ascii ''id'' \<noteq> ascii ''title''"
  "ascii ''label'' \<noteq> ascii ''group''" "ascii ''label'' \<noteq> ascii ''title''"
  "ascii ''group'' \<noteq> ascii ''title''"
  "ascii ''source'' \<noteq> ascii ''target''" "ascii ''source'' \<noteq> ascii ''label''"
  "ascii ''source'' \<noteq> ascii ''title''" "ascii ''source'' \<noteq> ascii ''confidence_score''"
  "ascii ''target'' \<noteq> ascii ''label''" "ascii ''target'' \<noteq> ascii ''title''"
  "ascii ''target'' \<noteq> ascii ''confidence_score''"
  "ascii ''label'' \<noteq> ascii ''confidence_score''" "ascii ''title'' \<noteq> ascii ''confidence_score''"
  "ascii ''nodes'' \<noteq> ascii ''edges''" "ascii ''nodes'' \<noteq> ascii ''error''"
  "ascii ''edges'' \<noteq> ascii ''error''"
  "ascii ''t.a'' \<noteq> ascii ''t.b''" "ascii ''t.a'' \<noteq> ascii ''t.z''"
  by (simp_all add: ascii_def)

text \<open>
  C1 (as amended). Take a response dict with a list under \<open>nodes\<close> and a list (or
  nothing) under \<open>edges\<close>, in which every node entry has a string as its \<open>id\<close>, no two
  entries have the same id, every edge entry has strings as \<open>source\<close> and \<open>target\<close>
  that are ids of node entries, and no two edge entries have the same source and target.
  Then the graph is built. It has one node per node entry, in the order of the entries, and
  the node of an entry has the entry's id, label and group (or their defaults): the nodes
  with their attributes are what \<open>node_entry\<close> computes from the entries. It has one edge
  per edge entry: as many edges as entries, and for every entry an edge with the entry's
  source, target and label and without a \<open>confidence_score\<close>. The graph lists its edges
  node by node, in the order of the nodes, and the edges that leave one node in the order of
  their entries. When the dict has no truthy \<open>error\<close>, this graph is the one handed to
  \<open>pyvis\<close> and drawn.
\<close>

theorem build_graph_one_per_element:
  assumes nodes: "map_of kvs (ascii ''nodes'') = Some (JArr ns)"
    and edges: "(case map_of kvs (ascii ''edges'') of None \<Rightarrow> JArr [] | Some v \<Rightarrow> v) = JArr es"
    and ids: "\<forall>n \<in> set ns. \<exists>a. py_get n (ascii ''id'') JNull = Inr (JStr a)"
    and distinct_ids: "distinct (map (\<lambda>n. py_get n (ascii ''id'') JNull) ns)"
    and ends: "\<forall>e \<in> set es. \<exists>u v. py_get e (ascii ''source'') JNull = Inr (JStr u) \<and>
             py_get e (ascii ''target'') JNull = Inr (JStr v) \<and>
             Inr (JStr u) \<in> (\<lambda>n. py_get n (ascii ''id'') JNull) ` set ns \<and>
             Inr (JStr v) \<in> (\<lambda>n. py_get n (ascii ''id'') JNull) ` set ns"
    and distinct_ends:
      "distinct (map (\<lambda>e. (py_get e (ascii ''source'') JNull, py_get e (ascii ''target'') JNull)) es)"
  shows
    "\<exists>G. build_graph env (JObj kvs) = Inr G \<and>
       length (nodes_data G) = length ns \<and> length (edges_data G) = length es \<and>
       map Inr (nodes_data G) = map (node_entry env) ns \<and>
       map Inr (edges_data G) =
         concat (map (\<lambda>n. map edge_entry
                            (filter (\<lambda>e. py_get e (ascii ''source'') JNull =
                                         py_get n (ascii ''id'') JNull) es)) ns) \<and>
       (\<forall>i < length ns. \<forall>nkvs. ns ! i = JObj nkvs \<longrightarrow>
          map_of nkvs (ascii ''id'') = Some (fst (nodes_data G ! i)) \<and>
          map_of (snd (nodes_data G ! i)) ''label'' =
            Some (case map_of nkvs (ascii ''label'') of None \<Rightarrow> fst (nodes_data G ! i) | Some v \<Rightarrow> v) \<and>
          map_of (snd (nodes_data G ! i)) ''group'' =
            Some (case map_of nkvs (ascii ''group'') of None \<Rightarrow> JStr (ascii ''unknown'') | Some v \<Rightarrow> v)) \<and>
       (\<forall>j < length es. \<forall>ekvs. es ! j = JObj ekvs \<longrightarrow>
          (\<exists>u v d. (u, v, d) \<in> set (edges_data G) \<and>
             map_of ekvs (ascii ''source'') = Some u \<and>
             map_of ekvs (ascii ''target'') = Some v \<and>
             map_of d ''label'' =
               Some (case map_of ekvs (ascii ''label'') of None \<Rightarrow> JStr [] | Some v \<Rightarrow> v) \<and>
             map_of d ''confidence_score'' = None)) \<and>
       (\<not> truthy (case map_of kvs (ascii ''error'') of None \<Rightarrow> JNull | Some v \<Rightarrow> v) \<longrightarrow>
          render_lineage_graph env (JObj kvs) =
            (case pyvis_html env G of
               Inl e \<Rightarrow> ([Subheader graph_subheader, Error (graph_render_error e),
                          Info graph_render_hint, Show_Exception e], None)
             | Inr html_content \<Rightarrow>
                 (case encode_utf8 html_content of
                    Inl e \<Rightarrow> ([Subheader graph_subheader, Error (graph_render_error e),
                               Info graph_render_hint, Show_Exception e], None)
                  | Inr html_bytes \<Rightarrow> ([Subheader graph_subheader, Iframe G html_content], None))))"
proof -
  let ?id = "\<lambda>n. py_get n (ascii ''id'') JNull"
  let ?src = "\<lambda>e. py_get e (ascii ''source'') JNull"
  have "\<forall>n \<in> set ns. ?id n \<notin> Inr ` fst ` set (g_node empty_graph)"
    by (simp add: empty_graph_def)
  from add_nodes_strings [OF ids distinct_ids this, of env]
  obtain entries where en: "map Inr entries = map (node_entry env) ns"
    and an: "add_nodes env ns empty_graph =
      Inr (empty_graph\<lparr>g_node := g_node empty_graph @ map (\<lambda>x. (fst x, snd x, [])) entries\<rparr>)"
    by blast
  let ?N1 = "map (\<lambda>x. (fst x, snd x, [])) entries"
  let ?G1 = "\<lparr>g_node = ?N1\<rparr>"
  from an have an': "add_nodes env ns empty_graph = Inr ?G1" by (simp add: empty_graph_def)
  from entries_ids [OF en ids] have eids: "map (\<lambda>x. Inr (fst x)) entries = map ?id ns" .
  have keys1: "map fst ?N1 = map fst entries" by (simp add: comp_def)
  have "map Inr (map fst entries) = map ?id ns" using eids by (simp add: comp_def)
  with distinct_ids have "distinct (map Inr (map fst entries) :: (py_exception + json) list)" by simp
  then have de: "distinct (map fst entries)" unfolding distinct_map by simp
  have gn1: "g_node ?G1 = ?N1" by simp
  have d1: "distinct (map fst (g_node ?G1))" unfolding gn1 keys1 by (rule de)
  have present: "k \<in> fst ` set (g_node ?G1)" if "Inr k \<in> ?id ` set ns" for k
  proof -
    from that have "Inr k \<in> set (map ?id ns)" by simp
    then have "k \<in> set (map fst entries)" unfolding eids [symmetric] by auto
    then have "k \<in> set (map fst (g_node ?G1))" unfolding gn1 keys1 .
    then show ?thesis by (simp only: set_map)
  qed
  have e1: "\<forall>e \<in> set es. \<exists>u v. py_get e (ascii ''source'') JNull = Inr (JStr u) \<and>
             py_get e (ascii ''target'') JNull = Inr (JStr v) \<and>
             JStr u \<in> fst ` set (g_node ?G1) \<and> JStr v \<in> fst ` set (g_node ?G1)"
  proof
    fix e assume "e \<in> set es"
    with ends obtain u v where "py_get e (ascii ''source'') JNull = Inr (JStr u)"
      "py_get e (ascii ''target'') JNull = Inr (JStr v)"
      "Inr (JStr u) \<in> ?id ` set ns" "Inr (JStr v) \<in> ?id ` set ns"
      by blast
    with present [of "JStr u"] present [of "JStr v"]
    show "\<exists>u v. py_get e (ascii ''source'') JNull = Inr (JStr u) \<and>
             py_get e (ascii ''target'') JNull = Inr (JStr v) \<and>
             JStr u \<in> fst ` set (g_node ?G1) \<and> JStr v \<in> fst ` set (g_node ?G1)"
      by blast
  qed
  have "edges_data ?G1 = []" by (simp add: edges_data_def comp_def)
  then have e3: "\<forall>e \<in> set es. \<forall>u v d. py_get e (ascii ''source'') JNull = Inr u \<longrightarrow>
             py_get e (ascii ''target'') JNull = Inr v \<longrightarrow> (u, v, d) \<notin> set (edges_data ?G1)"
    by simp
  from add_edges_strings [OF d1 e1 distinct_ends e3]
  obtain eentries
    where een: "map Inr eentries = map edge_entry es"
    and ae: "add_edges es ?G1 =
      Inr (?G1\<lparr>g_node :=
             map (\<lambda>kn. (fst kn, fst (snd kn),
                        snd (snd kn) @ map snd (filter (\<lambda>x. fst x = fst kn) eentries)))
               (g_node ?G1)\<rparr>)"
    by blast
  let ?G = "\<lparr>g_node = map (\<lambda>x. (fst x, snd x, map snd (filter (\<lambda>y. fst y = fst x) eentries))) entries\<rparr>"
  from ae have ae': "add_edges es ?G1 = Inr ?G" by (simp add: comp_def)
  from nodes edges an' ae' have built: "build_graph env (JObj kvs) = Inr ?G"
    by (simp add: build_graph_def)
  have nd: "nodes_data ?G = entries" by (simp add: nodes_data_def comp_def)
  have "map (\<lambda>(v, d). (k, v, d)) (map snd (filter (\<lambda>y. fst y = k) eentries)) =
      filter (\<lambda>y. fst y = k) eentries" for k
    by (induction eentries) auto
  then have ed: "edges_data ?G = concat (map (\<lambda>x. filter (\<lambda>y. fst y = fst x) eentries) entries)"
    by (simp add: edges_data_def comp_def)
  have "map (\<lambda>x. map Inr (filter (\<lambda>y. fst y = fst x) eentries)) entries =
      map (\<lambda>n. map edge_entry (filter (\<lambda>e. ?src e = ?id n) es)) ns"
  proof (rule map_both [OF eids])
    fix x n assume "Inr (fst x) = ?id n"
    then have "?id n = Inr (fst x)" by simp
    then show "map Inr (filter (\<lambda>y. fst y = fst x) eentries) =
        map edge_entry (filter (\<lambda>e. ?src e = ?id n) es)"
      using entries_of_source [OF een, of "fst x"] by simp
  qed
  then have order: "map Inr (edges_data ?G) =
      concat (map (\<lambda>n. map edge_entry (filter (\<lambda>e. ?src e = ?id n) es)) ns)"
    unfolding ed map_concat map_map comp_def by (rule arg_cong [where f = concat])
  from arg_cong [OF en, of length] have ln: "length entries = length ns" by simp
  have "\<forall>e \<in> set es. ?src e \<in> ?id ` set ns" using ends by metis
  then have all: "filter (\<lambda>e. ?src e \<in> ?id ` set ns) es = es" by simp
  from arg_cong [OF order, of length]
  have "length (edges_data ?G) = length (concat (map (\<lambda>n. filter (\<lambda>e. ?src e = ?id n) es) ns))"
    unfolding length_concat_map_map by simp
  then have le: "length (edges_data ?G) = length es"
    unfolding length_concat_filter [OF distinct_ids] all .
  have node_attrs: "map_of nkvs (ascii ''id'') = Some (fst (entries ! i)) \<and>
          map_of (snd (entries ! i)) ''label'' =
            Some (case map_of nkvs (ascii ''label'') of None \<Rightarrow> fst (entries ! i) | Some v \<Rightarrow> v) \<and>
          map_of (snd (entries ! i)) ''group'' =
            Some (case map_of nkvs (ascii ''group'') of None \<Rightarrow> JStr (ascii ''unknown'') | Some v \<Rightarrow> v)"
    if i: "i < length ns" and n: "ns ! i = JObj nkvs" for i nkvs
  proof -
    from i have "ns ! i \<in> set ns" by simp
    with ids obtain a where "py_get (ns ! i) (ascii ''id'') JNull = Inr (JStr a)" by blast
    then have a: "map_of nkvs (ascii ''id'') = Some (JStr a)"
      unfolding n by (rule py_get_string_field)
    from en have "map Inr entries ! i = map (node_entry env) ns ! i" by simp
    with i ln have "Inr (entries ! i) = node_entry env (ns ! i)" by simp
    then have "Inr (entries ! i) = node_entry env (JObj nkvs)" unfolding n .
    then show ?thesis unfolding node_entry_dict a by (auto split: option.splits)
  qed
  have edge_attrs: "\<exists>u v d. (u, v, d) \<in> set (edges_data ?G) \<and>
             map_of ekvs (ascii ''source'') = Some u \<and>
             map_of ekvs (ascii ''target'') = Some v \<and>
             map_of d ''label'' =
               Some (case map_of ekvs (ascii ''label'') of None \<Rightarrow> JStr [] | Some v \<Rightarrow> v) \<and>
             map_of d ''confidence_score'' = None"
    if j: "j < length es" and e: "es ! j = JObj ekvs" for j ekvs
  proof -
    from j have mem: "es ! j \<in> set es" by simp
    with ends obtain u v where pu: "py_get (es ! j) (ascii ''source'') JNull = Inr (JStr u)"
      and pv: "py_get (es ! j) (ascii ''target'') JNull = Inr (JStr v)"
      and known: "Inr (JStr u) \<in> ?id ` set ns"
      by blast
    from pu have u: "map_of ekvs (ascii ''source'') = Some (JStr u)"
      unfolding e by (rule py_get_string_field)
    from pv have v: "map_of ekvs (ascii ''target'') = Some (JStr v)"
      unfolding e by (rule py_get_string_field)
    let ?d = "[(''title'', JStr (json_dumps None
              (case map_of ekvs (ascii ''title'') of
                 None \<Rightarrow> (case map_of ekvs (ascii ''label'') of None \<Rightarrow> JStr [] | Some v \<Rightarrow> v)
               | Some v \<Rightarrow> v))),
           (''label'', case map_of ekvs (ascii ''label'') of None \<Rightarrow> JStr [] | Some v \<Rightarrow> v)]"
    have ee: "edge_entry (es ! j) = Inr (JStr u, JStr v, ?d)"
      unfolding e edge_entry_dict u v by simp
    from known obtain n where n: "n \<in> set ns" and idn: "?id n = Inr (JStr u)" by auto
    from mem pu idn have "es ! j \<in> set (filter (\<lambda>e. ?src e = ?id n) es)" by simp
    then have "edge_entry (es ! j) \<in> set (map edge_entry (filter (\<lambda>e. ?src e = ?id n) es))"
      unfolding set_map by (rule imageI)
    with n have "edge_entry (es ! j) \<in>
        set (concat (map (\<lambda>n. map edge_entry (filter (\<lambda>e. ?src e = ?id n) es)) ns))"
      unfolding set_concat by (intro UN_I [of "map edge_entry (filter (\<lambda>e. ?src e = ?id n) es)"]) simp_all
    then have "edge_entry (es ! j) \<in> set (map Inr (edges_data ?G))"
      unfolding order .
    then have "(JStr u, JStr v, ?d) \<in> set (edges_data ?G)" unfolding ee by auto
    with u v show ?thesis by (intro exI [of _ "JStr u"] exI [of _ "JStr v"] exI [of _ ?d]) simp
  qed
  have drawn: "render_lineage_graph env (JObj kvs) =
            (case pyvis_html env ?G of
               Inl e \<Rightarrow> ([Subheader graph_subheader, Error (graph_render_error e),
                          Info graph_render_hint, Show_Exception e], None)
             | Inr html_content \<Rightarrow>
                 (case encode_utf8 html_content of
                    Inl e \<Rightarrow> ([Subheader graph_subheader, Error (graph_render_error e),
                               Info graph_render_hint, Show_Exception e], None)
                  | Inr html_bytes \<Rightarrow> ([Subheader graph_subheader, Iframe ?G html_content], None)))"
    if "\<not> truthy (case map_of kvs (ascii ''error'') of None \<Rightarrow> JNull | Some v \<Rightarrow> v)"
  proof -
    from nodes have "kvs \<noteq> []" by auto
    with that nodes built show ?thesis
      by (simp add: render_lineage_graph_def split: sum.splits)
  qed
  have nodes_ok: "map Inr (nodes_data ?G) = map (node_entry env) ns" unfolding nd by (rule en)
  have ln': "length (nodes_data ?G) = length ns" unfolding nd by (rule ln)
  show ?thesis
  proof (intro exI [of _ ?G] conjI)
    show "build_graph env (JObj kvs) = Inr ?G" by (rule built)
    show "length (nodes_data ?G) = length ns" by (rule ln')
    show "length (edges_data ?G) = length es" by (rule le)
    show "map Inr (nodes_data ?G) = map (node_entry env) ns" by (rule nodes_ok)
    show "map Inr (edges_data ?G) =
      concat (map (\<lambda>n. map edge_entry (filter (\<lambda>e. ?src e = ?id n) es)) ns)" by (rule order)
    show "\<forall>i < length ns. \<forall>nkvs. ns ! i = JObj nkvs \<longrightarrow>
          map_of nkvs (ascii ''id'') = Some (fst (nodes_data ?G ! i)) \<and>
          map_of (snd (nodes_data ?G ! i)) ''label'' =
            Some (case map_of nkvs (ascii ''label'') of None \<Rightarrow> fst (nodes_data ?G ! i) | Some v \<Rightarrow> v) \<and>
          map_of (snd (nodes_data ?G ! i)) ''group'' =
            Some (case map_of nkvs (ascii ''group'') of None \<Rightarrow> JStr (ascii ''unknown'') | Some v \<Rightarrow> v)"
      unfolding nd using node_attrs by blast
    show "\<forall>j < length es. \<forall>ekvs. es ! j = JObj ekvs \<longrightarrow>
          (\<exists>u v d. (u, v, d) \<in> set (edges_data ?G) \<and>
             map_of ekvs (ascii ''source'') = Some u \<and>
             map_of ekvs (ascii ''target'') = Some v \<and>
             map_of d ''label'' =
               Some (case map_of ekvs (ascii ''label'') of None \<Rightarrow> JStr [] | Some v \<Rightarrow> v) \<and>
             map_of d ''confidence_score'' = None)"
      using edge_attrs by blast
    show "\<not> truthy (case map_of kvs (ascii ''error'') of None \<Rightarrow> JNull | Some v \<Rightarrow> v) \<longrightarrow>
          render_lineage_graph env (JObj kvs) =
            (case pyvis_html env ?G of
               Inl e \<Rightarrow> ([Subheader graph_subheader, Error (graph_render_error e),
                          Info graph_render_hint, Show_Exception e], None)
             | Inr html_content \<Rightarrow>
                 (case encode_utf8 html_content of
                    Inl e \<Rightarrow> ([Subheader graph_subheader, Error (graph_render_error e),
                               Info graph_render_hint, Show_Exception e], None)
                  | Inr html_bytes \<Rightarrow> ([Subheader graph_subheader, Iframe ?G html_content], None)))"
      using drawn by blast
  qed
qed

theorem build_graph_one_per_element_witness:
  "\<exists>G. build_graph quiet_environment there_and_back = Inr G \<and>
     length (nodes_data G) = 2 \<and>
     fst (nodes_data G ! 0) = jstr ''t.a'' \<and> fst (nodes_data G ! 1) = jstr ''t.b'' \<and>
     map_of (snd (nodes_data G ! 1)) ''label'' = Some (jstr ''b'') \<and>
     map_of (snd (nodes_data G ! 1)) ''group'' = Some (jstr ''column'') \<and>
     edges_data G =
       [(jstr ''t.a'', jstr ''t.b'',
         [(''title'', JStr (json_dumps None (jstr ''FLOWS_TO''))), (''label'', jstr ''FLOWS_TO'')]),
        (jstr ''t.b'', jstr ''t.a'',
         [(''title'', JStr (json_dumps None (jstr ''CONSUMES''))), (''label'', jstr ''CONSUMES'')])] \<and>
     render_lineage_graph quiet_environment there_and_back =
       ([Subheader graph_subheader, Iframe G []], None)"
proof -
  let ?a = "[(ascii ''id'', jstr ''t.a''), (ascii ''label'', jstr ''a''), (ascii ''group'', jstr ''column'')]"
  let ?b = "[(ascii ''id'', jstr ''t.b''), (ascii ''label'', jstr ''b''), (ascii ''group'', jstr ''column'')]"
  let ?e1 = "[(ascii ''source'', jstr ''t.b''), (ascii ''target'', jstr ''t.a''),
              (ascii ''label'', jstr ''CONSUMES'')]"
  let ?e2 = "[(ascii ''source'', jstr ''t.a''), (ascii ''target'', jstr ''t.b''),
              (ascii ''label'', jstr ''FLOWS_TO''), (ascii ''confidence_score'', JInt 5)]"
  let ?ns = "[JObj ?a, JObj ?b]"
  let ?es = "[JObj ?e1, JObj ?e2]"
  let ?kvs = "[(ascii ''nodes'', JArr ?ns), (ascii ''edges'', JArr ?es)]"
  let ?id = "\<lambda>n. py_get n (ascii ''id'') JNull"
  let ?src = "\<lambda>e. py_get e (ascii ''source'') JNull"
  let ?tgt = "\<lambda>e. py_get e (ascii ''target'') JNull"
  note k = keys_differ keys_differ [symmetric]
  have d: "there_and_back = JObj ?kvs" by (simp add: there_and_back_def jobj_def)
  have ia: "?id (JObj ?a) = Inr (JStr (ascii ''t.a''))" by (simp add: jstr_def)
  have ib: "?id (JObj ?b) = Inr (JStr (ascii ''t.b''))" by (simp add: jstr_def)
  have s1: "?src (JObj ?e1) = Inr (JStr (ascii ''t.b''))" by (simp add: jstr_def)
  have t1: "?tgt (JObj ?e1) = Inr (JStr (ascii ''t.a''))" using k by (simp add: jstr_def)
  have s2: "?src (JObj ?e2) = Inr (JStr (ascii ''t.a''))" by (simp add: jstr_def)
  have t2: "?tgt (JObj ?e2) = Inr (JStr (ascii ''t.b''))" using k by (simp add: jstr_def)
  have nodes: "map_of ?kvs (ascii ''nodes'') = Some (JArr ?ns)" by simp
  have edges: "(case map_of ?kvs (ascii ''edges'') of None \<Rightarrow> JArr [] | Some v \<Rightarrow> v) = JArr ?es"
    using k by simp
  have ids: "\<forall>n \<in> set ?ns. \<exists>a. ?id n = Inr (JStr a)"
    unfolding list.set using ia ib by blast
  have distinct_ids: "distinct (map ?id ?ns)"
    unfolding list.map ia ib using k by simp
  have ends: "\<forall>e \<in> set ?es. \<exists>u v. ?src e = Inr (JStr u) \<and> ?tgt e = Inr (JStr v) \<and>
             Inr (JStr u) \<in> ?id ` set ?ns \<and> Inr (JStr v) \<in> ?id ` set ?ns"
    using k by (simp add: jstr_def)
  have distinct_ends: "distinct (map (\<lambda>e. (?src e, ?tgt e)) ?es)"
    unfolding list.map s1 t1 s2 t2 using k by simp
  have no_error: "\<not> truthy (case map_of ?kvs (ascii ''error'') of None \<Rightarrow> JNull | Some v \<Rightarrow> v)"
    using k by simp
  from build_graph_one_per_element [OF nodes edges ids distinct_ids ends distinct_ends,
      of quiet_environment]
  obtain G where b: "build_graph quiet_environment (JObj ?kvs) = Inr G"
    and ln: "length (nodes_data G) = length ?ns"
    and le: "length (edges_data G) = length ?es"
    and nd: "map Inr (nodes_data G) = map (node_entry quiet_environment) ?ns"
    and ed: "map Inr (edges_data G) =
         concat (map (\<lambda>n. map edge_entry (filter (\<lambda>e. ?src e = ?id n) ?es)) ?ns)"
    and na: "\<forall>i < length ?ns. \<forall>nkvs. ?ns ! i = JObj nkvs \<longrightarrow>
          map_of nkvs (ascii ''id'') = Some (fst (nodes_data G ! i)) \<and>
          map_of (snd (nodes_data G ! i)) ''label'' =
            Some (case map_of nkvs (ascii ''label'') of None \<Rightarrow> fst (nodes_data G ! i) | Some v \<Rightarrow> v) \<and>
          map_of (snd (nodes_data G ! i)) ''group'' =
            Some (case map_of nkvs (ascii ''group'') of None \<Rightarrow> JStr (ascii ''unknown'') | Some v \<Rightarrow> v)"
    and dr: "\<not> truthy (case map_of ?kvs (ascii ''error'') of None \<Rightarrow> JNull | Some v \<Rightarrow> v) \<longrightarrow>
          render_lineage_graph quiet_environment (JObj ?kvs) =
            (case pyvis_html quiet_environment G of
               Inl e \<Rightarrow> ([Subheader graph_subheader, Error (graph_render_error e),
                          Info graph_render_hint, Show_Exception e], None)
             | Inr html_content \<Rightarrow>
                 (case encode_utf8 html_content of
                    Inl e \<Rightarrow> ([Subheader graph_subheader, Error (graph_render_error e),
                               Info graph_render_hint, Show_Exception e], None)
                  | Inr html_bytes \<Rightarrow> ([Subheader graph_subheader, Iframe G html_content], None)))"
    by (elim exE conjE) (rule that; assumption)
  from na [rule_format, of 0 ?a]
  have n0: "fst (nodes_data G ! 0) = jstr ''t.a''"
    by simp
  from na [rule_format, of 1 ?b] k
  have n1: "fst (nodes_data G ! 1) = jstr ''t.b'' \<and>
     map_of (snd (nodes_data G ! 1)) ''label'' = Some (jstr ''b'') \<and>
     map_of (snd (nodes_data G ! 1)) ''group'' = Some (jstr ''column'')"
    by simp
  have f1: "filter (\<lambda>e. ?src e = ?id (JObj ?a)) ?es = [JObj ?e2]"
    unfolding filter.simps s1 s2 ia using k by simp
  have f2: "filter (\<lambda>e. ?src e = ?id (JObj ?b)) ?es = [JObj ?e1]"
    unfolding filter.simps s1 s2 ib using k by simp
  have x1: "edge_entry (JObj ?e1) =
      Inr (jstr ''t.b'', jstr ''t.a'',
           [(''title'', JStr (json_dumps None (jstr ''CONSUMES''))), (''label'', jstr ''CONSUMES'')])"
    unfolding edge_entry_dict using k by simp
  have x2: "edge_entry (JObj ?e2) =
      Inr (jstr ''t.a'', jstr ''t.b'',
           [(''title'', JStr (json_dumps None (jstr ''FLOWS_TO''))), (''label'', jstr ''FLOWS_TO'')])"
    unfolding edge_entry_dict using k by simp
  from ed have "(map Inr (edges_data G) :: (py_exception + json \<times> json \<times> attrs) list) =
      map Inr [(jstr ''t.a'', jstr ''t.b'',
         [(''title'', JStr (json_dumps None (jstr ''FLOWS_TO''))), (''label'', jstr ''FLOWS_TO'')]),
        (jstr ''t.b'', jstr ''t.a'',
         [(''title'', JStr (json_dumps None (jstr ''CONSUMES''))), (''label'', jstr ''CONSUMES'')])]"
    unfolding list.map concat.simps f1 f2 x1 x2 by simp
  then have e0: "edges_data G =
       [(jstr ''t.a'', jstr ''t.b'',
         [(''title'', JStr (json_dumps None (jstr ''FLOWS_TO''))), (''label'', jstr ''FLOWS_TO'')]),
        (jstr ''t.b'', jstr ''t.a'',
         [(''title'', JStr (json_dumps None (jstr ''CONSUMES''))), (''label'', jstr ''CONSUMES'')])]"
    by (simp only: inj_map_eq_map [OF inj_Inr])
  from dr no_error
  have "render_lineage_graph quiet_environment (JObj ?kvs) = ([Subheader graph_subheader, Iframe G []], None)"
    by (simp add: quiet_environment_def encode_utf8_def)
  with b ln n0 n1 e0 show ?thesis unfolding d by (intro exI [of _ G]) simp
qed

text \<open>
  Three responses for which the claim as it was written fails: an edge entry with a
  \<open>confidence_score\<close>, which the edge of the graph does not have; two node entries and
  two edge entries that give one node and one edge; and one node entry that gives two
  nodes, the second for the target of an edge that no node entry names.
\<close>

theorem build_graph_not_one_per_element:
  "py_get a_flows_to_b (ascii ''edges'') JNull =
     Inr (JArr [jobj [(''source'', jstr ''t.a''), (''target'', jstr ''t.b''),
                      (''label'', jstr ''FLOWS_TO''), (''confidence_score'', JInt 5)]]) \<and>
   build_graph quiet_environment a_flows_to_b =
     Inr \<lparr>g_node =
            [(jstr ''t.a'',
              [(''label'', jstr ''a''), (''group'', jstr ''column''),
               (''title'', JStr (json_dumps None
                  (JStr (default_title quiet_environment (jstr ''t.a'') (jstr ''column'')))))],
              [(jstr ''t.b'',
                [(''title'', JStr (json_dumps None (jstr ''FLOWS_TO''))),
                 (''label'', jstr ''FLOWS_TO'')])]),
             (jstr ''t.b'',
              [(''label'', jstr ''b''), (''group'', jstr ''column''),
               (''title'', JStr (json_dumps None
                  (JStr (default_title quiet_environment (jstr ''t.b'') (jstr ''column'')))))],
              [])]\<rparr> \<and>
   py_get named_twice (ascii ''nodes'') JNull =
     Inr (JArr [jobj [(''id'', jstr ''t.a''), (''label'', jstr ''first''), (''group'', jstr ''column'')],
                jobj [(''id'', jstr ''t.a''), (''label'', jstr ''second''), (''group'', jstr ''table'')]]) \<and>
   py_get named_twice (ascii ''edges'') JNull =
     Inr (JArr [jobj [(''source'', jstr ''t.a''), (''target'', jstr ''t.a''),
                      (''label'', jstr ''FLOWS_TO'')],
                jobj [(''source'', jstr ''t.a''), (''target'', jstr ''t.a''),
                      (''label'', jstr ''PRODUCES'')]]) \<and>
   build_graph quiet_environment named_twice =
     Inr \<lparr>g_node =
            [(jstr ''t.a'',
              [(''label'', jstr ''second''), (''group'', jstr ''table''),
               (''title'', JStr (json_dumps None
                  (JStr (default_title quiet_environment (jstr ''t.a'') (jstr ''table'')))))],
              [(jstr ''t.a'',
                [(''title'', JStr (json_dumps None (jstr ''PRODUCES''))),
                 (''label'', jstr ''PRODUCES'')])])]\<rparr> \<and>
   py_get dangling_edge (ascii ''nodes'') JNull =
     Inr (JArr [jobj [(''id'', jstr ''t.a''), (''label'', jstr ''a''), (''group'', jstr ''column'')]]) \<and>
   build_graph quiet_environment dangling_edge =
     Inr \<lparr>g_node =
            [(jstr ''t.a'',
              [(''label'', jstr ''a''), (''group'', jstr ''column''),
               (''title'', JStr (json_dumps None
                  (JStr (default_title quiet_environment (jstr ''t.a'') (jstr ''column'')))))],
              [(jstr ''t.z'',
                [(''title'', JStr (json_dumps None (jstr ''FLOWS_TO''))),
                 (''label'', jstr ''FLOWS_TO'')])]),
             (jstr ''t.z'', [], [])]\<rparr>"
  using keys_differ keys_differ [symmetric]
  by (simp add: build_graph_def a_flows_to_b_def named_twice_def dangling_edge_def jobj_def jstr_def
      node_entry_def edge_entry_def add_node_def add_edge_def ensure_node_def attr_update_def
      empty_graph_def)

section \<open>The JSON export, read back\<close>

subsection \<open>Strings\<close>

lemma hex_value_digit: "d < 16 \<Longrightarrow> hex_value (hex_digit d) = Some d"
  by (auto simp: hex_value_def hex_digit_def)

lemma four_hex_digits:
  assumes "n < 65536"
  shows "n div 4096 * 4096 + n div 256 mod 16 * 256 + n div 16 mod 16 * 16 + n mod 16 = (n::nat)"
proof -
  define a where "a = n div 4096"
  define b where "b = n div 256 mod 16"
  define c where "c = n div 16 mod 16"
  define d where "d = n mod 16"
  have 1: "n = n div 16 * 16 + d" unfolding d_def by simp
  have "n div 16 div 16 = n div 256" by (simp add: div_mult2_eq [symmetric])
  then have 2: "n div 16 = n div 256 * 16 + c"
    unfolding c_def using div_mult_mod_eq [of "n div 16" 16] by simp
  have "n div 256 div 16 = n div 4096" by (simp add: div_mult2_eq [symmetric])
  then have 3: "n div 256 = a * 16 + b"
    unfolding a_def b_def using div_mult_mod_eq [of "n div 256" 16] by simp
  have "a * 4096 + b * 256 + c * 16 + d = n"
    using 1 2 3 by simp
  then show ?thesis unfolding a_def b_def c_def d_def .
qed

lemma decode_u_escape:
  assumes "n < 65536"
  shows "\<exists>h. u_escape n = 92 # 117 # h \<and> decode_uXXXX (h @ rest) = Some (n, rest)"
proof -
  from assms have "n div 4096 < 16" by simp
  then have a: "n div 4096 mod 16 = n div 4096"
    and h: "hex_value (hex_digit (n div 4096)) = Some (n div 4096)"
    by (simp_all add: hex_value_digit)
  have m: "hex_value (hex_digit (k mod 16)) = Some (k mod 16)" for k
    by (simp add: hex_value_digit)
  from four_hex_digits [OF assms] show ?thesis
    by (simp add: u_escape_def decode_uXXXX_def a h m)
qed

lemma scan_quote: "scan_string (34 # cs) = Some ([], cs)"
  by (subst scan_string.simps) simp

lemma scan_plain:
  "c \<noteq> 34 \<Longrightarrow> c \<noteq> 92 \<Longrightarrow> 32 \<le> c \<Longrightarrow> scan_string (c # cs) = cons_char c (scan_string cs)"
  by (subst scan_string.simps) simp

lemma scan_simple_escape:
  "e \<noteq> 117 \<Longrightarrow> unescape e = Some ch \<Longrightarrow> scan_string (92 # e # cs) = cons_char ch (scan_string cs)"
  by (subst scan_string.simps) simp

lemma scan_u_single:
  "decode_uXXXX cs1 = Some (uni, cs2) \<Longrightarrow>
   \<not> (0xD800 \<le> uni \<and> uni \<le> 0xDBFF \<and> take 2 cs2 = [92, 117]) \<Longrightarrow>
   scan_string (92 # 117 # cs1) = cons_char uni (scan_string cs2)"
  by (subst scan_string.simps) auto

lemma scan_u_pair:
  "decode_uXXXX cs1 = Some (uni, cs2) \<Longrightarrow> 0xD800 \<le> uni \<Longrightarrow> uni \<le> 0xDBFF \<Longrightarrow>
   take 2 cs2 = [92, 117] \<Longrightarrow> decode_uXXXX (drop 2 cs2) = Some (uni2, cs3) \<Longrightarrow>
   0xDC00 \<le> uni2 \<Longrightarrow> uni2 \<le> 0xDFFF \<Longrightarrow>
   scan_string (92 # 117 # cs1) =
     cons_char (0x10000 + (uni - 0xD800) * 1024 + (uni2 - 0xDC00)) (scan_string cs3)"
  by (subst scan_string.simps) simp

lemma scan_u_unpaired:
  "decode_uXXXX cs1 = Some (uni, cs2) \<Longrightarrow>
   take 2 cs2 = [92, 117] \<Longrightarrow> decode_uXXXX (drop 2 cs2) = Some (uni2, cs3) \<Longrightarrow>
   \<not> (0xDC00 \<le> uni2 \<and> uni2 \<le> 0xDFFF) \<Longrightarrow>
   scan_string (92 # 117 # cs1) = cons_char uni (scan_string cs2)"
  by (subst scan_string.simps) auto

lemma cons_char_Some [simp]: "cons_char c (Some (s, r)) = Some (c # s, r)"
  by (simp add: cons_char_def)

lemma u_escape_shape: "\<exists>a b c d. u_escape n = [92, 117, a, b, c, d]"
  by (simp add: u_escape_def)

lemma escape_char_cases:
  "escape_char c = [92, 92] \<or> escape_char c = [92, 34] \<or> escape_char c = [92, 98] \<or>
   escape_char c = [92, 102] \<or> escape_char c = [92, 110] \<or> escape_char c = [92, 114] \<or>
   escape_char c = [92, 116] \<or> (escape_char c = [c] \<and> c \<noteq> 92) \<or>
   (c < 0x10000 \<and> escape_char c = u_escape c) \<or>
   (0x10000 \<le> c \<and>
    escape_char c = u_escape (0xD800 + (c - 0x10000) div 1024 mod 1024) @
                    u_escape (0xDC00 + (c - 0x10000) mod 1024))"
  by (auto simp: escape_char_def)

text \<open>What follows a \<open>\u\<close> escape in an encoded string, when it is another \<open>\u\<close> escape.\<close>

lemma following_escape:
  assumes "take 2 (concat (map escape_char s) @ 34 # rest) = [92, 117]"
  shows "\<exists>d t u r. s = d # t \<and>
           decode_uXXXX (drop 2 (concat (map escape_char s) @ 34 # rest)) = Some (u, r) \<and>
           (0xDC00 \<le> u \<and> u \<le> 0xDFFF \<longrightarrow> u = d)"
proof (cases s)
  case Nil
  with assms show ?thesis by simp
next
  case (Cons d t)
  let ?E = "concat (map escape_char t) @ 34 # rest"
  from escape_char_cases [of d]
  consider (simple) e where "escape_char d = [92, e]" "e \<noteq> 117"
    | (plain) "escape_char d = [d]" "d \<noteq> 92"
    | (single) "d < 0x10000" "escape_char d = u_escape d"
    | (pair) "0x10000 \<le> d"
        "escape_char d = u_escape (0xD800 + (d - 0x10000) div 1024 mod 1024) @
                    u_escape (0xDC00 + (d - 0x10000) mod 1024)"
    by fastforce
  then show ?thesis
  proof cases
    case simple
    with assms Cons show ?thesis by simp
  next
    case plain
    with assms Cons show ?thesis by simp
  next
    case single
    from decode_u_escape [of d ?E] single(1)
    obtain h where "u_escape d = 92 # 117 # h" "decode_uXXXX (h @ ?E) = Some (d, ?E)" by auto
    with single Cons show ?thesis by simp
  next
    case pair
    let ?hi = "0xD800 + (d - 0x10000) div 1024 mod 1024"
    let ?E' = "u_escape (0xDC00 + (d - 0x10000) mod 1024) @ ?E"
    have hi: "?hi < 65536" "\<not> (0xDC00 \<le> ?hi)"
    proof -
      have "(d - 0x10000) div 1024 mod 1024 < 1024" by simp
      then show "?hi < 65536" "\<not> (0xDC00 \<le> ?hi)" by linarith+
    qed
    from decode_u_escape [OF hi(1), of ?E']
    obtain h where "u_escape ?hi = 92 # 117 # h" "decode_uXXXX (h @ ?E') = Some (?hi, ?E')" by auto
    with pair Cons hi(2) show ?thesis by simp
  qed
qed

lemma valid_text_Cons: "valid_text (c # s) \<Longrightarrow> c < 0x110000 \<and> valid_text s"
  by (cases s) simp_all

lemma escape_char_kinds:
  "(\<exists>e. escape_char c = [92, e] \<and> e \<noteq> 117 \<and> unescape e = Some c) \<or>
   (escape_char c = [c] \<and> c \<noteq> 34 \<and> c \<noteq> 92 \<and> 32 \<le> c) \<or>
   (c < 0x10000 \<and> escape_char c = u_escape c) \<or>
   (0x10000 \<le> c \<and>
    escape_char c = u_escape (0xD800 + (c - 0x10000) div 1024 mod 1024) @
                    u_escape (0xDC00 + (c - 0x10000) mod 1024))"
proof -
  consider "c = 92" | "c = 34" | "c = 8" | "c = 12" | "c = 10" | "c = 13" | "c = 9"
    | "c \<notin> {92, 34, 8, 12, 10, 13, 9}" "32 \<le> c \<and> c \<le> 126"
    | "c \<notin> {92, 34, 8, 12, 10, 13, 9}" "\<not> (32 \<le> c \<and> c \<le> 126)" "c < 0x10000"
    | "c \<notin> {92, 34, 8, 12, 10, 13, 9}" "\<not> (32 \<le> c \<and> c \<le> 126)" "\<not> c < 0x10000"
    by blast
  then show ?thesis
    by cases (simp_all add: escape_char_def unescape_def)
qed

lemma scan_escaped_char:
  assumes ok: "valid_text (c # s)"
    and ih: "scan_string (concat (map escape_char s) @ 34 # rest) = Some (s, rest)"
  shows "scan_string (escape_char c @ concat (map escape_char s) @ 34 # rest) = Some (c # s, rest)"
proof -
  let ?E = "concat (map escape_char s) @ 34 # rest"
  from ok have c: "c < 0x110000" using valid_text_Cons by blast
  from escape_char_kinds [of c]
  consider (simple) e where "escape_char c = [92, e]" "e \<noteq> 117" "unescape e = Some c"
    | (plain) "escape_char c = [c]" "c \<noteq> 34" "c \<noteq> 92" "32 \<le> c"
    | (single) "c < 0x10000" "escape_char c = u_escape c"
    | (pair) "0x10000 \<le> c"
        "escape_char c = u_escape (0xD800 + (c - 0x10000) div 1024 mod 1024) @
                    u_escape (0xDC00 + (c - 0x10000) mod 1024)"
    by blast
  then show ?thesis
  proof cases
    case simple
    with ih show ?thesis by (simp add: scan_simple_escape)
  next
    case plain
    with ih show ?thesis by (simp add: scan_plain)
  next
    case single
    from decode_u_escape [OF single(1), of ?E]
    obtain h where h: "u_escape c = 92 # 117 # h" and d: "decode_uXXXX (h @ ?E) = Some (c, ?E)"
      by auto
    show ?thesis
    proof (cases "0xD800 \<le> c \<and> c \<le> 0xDBFF \<and> take 2 ?E = [92, 117]")
      case False
      from scan_u_single [OF d False] ih single h show ?thesis by simp
    next
      case True
      then have t: "take 2 ?E = [92, 117]" by simp
      from following_escape [OF t]
      obtain d' t' u r where s: "s = d' # t'" and d2: "decode_uXXXX (drop 2 ?E) = Some (u, r)"
        and low: "0xDC00 \<le> u \<and> u \<le> 0xDFFF \<longrightarrow> u = d'"
        by blast
      from ok s True have "\<not> (0xDC00 \<le> d' \<and> d' \<le> 0xDFFF)" by simp
      with low have "\<not> (0xDC00 \<le> u \<and> u \<le> 0xDFFF)" by blast
      from scan_u_unpaired [OF d t d2 this] ih single h show ?thesis by simp
    qed
  next
    case pair
    let ?x = "c - 0x10000"
    let ?hi = "0xD800 + ?x div 1024 mod 1024"
    let ?lo = "0xDC00 + ?x mod 1024"
    let ?E' = "u_escape ?lo @ ?E"
    from c pair(1) have x: "?x < 1048576" by simp
    then have xd: "?x div 1024 < 1024" by simp
    then have m: "?x div 1024 mod 1024 = ?x div 1024" by simp
    have "?x mod 1024 < 1024" by simp
    with xd m have hi: "?hi < 65536" "0xD800 \<le> ?hi" "?hi \<le> 0xDBFF"
      and lo: "?lo < 65536" "0xDC00 \<le> ?lo" "?lo \<le> 0xDFFF"
      by linarith+
    from decode_u_escape [OF hi(1), of ?E']
    obtain h where h: "u_escape ?hi = 92 # 117 # h" and d: "decode_uXXXX (h @ ?E') = Some (?hi, ?E')"
      by auto
    from decode_u_escape [OF lo(1), of ?E]
    obtain h' where h': "u_escape ?lo = 92 # 117 # h'" and d': "decode_uXXXX (h' @ ?E) = Some (?lo, ?E)"
      by auto
    from h' have t: "take 2 ?E' = [92, 117]" by simp
    from h' d' have d2: "decode_uXXXX (drop 2 ?E') = Some (?lo, ?E)" by simp
    have "0x10000 + (?hi - 0xD800) * 1024 + (?lo - 0xDC00) = c"
      using pair(1) m div_mult_mod_eq [of ?x 1024] by simp
    with scan_u_pair [OF d hi(2,3) t d2 lo(2,3)] ih pair(2) h show ?thesis by simp
  qed
qed

text \<open>A string that was written is read back, up to the closing quote.\<close>

lemma scan_encoded:
  "valid_text s \<Longrightarrow> scan_string (concat (map escape_char s) @ 34 # rest) = Some (s, rest)"
proof (induction s)
  case Nil
  show ?case by (simp add: scan_quote)
next
  case (Cons c s)
  from Cons.prems have "valid_text s" using valid_text_Cons by blast
  with Cons.IH have "scan_string (concat (map escape_char s) @ 34 # rest) = Some (s, rest)" .
  with Cons.prems show ?case using scan_escaped_char by simp
qed

lemma scan_encode_string:
  "valid_text s \<Longrightarrow> \<exists>t. encode_string s @ rest = 34 # t \<and> scan_string t = Some (s, rest)"
  using scan_encoded [of s rest] by (simp add: encode_string_def)

subsection \<open>Numbers\<close>

lemma dec_nat_digits: "\<forall>c \<in> set (dec_nat n). is_digit c"
proof (induction n rule: dec_nat.induct)
  case (1 n)
  show ?case
  proof (cases "n < 10")
    case True
    then show ?thesis by (subst dec_nat.simps) (simp add: is_digit_def)
  next
    case False
    have "n mod 10 < 10" by simp
    then have "is_digit (48 + n mod 10)" unfolding is_digit_def by linarith
    with False 1 show ?thesis by (subst dec_nat.simps) simp
  qed
qed

lemma dec_nat_not_empty: "dec_nat n \<noteq> []"
  by (subst dec_nat.simps) simp

lemma dec_nat_hd: "0 < n \<Longrightarrow> hd (dec_nat n) \<noteq> 48"
proof (induction n rule: dec_nat.induct)
  case (1 n)
  show ?case
  proof (cases "n < 10")
    case True
    with 1(2) show ?thesis by (subst dec_nat.simps) simp
  next
    case False
    then have "0 < n div 10" by simp
    with 1(1) False have "hd (dec_nat (n div 10)) \<noteq> 48" by simp
    with False show ?thesis by (subst dec_nat.simps) (simp add: dec_nat_not_empty)
  qed
qed

lemma dec_nat_0: "dec_nat 0 = [48]"
  by (subst dec_nat.simps) simp

lemma digits_value_snoc: "digits_value (ds @ [d]) = 10 * digits_value ds + (d - 48)"
  by (simp add: digits_value_def)

lemma digits_value_dec_nat: "digits_value (dec_nat n) = n"
proof (induction n rule: dec_nat.induct)
  case (1 n)
  show ?case
  proof (cases "n < 10")
    case True
    then show ?thesis by (subst dec_nat.simps) (simp add: digits_value_def)
  next
    case False
    with 1 have "digits_value (dec_nat (n div 10)) = n div 10" by simp
    with False show ?thesis by (subst dec_nat.simps) (simp add: digits_value_snoc)
  qed
qed

lemma terminated_no_digit: "terminated rest \<Longrightarrow> takeWhile is_digit rest = []"
  by (cases rest) (auto simp: terminated_def is_digit_def)

lemma terminated_no_fraction:
  "terminated rest \<Longrightarrow> \<not> (rest \<noteq> [] \<and> (hd rest = 46 \<or> hd rest = 101 \<or> hd rest = 69))"
  by (auto simp: terminated_def)

lemma digits_of_dec_nat:
  assumes "terminated rest"
  shows "takeWhile is_digit (dec_nat n @ rest) = dec_nat n"
  using dec_nat_digits [of n] terminated_no_digit [OF assms] by (simp add: takeWhile_append2)

lemma integer_of_dec_nat: "(if hd (dec_nat n) = 48 then [48] else dec_nat n) = dec_nat n"
  using dec_nat_hd [of n] dec_nat_0 by (cases "n = 0") auto

lemma scan_number_digits:
  assumes "terminated rest" and "negative \<longrightarrow> 0 < n"
  shows "scan_number ((if negative then [45] else []) @ dec_nat n @ rest) =
           Some (JInt (if negative then - int n else int n), rest)"
proof -
  let ?s = "(if negative then [45] else []) @ dec_nat n @ rest"
  from dec_nat_digits [of n] dec_nat_not_empty [of n] have "hd (dec_nat n) \<noteq> 45"
    by (cases "dec_nat n") (auto simp: is_digit_def)
  then have neg: "(?s \<noteq> [] \<and> hd ?s = 45) = negative"
    by (simp add: dec_nat_not_empty)
  have s1: "(if negative then tl ?s else ?s) = dec_nat n @ rest" by simp
  have ds: "takeWhile is_digit (dec_nat n @ rest) = dec_nat n"
    by (rule digits_of_dec_nat [OF assms(1)])
  have rest: "drop (length (dec_nat n)) (dec_nat n @ rest) = rest" by simp
  from terminated_no_fraction [OF assms(1)]
  have nf: "(rest \<noteq> [] \<and> (hd rest = 46 \<or> hd rest = 101 \<or> hd rest = 69)) = False" by blast
  show ?thesis
    unfolding scan_number_def Let_def neg s1 ds integer_of_dec_nat rest nf
    by (simp add: dec_nat_not_empty digits_value_dec_nat)
qed

lemma scan_number_nat:
  assumes "terminated rest"
  shows "scan_number (dec_nat n @ rest) = Some (JInt (int n), rest)"
  using scan_number_digits [OF assms, of False n] by simp

lemma scan_number_negative:
  assumes "terminated rest" and "0 < n"
  shows "scan_number (45 # dec_nat n @ rest) = Some (JInt (- int n), rest)"
  using scan_number_digits [OF assms(1), of True n] assms(2) by simp

lemma scan_number_dec_int:
  assumes "terminated rest"
  shows "scan_number (dec_int i @ rest) = Some (JInt i, rest)"
proof (cases "i < 0")
  case True
  with scan_number_negative [OF assms, of "nat (- i)"] show ?thesis by (simp add: dec_int_def)
next
  case False
  with scan_number_nat [OF assms, of "nat i"] show ?thesis by (simp add: dec_int_def)
qed

lemma dec_int_first:
  "\<exists>c cs. dec_int i = c # cs \<and> (is_digit c \<or> c = 45)"
proof (cases "i < 0")
  case True
  then show ?thesis by (simp add: dec_int_def)
next
  case False
  with dec_nat_digits [of "nat i"] dec_nat_not_empty [of "nat i"] show ?thesis
    by (cases "dec_nat (nat i)") (auto simp: dec_int_def)
qed

subsection \<open>White space and the starts of values\<close>

lemma skip_ws_spaces: "skip_ws (replicate k 32 @ t) = skip_ws t"
  by (induction k) (simp_all add: skip_ws_def is_ws_def)

lemma skip_ws_newline_indent: "skip_ws (newline_indent ind l @ t) = skip_ws t"
proof (cases ind)
  case None
  then show ?thesis by (simp add: newline_indent_def)
next
  case (Some k)
  have "skip_ws (10 # replicate (k * l) 32 @ t) = skip_ws (replicate (k * l) 32 @ t)"
    by (simp add: skip_ws_def is_ws_def)
  with Some show ?thesis by (simp add: newline_indent_def skip_ws_spaces)
qed


lemma skip_ws_start: "\<not> is_ws c \<Longrightarrow> skip_ws (c # t) = c # t"
  by (simp add: skip_ws_def)

lemma item_separator_shape:
  "\<exists>w. item_separator ind l = 44 # w \<and> (\<forall>t. skip_ws (w @ t) = skip_ws t)"
proof (cases ind)
  case None
  have "skip_ws (32 # t) = skip_ws t" for t by (simp add: skip_ws_def is_ws_def)
  with None show ?thesis by (simp add: item_separator_def)
next
  case (Some k)
  with skip_ws_newline_indent [of ind l] show ?thesis by (simp add: item_separator_def)
qed

lemma dumps_start: "\<exists>c cs. dumps ind l v = c # cs \<and> \<not> is_ws c \<and> c \<noteq> 93"
proof (cases v)
  case (JInt i)
  from dec_int_first [of i] obtain c cs where "dec_int i = c # cs" "is_digit c \<or> c = 45" by blast
  with JInt show ?thesis by (auto simp: is_ws_def is_digit_def)
qed (auto simp: is_ws_def ascii_def encode_string_def)

lemma terminated_simps:
  "terminated (newline_indent ind l @ 93 # rest)"
  "terminated (newline_indent ind l @ 125 # rest)"
  "terminated (item_separator ind l @ t)"
  by (cases ind; simp add: terminated_def newline_indent_def item_separator_def)+

lemma join_Cons: "xs \<noteq> [] \<Longrightarrow> join sep (x # xs) = x @ sep @ join sep xs"
  by (cases xs) simp_all

subsection \<open>Values that are not containers\<close>

lemma parse_null: "parse_value (Suc m) (ascii ''null'' @ rest) = Some (JNull, rest)"
  by (simp add: ascii_def)

lemma parse_true: "parse_value (Suc m) (ascii ''true'' @ rest) = Some (JBool True, rest)"
  by (simp add: ascii_def)

lemma parse_false: "parse_value (Suc m) (ascii ''false'' @ rest) = Some (JBool False, rest)"
  by (simp add: ascii_def)

lemma parse_number:
  assumes "terminated rest"
  shows "parse_value (Suc m) (dec_int i @ rest) = Some (JInt i, rest)"
proof -
  from dec_int_first [of i] obtain c cs where d: "dec_int i = c # cs" and c: "is_digit c \<or> c = 45"
    by blast
  from c have "parse_value (Suc m) (c # cs @ rest) = scan_number (c # cs @ rest)"
    by (auto simp: is_digit_def ascii_def)
  with scan_number_dec_int [OF assms, of i] d show ?thesis by simp
qed

lemma parse_string:
  assumes "valid_text s"
  shows "parse_value (Suc m) (encode_string s @ rest) = Some (JStr s, rest)"
  using scan_encoded [OF assms, of rest] by (simp add: encode_string_def)

subsection \<open>Arrays and objects\<close>

lemma join_start:
  assumes "xs \<noteq> []"
  shows "\<exists>c cs. join sep (map (dumps ind l) xs) = c # cs \<and> \<not> is_ws c \<and> c \<noteq> 93"
proof -
  from assms obtain x ys where xs: "xs = x # ys" by (cases xs) auto
  from dumps_start [of ind l x] obtain c cs where "dumps ind l x = c # cs" "\<not> is_ws c" "c \<noteq> 93"
    by blast
  then show ?thesis unfolding xs by (cases ys) auto
qed

lemma skip_ws_join:
  assumes "xs \<noteq> []"
  shows "skip_ws (join sep (map (dumps ind l) xs) @ t) = join sep (map (dumps ind l) xs) @ t"
proof -
  from join_start [OF assms, of sep ind l]
  obtain c cs where "join sep (map (dumps ind l) xs) = c # cs" "\<not> is_ws c" by blast
  then show ?thesis by (simp add: skip_ws_start)
qed

lemma skip_ws_dumps: "skip_ws (dumps ind l v @ t) = dumps ind l v @ t"
proof -
  from dumps_start [of ind l v] obtain c cs where "dumps ind l v = c # cs" "\<not> is_ws c" by blast
  then show ?thesis by (simp add: skip_ws_start)
qed

lemma skip_ws_close:
  "skip_ws (newline_indent ind l @ 93 # rest) = 93 # rest"
  "skip_ws (newline_indent ind l @ 125 # rest) = 125 # rest"
  by (simp_all add: skip_ws_newline_indent skip_ws_start is_ws_def)

lemma parse_items:
  assumes "xs \<noteq> []"
    and "\<And>x rest n. x \<in> set xs \<Longrightarrow> terminated rest \<Longrightarrow> need x \<le> n \<Longrightarrow>
           parse_value n (dumps ind l x @ rest) = Some (x, rest)"
    and "sum_list (map (\<lambda>x. Suc (need x)) xs) \<le> m"
  shows "parse_array_items m
           (join (item_separator ind l) (map (dumps ind l) xs) @ newline_indent ind l' @ 93 # rest) =
         Some (xs, rest)"
  using assms
proof (induction xs arbitrary: m rule: list_nonempty_induct)
  case (single x)
  let ?T = "newline_indent ind l' @ 93 # rest"
  from single.prems(2) obtain m' where m: "m = Suc m'" and n: "need x \<le> m'"
    by (cases m) auto
  have "parse_value m' (dumps ind l x @ ?T) = Some (x, ?T)"
    by (rule single.prems(1)) (simp_all add: terminated_simps n)
  then show ?case unfolding m by (simp add: skip_ws_close)
next
  case (cons x xs)
  let ?T = "newline_indent ind l' @ 93 # rest"
  let ?J = "join (item_separator ind l) (map (dumps ind l) xs)"
  from cons.prems(2) obtain m' where m: "m = Suc m'"
    and n: "need x \<le> m'" and r: "sum_list (map (\<lambda>x. Suc (need x)) xs) \<le> m'"
    by (cases m) auto
  obtain w where w: "item_separator ind l = 44 # w" and sw: "\<And>t. skip_ws (w @ t) = skip_ws t"
    using item_separator_shape [of ind l] by blast
  from cons.hyps(1)
  have shape: "join (item_separator ind l) (map (dumps ind l) (x # xs)) @ ?T =
      dumps ind l x @ (item_separator ind l @ ?J @ ?T)"
    by (simp add: join_Cons)
  have v: "parse_value m' (dumps ind l x @ (item_separator ind l @ ?J @ ?T)) =
      Some (x, item_separator ind l @ ?J @ ?T)"
    by (rule cons.prems(1)) (simp_all add: terminated_simps n)
  have s1: "skip_ws (item_separator ind l @ ?J @ ?T) = 44 # w @ ?J @ ?T"
    unfolding w by (simp add: skip_ws_start is_ws_def)
  have s2: "skip_ws (w @ ?J @ ?T) = ?J @ ?T"
    unfolding sw using skip_ws_join [OF cons.hyps(1)] by simp
  have "parse_array_items m' (?J @ ?T) = Some (xs, rest)"
    using cons.IH [OF _ r] cons.prems(1) by simp
  with v s1 s2 show ?case unfolding shape m by simp
qed

lemma parse_members:
  assumes "kvs \<noteq> []"
    and "\<And>kv rest n. kv \<in> set kvs \<Longrightarrow> terminated rest \<Longrightarrow> need (snd kv) \<le> n \<Longrightarrow>
           parse_value n (dumps ind l (snd kv) @ rest) = Some (snd kv, rest)"
    and "\<forall>kv \<in> set kvs. valid_text (fst kv)"
    and "sum_list (map (\<lambda>kv. Suc (need (snd kv))) kvs) \<le> m"
  shows "\<exists>t. join (item_separator ind l)
               (map (\<lambda>kv. encode_string (fst kv) @ [58, 32] @ dumps ind l (snd kv)) kvs) @
             newline_indent ind l' @ 125 # rest = 34 # t \<and>
           parse_object_members m t = Some (kvs, rest)"
  using assms
proof (induction kvs arbitrary: m rule: list_nonempty_induct)
  case (single kv)
  let ?T = "newline_indent ind l' @ 125 # rest"
  let ?k = "concat (map escape_char (fst kv))"
  let ?t = "?k @ 34 # 58 # 32 # dumps ind l (snd kv) @ ?T"
  from single.prems(3) obtain m' where m: "m = Suc m'" and n: "need (snd kv) \<le> m'"
    by (cases m) auto
  from single.prems(2) have "valid_text (fst kv)" by simp
  then have k: "scan_string ?t = Some (fst kv, 58 # 32 # dumps ind l (snd kv) @ ?T)"
    by (rule scan_encoded)
  have c: "skip_ws (58 # 32 # dumps ind l (snd kv) @ ?T) = 58 # 32 # dumps ind l (snd kv) @ ?T"
    by (simp add: skip_ws_start is_ws_def)
  have "skip_ws (32 # dumps ind l (snd kv) @ ?T) = skip_ws (dumps ind l (snd kv) @ ?T)"
    by (simp add: skip_ws_def is_ws_def)
  then have s: "skip_ws (32 # dumps ind l (snd kv) @ ?T) = dumps ind l (snd kv) @ ?T"
    by (simp add: skip_ws_dumps)
  have v: "parse_value m' (dumps ind l (snd kv) @ ?T) = Some (snd kv, ?T)"
    by (rule single.prems(1)) (simp_all add: terminated_simps n)
  from k c s v have "parse_object_members m ?t = Some ([kv], rest)"
    unfolding m by (simp add: skip_ws_close)
  then show ?case by (intro exI [of _ ?t]) (simp add: encode_string_def)
next
  case (cons kv kvs)
  let ?T = "newline_indent ind l' @ 125 # rest"
  let ?M = "\<lambda>kv. encode_string (fst kv) @ [58, 32] @ dumps ind l (snd kv)"
  let ?J = "join (item_separator ind l) (map ?M kvs)"
  let ?k = "concat (map escape_char (fst kv))"
  let ?R = "item_separator ind l @ ?J @ ?T"
  let ?t = "?k @ 34 # 58 # 32 # dumps ind l (snd kv) @ ?R"
  from cons.prems(3) obtain m' where m: "m = Suc m'"
    and n: "need (snd kv) \<le> m'" and r: "sum_list (map (\<lambda>kv. Suc (need (snd kv))) kvs) \<le> m'"
    by (cases m) auto
  obtain w where w: "item_separator ind l = 44 # w" and sw: "\<And>t. skip_ws (w @ t) = skip_ws t"
    using item_separator_shape [of ind l] by blast
  from cons.IH [OF _ _ r] cons.prems(1,2)
  obtain t' where t': "?J @ ?T = 34 # t'" and p': "parse_object_members m' t' = Some (kvs, rest)"
    by auto
  from cons.hyps(1)
  have shape: "join (item_separator ind l) (map ?M (kv # kvs)) @ ?T = 34 # ?t"
    by (simp add: join_Cons encode_string_def)
  from cons.prems(2) have "valid_text (fst kv)" by simp
  then have k: "scan_string ?t = Some (fst kv, 58 # 32 # dumps ind l (snd kv) @ ?R)"
    by (rule scan_encoded)
  have c: "skip_ws (58 # 32 # dumps ind l (snd kv) @ ?R) = 58 # 32 # dumps ind l (snd kv) @ ?R"
    by (simp add: skip_ws_start is_ws_def)
  have "skip_ws (32 # dumps ind l (snd kv) @ ?R) = skip_ws (dumps ind l (snd kv) @ ?R)"
    by (simp add: skip_ws_def is_ws_def)
  then have s: "skip_ws (32 # dumps ind l (snd kv) @ ?R) = dumps ind l (snd kv) @ ?R"
    by (simp add: skip_ws_dumps)
  have v: "parse_value m' (dumps ind l (snd kv) @ ?R) = Some (snd kv, ?R)"
    by (rule cons.prems(1)) (simp_all add: terminated_simps n)
  have s1: "skip_ws ?R = 44 # w @ ?J @ ?T"
    unfolding w by (simp add: skip_ws_start is_ws_def)
  have s2: "skip_ws (w @ ?J @ ?T) = 34 # t'"
    unfolding sw t' by (simp add: skip_ws_start is_ws_def)
  from k c s v s1 s2 p' have "parse_object_members m ?t = Some (kv # kvs, rest)"
    unfolding m by simp
  with shape show ?case by blast
qed

lemma dict_of_distinct:
  assumes "distinct (map fst kvs)"
  shows "dict_of kvs = kvs"
proof -
  have "distinct (map fst (acc @ kvs)) \<Longrightarrow>
      foldl (\<lambda>d kv. dict_store (\<lambda>k'. k' = fst kv) (fst kv) (snd kv) d) acc kvs = acc @ kvs" for acc
  proof (induction kvs arbitrary: acc)
    case Nil
    show ?case by simp
  next
    case (Cons kv kvs)
    from Cons.prems have "fst kv \<notin> fst ` set acc" by simp
    then have "\<forall>k' \<in> fst ` set acc. \<not> k' = fst kv" by blast
    then have "dict_store (\<lambda>k'. k' = fst kv) (fst kv) (snd kv) acc = acc @ [kv]"
      by (simp add: dict_store_fresh)
    moreover from Cons.prems have "distinct (map fst ((acc @ [kv]) @ kvs))" by simp
    ultimately show ?case using Cons.IH [of "acc @ [kv]"] by simp
  qed
  from this [of "[]"] assms show ?thesis by (simp add: dict_of_def)
qed

subsection \<open>What \<open>dumps\<close> writes, \<open>parse_value\<close> reads\<close>

lemma parse_array:
  assumes "xs \<noteq> []"
    and "\<And>x rest n. x \<in> set xs \<Longrightarrow> terminated rest \<Longrightarrow> need x \<le> n \<Longrightarrow>
           parse_value n (dumps ind (Suc l) x @ rest) = Some (x, rest)"
    and "sum_list (map (\<lambda>x. Suc (need x)) xs) \<le> m"
  shows "parse_value (Suc m) (dumps ind l (JArr xs) @ rest) = Some (JArr xs, rest)"
proof -
  let ?J = "join (item_separator ind (Suc l)) (map (dumps ind (Suc l)) xs)"
  let ?T = "newline_indent ind l @ 93 # rest"
  from join_start [OF assms(1), of "item_separator ind (Suc l)" ind "Suc l"]
  obtain c cs where j: "?J = c # cs" and c: "\<not> is_ws c" "c \<noteq> 93" by blast
  have d: "dumps ind l (JArr xs) @ rest = 91 # newline_indent ind (Suc l) @ ?J @ ?T"
    using assms(1) by simp
  have s: "skip_ws (newline_indent ind (Suc l) @ ?J @ ?T) = c # cs @ ?T"
    unfolding skip_ws_newline_indent j using c by (simp add: skip_ws_start)
  have "parse_array_items m (?J @ ?T) = Some (xs, rest)"
    using assms by (rule parse_items)
  then have "parse_array_items m (c # cs @ ?T) = Some (xs, rest)"
    unfolding j by simp
  with c show ?thesis unfolding d by (simp add: s)
qed

lemma parse_object:
  assumes "kvs \<noteq> []"
    and "\<And>kv rest n. kv \<in> set kvs \<Longrightarrow> terminated rest \<Longrightarrow> need (snd kv) \<le> n \<Longrightarrow>
           parse_value n (dumps ind (Suc l) (snd kv) @ rest) = Some (snd kv, rest)"
    and "\<forall>kv \<in> set kvs. valid_text (fst kv)"
    and "distinct (map fst kvs)"
    and "sum_list (map (\<lambda>kv. Suc (need (snd kv))) kvs) \<le> m"
  shows "parse_value (Suc m) (dumps ind l (JObj kvs) @ rest) = Some (JObj kvs, rest)"
proof -
  let ?J = "join (item_separator ind (Suc l))
      (map (\<lambda>kv. encode_string (fst kv) @ [58, 32] @ dumps ind (Suc l) (snd kv)) kvs)"
  let ?T = "newline_indent ind l @ 125 # rest"
  from parse_members [OF assms(1,2,3,5), of l rest]
  obtain t where j: "?J @ ?T = 34 # t" and p: "parse_object_members m t = Some (kvs, rest)"
    by blast
  have d: "dumps ind l (JObj kvs) @ rest = 123 # newline_indent ind (Suc l) @ ?J @ ?T"
    using assms(1) by simp
  have s: "skip_ws (newline_indent ind (Suc l) @ ?J @ ?T) = 34 # t"
    unfolding skip_ws_newline_indent j by (simp add: skip_ws_start is_ws_def)
  from s p show ?thesis unfolding d by (simp add: dict_of_distinct [OF assms(4)])
qed

lemma parse_empty_array: "parse_value (Suc m) (dumps ind l (JArr []) @ rest) = Some (JArr [], rest)"
  by (simp add: ascii_def skip_ws_start is_ws_def)

lemma parse_empty_object: "parse_value (Suc m) (dumps ind l (JObj []) @ rest) = Some (JObj [], rest)"
  by (simp add: ascii_def skip_ws_start is_ws_def)

lemma parse_dumps:
  "valid_json v \<Longrightarrow> terminated rest \<Longrightarrow> need v \<le> n \<Longrightarrow>
   parse_value n (dumps ind l v @ rest) = Some (v, rest)"
proof (induction v arbitrary: l rest n)
  case JNull
  then obtain m where "n = Suc m" by (cases n) auto
  then show ?case by (simp only: dumps.simps parse_null)
next
  case (JBool b)
  then obtain m where "n = Suc m" by (cases n) auto
  then show ?case by (cases b) (simp_all only: dumps.simps parse_true parse_false if_True if_False)
next
  case (JInt i)
  then obtain m where "n = Suc m" by (cases n) auto
  with JInt.prems(2) show ?case by (simp only: dumps.simps parse_number)
next
  case (JStr s)
  then obtain m where "n = Suc m" by (cases n) auto
  with JStr.prems(1) show ?case by (simp only: dumps.simps parse_string valid_json.simps)
next
  case (JArr xs)
  from JArr.prems(3) obtain m where n: "n = Suc m"
    and m: "sum_list (map (\<lambda>x. Suc (need x)) xs) \<le> m"
    by (cases n) auto
  show ?case
  proof (cases "xs = []")
    case True
    then show ?thesis unfolding n by (simp only: parse_empty_array)
  next
    case False
    have "parse_value n' (dumps ind (Suc l) x @ rest') = Some (x, rest')"
      if "x \<in> set xs" "terminated rest'" "need x \<le> n'" for x rest' n'
      using JArr.IH [OF that(1) _ that(2,3)] JArr.prems(1) that(1) by simp
    with False show ?thesis unfolding n using m by (rule parse_array)
  qed
next
  case (JObj kvs)
  from JObj.prems(3) obtain m where n: "n = Suc m"
    and m: "sum_list (map (\<lambda>kv. Suc (need (snd kv))) kvs) \<le> m"
    by (cases n) auto
  show ?case
  proof (cases "kvs = []")
    case True
    then show ?thesis unfolding n by (simp only: parse_empty_object)
  next
    case False
    have e: "parse_value n' (dumps ind (Suc l) (snd kv) @ rest') = Some (snd kv, rest')"
      if "kv \<in> set kvs" "terminated rest'" "need (snd kv) \<le> n'" for kv rest' n'
    proof -
      have "snd kv \<in> Basic_BNFs.snds kv" by (cases kv) simp
      moreover from JObj.prems(1) that(1) have "valid_json (snd kv)" by simp
      ultimately show ?thesis using JObj.IH that by blast
    qed
    from JObj.prems(1) have k: "\<forall>kv \<in> set kvs. valid_text (fst kv)" by simp
    from JObj.prems(1) have d: "distinct (map fst kvs)" by simp
    from False e k d m show ?thesis unfolding n by (rule parse_object)
  qed
qed

subsection \<open>The calls that \<open>loads\<close> allows are enough\<close>

lemma length_join:
  "sep \<noteq> [] \<Longrightarrow> xs \<noteq> [] \<Longrightarrow>
   sum_list (map (\<lambda>x. Suc (length x)) xs) \<le> Suc (length (join sep xs))"
proof (induction sep xs rule: join.induct)
  case (3 sep x y ys)
  from 3 have "sum_list (map (\<lambda>x. Suc (length x)) (y # ys)) \<le> Suc (length (join sep (y # ys)))"
    by simp
  moreover from 3 have "1 \<le> length sep" by (cases sep) simp_all
  ultimately show ?case by simp
qed simp_all

lemma item_separator_not_empty: "item_separator ind l \<noteq> []"
  by (cases ind) (simp_all add: item_separator_def)

lemma need_le_length: "need v \<le> length (dumps ind l v)"
proof (induction v arbitrary: l)
  case (JArr xs)
  show ?case
  proof (cases "xs = []")
    case True
    then show ?thesis by (simp add: ascii_def)
  next
    case False
    let ?sep = "item_separator ind (Suc l)"
    have "sum_list (map (\<lambda>x. Suc (need x)) xs) \<le>
        sum_list (map (\<lambda>x. Suc (length (dumps ind (Suc l) x))) xs)"
      by (rule sum_list_mono) (simp add: JArr.IH)
    also have "\<dots> = sum_list (map (\<lambda>x. Suc (length x)) (map (dumps ind (Suc l)) xs))"
      by (simp add: comp_def)
    also have "\<dots> \<le> Suc (length (join ?sep (map (dumps ind (Suc l)) xs)))"
      using False by (intro length_join) (simp_all add: item_separator_not_empty)
    finally show ?thesis using False by simp
  qed
next
  case (JObj kvs)
  show ?case
  proof (cases "kvs = []")
    case True
    then show ?thesis by (simp add: ascii_def)
  next
    case False
    let ?sep = "item_separator ind (Suc l)"
    let ?M = "\<lambda>kv. encode_string (fst kv) @ [58, 32] @ dumps ind (Suc l) (snd kv)"
    have "need (snd kv) \<le> length (?M kv)" if "kv \<in> set kvs" for kv
    proof -
      have "snd kv \<in> Basic_BNFs.snds kv" by (cases kv) simp
      from JObj.IH [OF that this, of "Suc l"] show ?thesis by simp
    qed
    then have "sum_list (map (\<lambda>kv. Suc (need (snd kv))) kvs) \<le>
        sum_list (map (\<lambda>kv. Suc (length (?M kv))) kvs)"
      by (intro sum_list_mono) simp
    also have "\<dots> = sum_list (map (\<lambda>x. Suc (length x)) (map ?M kvs))"
      by (simp add: comp_def)
    also have "\<dots> \<le> Suc (length (join ?sep (map ?M kvs)))"
      using False by (intro length_join) (simp_all add: item_separator_not_empty)
    finally show ?thesis using False by simp
  qed
next
  case (JInt i)
  from dec_int_first [of i] obtain c cs where "dec_int i = c # cs" by blast
  then show ?case by simp
qed (simp_all add: ascii_def encode_string_def)

subsection \<open>Reading back what was written\<close>

lemma terminated_Nil: "terminated []"
  by (simp add: terminated_def)

lemma loads_dumps:
  assumes "valid_json v"
  shows "loads (dumps ind l v) = Some v"
proof -
  have "need v \<le> 2 * length (dumps ind l v) + 2"
    using need_le_length [of v ind l] by simp
  with assms terminated_Nil
  have "parse_value (2 * length (dumps ind l v) + 2) (dumps ind l v @ []) = Some (v, [])"
    by (rule parse_dumps)
  moreover have "skip_ws (dumps ind l v) = dumps ind l v"
    using skip_ws_dumps [of ind l v "[]"] by simp
  moreover have "skip_ws [] = []" by (simp add: skip_ws_def)
  ultimately show ?thesis unfolding loads_def by simp
qed

subsection \<open>The download\<close>

lemma json_button_data:
  assumes "Download_Button download_json_label doc ''data_lineage_structured.json''
             ''application/json'' ''download_json_report''
             \<in> set (fst (render_download_section d report))"
  shows "doc = json_dumps (Some 2) d"
proof (cases "truthy d \<and> report \<noteq> []")
  case True
  show ?thesis
  proof (cases "encode_utf8 report")
    case (Inl e)
    with True assms show ?thesis by (simp add: render_download_section_def)
  next
    case (Inr b)
    with True assms show ?thesis by (simp add: render_download_section_def encode_json_dumps)
  qed
next
  case False
  with assms show ?thesis by (auto simp: render_download_section_def)
qed

lemma pair_escapes: "escape_char 0x1F600 = escape_char 0xD83D @ escape_char 0xDE00"
  by (simp add: escape_char_def u_escape_def)

lemma split_pair_text: "json_dumps ind split_pair = json_dumps ind joined_pair"
  by (simp add: json_dumps_def split_pair_def joined_pair_def jobj_def encode_string_def pair_escapes)

lemma valid_joined_pair: "valid_json joined_pair"
  by (simp add: joined_pair_def jobj_def jstr_def ascii_def)

text \<open>
  C7 (as amended). Take a value of Python in whose strings no high surrogate stands
  directly before a low surrogate. When the download section offers its JSON document, the
  document is the text that \<open>json.dumps\<close> writes for the value with an indent of two
  spaces, all its bytes are ASCII, so that the bytes are the text, and \<open>json.loads\<close>
  reads from it the value itself: the same keys and items in the same order, so the same
  nodes and the same edges in their order.
\<close>

theorem export_reads_back:
  assumes "valid_json d"
    and "Download_Button download_json_label doc ''data_lineage_structured.json''
           ''application/json'' ''download_json_report''
           \<in> set (fst (render_download_section d report))"
  shows "doc = json_dumps (Some 2) d \<and> (\<forall>b \<in> set doc. b < 128) \<and> loads doc = Some d \<and>
         (\<exists>d'. loads doc = Some d' \<and>
            py_get d' (ascii ''nodes'') JNull = py_get d (ascii ''nodes'') JNull \<and>
            py_get d' (ascii ''edges'') JNull = py_get d (ascii ''edges'') JNull)"
proof -
  from assms(2) have doc: "doc = json_dumps (Some 2) d" by (rule json_button_data)
  have plain: "\<forall>b \<in> set doc. b < 128" unfolding doc json_dumps_def by (rule dumps_ascii)
  from assms(1) have same: "loads doc = Some d" unfolding doc json_dumps_def by (rule loads_dumps)
  from doc plain same show ?thesis by simp
qed

theorem export_reads_back_witness:
  "valid_json a_flows_to_b \<and>
   Download_Button download_json_label (json_dumps (Some 2) a_flows_to_b)
     ''data_lineage_structured.json'' ''application/json'' ''download_json_report''
     \<in> set (fst (render_download_section a_flows_to_b (ascii ''## Data Flow Summary''))) \<and>
   loads (json_dumps (Some 2) a_flows_to_b) = Some a_flows_to_b"
proof -
  have v: "valid_json a_flows_to_b"
    by (simp add: a_flows_to_b_def jobj_def jstr_def ascii_def)
  have t: "truthy a_flows_to_b" by (simp add: a_flows_to_b_def jobj_def)
  have "\<forall>c \<in> set (ascii ''## Data Flow Summary''). c < 128" by (simp add: ascii_def)
  then have e: "encode_utf8 (ascii ''## Data Flow Summary'') = Inr (ascii ''## Data Flow Summary'')"
    by (rule encode_utf8_ascii)
  have n: "ascii ''## Data Flow Summary'' \<noteq> []" by (simp add: ascii_def)
  from t n have b: "Download_Button download_json_label (json_dumps (Some 2) a_flows_to_b)
     ''data_lineage_structured.json'' ''application/json'' ''download_json_report''
     \<in> set (fst (render_download_section a_flows_to_b (ascii ''## Data Flow Summary'')))"
    by (simp add: render_download_section_def e encode_json_dumps)
  from export_reads_back [OF v b] v b show ?thesis by simp
qed

text \<open>
  A dict that is offered for export and not read back: the id of its node has the two
  halves of a surrogate pair, two characters, which \<open>json.dumps\<close> writes as two escapes
  and \<open>json.loads\<close> reads as one character.
\<close>

theorem export_joins_a_split_pair:
  "Download_Button download_json_label (json_dumps (Some 2) split_pair)
     ''data_lineage_structured.json'' ''application/json'' ''download_json_report''
     \<in> set (fst (render_download_section split_pair (ascii ''## Data Flow Summary''))) \<and>
   loads (json_dumps (Some 2) split_pair) = Some joined_pair \<and>
   py_get split_pair (ascii ''nodes'') JNull =
     Inr (JArr [jobj [(''id'', JStr [0xD83D, 0xDE00]), (''label'', jstr ''a''),
                      (''group'', jstr ''column'')]]) \<and>
   py_get joined_pair (ascii ''nodes'') JNull =
     Inr (JArr [jobj [(''id'', JStr [0x1F600]), (''label'', jstr ''a''),
                      (''group'', jstr ''column'')]])"
proof -
  have t: "truthy split_pair" by (simp add: split_pair_def jobj_def)
  have "\<forall>c \<in> set (ascii ''## Data Flow Summary''). c < 128" by (simp add: ascii_def)
  then have e: "encode_utf8 (ascii ''## Data Flow Summary'') = Inr (ascii ''## Data Flow Summary'')"
    by (rule encode_utf8_ascii)
  have n: "ascii ''## Data Flow Summary'' \<noteq> []" by (simp add: ascii_def)
  from t n have b: "Download_Button download_json_label (json_dumps (Some 2) split_pair)
     ''data_lineage_structured.json'' ''application/json'' ''download_json_report''
     \<in> set (fst (render_download_section split_pair (ascii ''## Data Flow Summary'')))"
    by (simp add: render_download_section_def e encode_json_dumps)
  have "loads (json_dumps (Some 2) joined_pair) = Some joined_pair"
    unfolding json_dumps_def using valid_joined_pair by (rule loads_dumps)
  then have l: "loads (json_dumps (Some 2) split_pair) = Some joined_pair"
    unfolding split_pair_text .
  have p: "py_get split_pair (ascii ''nodes'') JNull =
     Inr (JArr [jobj [(''id'', JStr [0xD83D, 0xDE00]), (''label'', jstr ''a''),
                      (''group'', jstr ''column'')]])"
    by (simp add: split_pair_def jobj_def)
  have q: "py_get joined_pair (ascii ''nodes'') JNull =
     Inr (JArr [jobj [(''id'', JStr [0x1F600]), (''label'', jstr ''a''),
                      (''group'', jstr ''column'')]])"
    by (simp add: joined_pair_def jobj_def)
  from b l p q show ?thesis by simp
qed

end
